(* ===== verification/Prelude.thy ===== *)
theory Prelude
  imports "HOL-Library.Word" "HOL-Library.List_Lexorder"
begin

text \<open>
  What every component shares: bytes and machine integers, Rust's \<open>Result\<close> with its panics,
  slices that panic out of range, little-endian integers, checked and saturating arithmetic,
  and the generic list lemmas of the byte-level proofs.  Nothing here is about one component.
\<close>

section \<open>Machine types\<close>

type_synonym byte = "8 word"
type_synonym bytes = "byte list"
type_synonym u16 = "16 word"
type_synonym u32 = "32 word"
type_synonym u64 = "64 word"
type_synonym u128 = "128 word"

text \<open>A byte-string literal \<open>b"..."\<close>.\<close>

definition ascii :: "string \<Rightarrow> bytes" where
  "ascii s = map of_char s"

lemma length_ascii [simp]: "length (ascii s) = length s"
  by (simp add: ascii_def)

text \<open>
  Both scripts run on the 64-bit CKB-VM.  A \<open>usize\<close> is a \<open>nat\<close> in the model; where the code
  increments one in an open-ended loop, the overflow check of the release profile
  (\<open>overflow-checks = true\<close> in Cargo.toml) is written out against this bound.
\<close>

definition usize_limit :: nat where
  "usize_limit = 2 ^ 64"

lemma usize_limit_pos [simp]: "0 < usize_limit"
  by (simp add: usize_limit_def)

section \<open>Results\<close>

text \<open>
  A Rust \<open>Result\<close> that may also panic: \<open>Inr\<close> is \<open>Ok\<close>, \<open>Inl (Fail e)\<close> is \<open>Err e\<close> and
  \<open>Inl Panic\<close> is a panic.
\<close>

datatype 'e fault = Fail 'e | Panic

type_synonym ('e, 'a) result = "'e fault + 'a"

abbreviation Ok :: "'a \<Rightarrow> ('e, 'a) result" where
  "Ok x \<equiv> Inr x"

abbreviation Err :: "'e \<Rightarrow> ('e, 'a) result" where
  "Err e \<equiv> Inl (Fail e)"

abbreviation Panicked :: "('e, 'a) result" where
  "Panicked \<equiv> Inl Panic"

named_theorems result_simps \<open>inversion of results built with the question-mark operator\<close>

text \<open>The question-mark operator: go on with the value, return early with the fault.\<close>

fun andThen :: "('e, 'a) result \<Rightarrow> ('a \<Rightarrow> ('e, 'b) result) \<Rightarrow> ('e, 'b) result" where
  "andThen (Inl f) k = Inl f"
| "andThen (Inr x) k = k x"

lemma andThen_Ok_iff [result_simps]:
  "andThen m k = Ok y \<longleftrightarrow> (\<exists>x. m = Ok x \<and> k x = Ok y)"
  by (cases m) auto

lemma andThen_fault_iff:
  "andThen m k = Inl f \<longleftrightarrow> m = Inl f \<or> (\<exists>x. m = Ok x \<and> k x = Inl f)"
  by (cases m) auto

lemma andThen_assoc: "andThen (andThen m k) l = andThen m (\<lambda>x. andThen (k x) l)"
  by (cases m) auto

fun map_err :: "('d \<Rightarrow> 'e) \<Rightarrow> ('d, 'a) result \<Rightarrow> ('e, 'a) result" where
  "map_err g (Inl (Fail e)) = Err (g e)"
| "map_err g (Inl Panic) = Panicked"
| "map_err g (Inr x) = Ok x"

lemma map_err_Ok_iff [result_simps]: "map_err g m = Ok x \<longleftrightarrow> m = Ok x"
  by (cases "(g, m)" rule: map_err.cases) auto

lemma map_err_Panic_iff: "map_err g m = Panicked \<longleftrightarrow> m = Panicked"
  by (cases "(g, m)" rule: map_err.cases) auto

fun ok_or :: "'a option \<Rightarrow> 'e \<Rightarrow> ('e, 'a) result" where
  "ok_or None e = Err e"
| "ok_or (Some x) e = Ok x"

lemma ok_or_Ok_iff [result_simps]: "ok_or m e = Ok x \<longleftrightarrow> m = Some x"
  by (cases m) auto

lemma ok_or_no_panic [simp]: "ok_or m e \<noteq> Panicked"
  by (cases m) auto

fun_cases map_err_ErrE: "map_err g m = Err e" and ok_or_ErrE: "ok_or m e = Err d"

lemma map_err_Err_iff: "map_err g m = Err e \<longleftrightarrow> (\<exists>d. m = Err d \<and> e = g d)"
  by (auto elim: map_err_ErrE)

lemma ok_or_Err_iff: "ok_or m d = Err e \<longleftrightarrow> m = None \<and> e = d"
  by (auto elim: ok_or_ErrE)

definition is_ok :: "'f + 'a \<Rightarrow> bool" where
  "is_ok r = (case r of Inl _ \<Rightarrow> False | Inr _ \<Rightarrow> True)"

lemma is_ok_simps [simp]: "is_ok (Inr x)" "\<not> is_ok (Inl f)"
  by (simp_all add: is_ok_def)

lemma is_ok_iff: "is_ok r \<longleftrightarrow> (\<exists>x. r = Inr x)"
  by (cases r) auto

text \<open>A \<open>for\<close> loop that pushes the value of each fallible step and returns at the first fault.\<close>

fun traverse :: "('a \<Rightarrow> ('e, 'b) result) \<Rightarrow> 'a list \<Rightarrow> ('e, 'b list) result" where
  "traverse f [] = Ok []"
| "traverse f (x # xs) = andThen (f x) (\<lambda>y. andThen (traverse f xs) (\<lambda>ys. Ok (y # ys)))"

lemma traverse_map_Ok: "(\<And>x. x \<in> set xs \<Longrightarrow> f x = Ok (g x)) \<Longrightarrow> traverse f xs = Ok (map g xs)"
  by (induction xs) auto

lemma traverse_length: "traverse f xs = Ok ys \<Longrightarrow> length ys = length xs"
  by (induction xs arbitrary: ys) (auto simp: result_simps)

lemma traverse_nth: "traverse f xs = Ok ys \<Longrightarrow> i < length xs \<Longrightarrow> f (xs ! i) = Ok (ys ! i)"
  by (induction xs arbitrary: ys i) (auto simp: result_simps nth_Cons split: nat.splits)

lemma traverse_no_panic: "(\<And>x. x \<in> set xs \<Longrightarrow> f x \<noteq> Panicked) \<Longrightarrow> traverse f xs \<noteq> Panicked"
  by (induction xs) (auto simp: andThen_fault_iff)

section \<open>Searching a vector\<close>

text \<open>\<open>iter().find\<close> and \<open>iter_mut().find\<close>: the index of the first element that satisfies the test.\<close>

fun position :: "('a \<Rightarrow> bool) \<Rightarrow> 'a list \<Rightarrow> nat option" where
  "position P [] = None"
| "position P (x # xs) = (if P x then Some 0 else map_option Suc (position P xs))"

lemma position_None_iff: "position P xs = None \<longleftrightarrow> (\<forall>x \<in> set xs. \<not> P x)"
  by (induction xs) auto

lemma position_SomeD: "position P xs = Some k \<Longrightarrow> k < length xs \<and> P (xs ! k) \<and> (\<forall>j < k. \<not> P (xs ! j))"
  by (induction xs arbitrary: k) (auto simp: nth_Cons split: if_splits nat.splits)

section \<open>Slices\<close>

text \<open>\<open>b[lo..hi]\<close>: panics unless \<open>lo \<le> hi \<le> b.len()\<close>.\<close>

definition slice :: "'a list \<Rightarrow> nat \<Rightarrow> nat \<Rightarrow> ('e, 'a list) result" where
  "slice b lo hi = (if lo \<le> hi \<and> hi \<le> length b then Ok (take (hi - lo) (drop lo b)) else Panicked)"

lemma slice_Ok_iff [result_simps]:
  "slice b lo hi = Ok s \<longleftrightarrow> lo \<le> hi \<and> hi \<le> length b \<and> s = take (hi - lo) (drop lo b)"
  by (auto simp: slice_def)

lemma slice_in_range [simp]:
  "lo \<le> hi \<Longrightarrow> hi \<le> length b \<Longrightarrow> slice b lo hi = Ok (take (hi - lo) (drop lo b))"
  by (simp add: slice_def)

lemma slice_never_errs [simp]: "slice b lo hi \<noteq> Err e"
  by (simp add: slice_def)

text \<open>Adjacent slices join: how a record parsed field by field is put together again.\<close>

lemma glue: "take m b @ take n (drop m b) = take (m + n) b"
  by (rule take_add [symmetric])

lemma glue_append: "take m b @ take n (drop m b) @ r = take (m + n) b @ r"
  by (simp add: take_add)

text \<open>\<open>b[i]\<close>: panics out of range.\<close>

definition index_at :: "'a list \<Rightarrow> nat \<Rightarrow> ('e, 'a) result" where
  "index_at b i = (if i < length b then Ok (b ! i) else Panicked)"

lemma index_at_in_range [simp]: "i < length b \<Longrightarrow> index_at b i = Ok (b ! i)"
  by (simp add: index_at_def)

lemma index_at_Ok_iff [result_simps]: "index_at b i = Ok x \<longleftrightarrow> i < length b \<and> x = b ! i"
  by (auto simp: index_at_def)

text \<open>\<open>buf[lo..hi].copy_from_slice(src)\<close>: panics on a bad range or when the lengths differ.\<close>

definition copy_from_slice :: "bytes \<Rightarrow> nat \<Rightarrow> nat \<Rightarrow> bytes \<Rightarrow> ('e, bytes) result" where
  "copy_from_slice buf lo hi src =
     (if lo \<le> hi \<and> hi \<le> length buf \<and> length src = hi - lo
      then Ok (take lo buf @ src @ drop hi buf) else Panicked)"

lemma copy_from_slice_length:
  "copy_from_slice buf lo hi src = Ok buf' \<Longrightarrow> length buf' = length buf"
  by (auto simp: copy_from_slice_def split: if_splits)

text \<open>Filling a zeroed buffer from the left: the copied prefix grows, the zeros shrink.\<close>

lemma copy_fills_prefix:
  "hi = length pre + length src \<Longrightarrow> length src \<le> n \<Longrightarrow>
   copy_from_slice (pre @ replicate n 0) (length pre) hi src = Ok ((pre @ src) @ replicate (n - length src) 0)"
  by (simp add: copy_from_slice_def)

section \<open>Little-endian integers\<close>

fun nat_to_le :: "nat \<Rightarrow> nat \<Rightarrow> bytes" where
  "nat_to_le 0 n = []"
| "nat_to_le (Suc k) n = of_nat (n mod 256) # nat_to_le k (n div 256)"

fun le_to_nat :: "bytes \<Rightarrow> nat" where
  "le_to_nat [] = 0"
| "le_to_nat (b # bs) = unat b + 256 * le_to_nat bs"

lemma length_nat_to_le [simp]: "length (nat_to_le k n) = k"
  by (induction k arbitrary: n) auto

lemma unat_byte_less [simp]: "unat (b :: byte) < 256"
proof -
  have "unat b < 2 ^ LENGTH(8)" by (rule unsigned_less)
  then show ?thesis by simp
qed

lemma unat_less_2p: "unat (w :: 'a::len word) < 2 ^ LENGTH('a)"
  by (rule unsigned_less)

lemma le_to_nat_bound: "le_to_nat bs < 256 ^ length bs"
proof (induction bs)
  case (Cons b bs)
  then have "256 * le_to_nat bs + 256 \<le> 256 * 256 ^ length bs"
    by simp
  moreover have "unat b < 256" by (rule unat_byte_less)
  ultimately have "unat b + 256 * le_to_nat bs < 256 * 256 ^ length bs" by linarith
  then show ?case by simp
qed simp

lemma unat_of_nat_byte [simp]: "unat (of_nat (n mod 256) :: byte) = n mod 256"
  by (simp add: unat_of_nat)

lemma le_to_nat_to_le: "le_to_nat (nat_to_le k n) = n mod 256 ^ k"
proof (induction k arbitrary: n)
  case (Suc k)
  have "n mod (256 * 256 ^ k) = 256 * (n div 256 mod 256 ^ k) + n mod 256"
    by (rule mod_mult2_eq)
  with Suc show ?case by (simp add: unat_of_nat)
qed simp

lemma nat_to_le_to_nat: "nat_to_le (length bs) (le_to_nat bs) = bs"
  by (induction bs) (simp_all add: word_unat_eq_iff unat_of_nat)

definition to_le :: "nat \<Rightarrow> 'a::len word \<Rightarrow> bytes" where
  "to_le k w = nat_to_le k (unat w)"

definition from_le :: "bytes \<Rightarrow> 'a::len word" where
  "from_le bs = of_nat (le_to_nat bs)"

abbreviation u64_le :: "u64 \<Rightarrow> bytes" where "u64_le \<equiv> to_le 8"
abbreviation u128_le :: "u128 \<Rightarrow> bytes" where "u128_le \<equiv> to_le 16"

lemma length_to_le [simp]: "length (to_le k w) = k"
  by (simp add: to_le_def)

lemma from_to_le: "LENGTH('a) = 8 * k \<Longrightarrow> from_le (to_le k (w :: 'a::len word)) = w"
  using unat_less_2p[of w] by (simp add: from_le_def to_le_def le_to_nat_to_le power_mult)

lemma to_from_le: "LENGTH('a) = 8 * length bs \<Longrightarrow> to_le (length bs) (from_le bs :: 'a::len word) = bs"
  using le_to_nat_bound[of bs]
  by (simp add: from_le_def to_le_def unat_of_nat power_mult nat_to_le_to_nat)

lemma unat_from_le: "LENGTH('a) = 8 * length bs \<Longrightarrow> unat (from_le bs :: 'a::len word) = le_to_nat bs"
  using le_to_nat_bound[of bs] by (simp add: from_le_def unat_of_nat power_mult)

lemma from_le_u64 [simp]: "from_le (u64_le w) = w"
  by (rule from_to_le) simp

lemma from_le_u128 [simp]: "from_le (u128_le w) = w"
  by (rule from_to_le) simp

lemma u64_le_from_le [simp]: "length bs = 8 \<Longrightarrow> u64_le (from_le bs) = bs"
  using to_from_le[where 'a = 64 and bs = bs] by simp

lemma u128_le_from_le [simp]: "length bs = 16 \<Longrightarrow> u128_le (from_le bs) = bs"
  using to_from_le[where 'a = 128 and bs = bs] by simp

lemma u16_le_from_le: "length bs = 2 \<Longrightarrow> to_le 2 (from_le bs :: u16) = bs"
  using to_from_le[where 'a = 16 and bs = bs] by simp

lemma u32_le_from_le: "length bs = 4 \<Longrightarrow> to_le 4 (from_le bs :: u32) = bs"
  using to_from_le[where 'a = 32 and bs = bs] by simp

lemma unat_of_nat_small: "n < 2 ^ LENGTH('a) \<Longrightarrow> unat (of_nat n :: 'a::len word) = n"
  by (simp add: unat_of_nat)

lemma u64_le_inj [simp]: "u64_le a = u64_le b \<longleftrightarrow> a = b"
  by (metis from_le_u64)

lemma u128_le_inj [simp]: "u128_le a = u128_le b \<longleftrightarrow> a = b"
  by (metis from_le_u128)

section \<open>Checked and saturating arithmetic\<close>

definition checked_add :: "'a::len word \<Rightarrow> 'a word \<Rightarrow> 'a word option" where
  "checked_add a b = (if unat a + unat b < 2 ^ LENGTH('a) then Some (a + b) else None)"

definition checked_sub :: "'a::len word \<Rightarrow> 'a word \<Rightarrow> 'a word option" where
  "checked_sub a b = (if b \<le> a then Some (a - b) else None)"

definition saturating_add :: "'a::len word \<Rightarrow> 'a word \<Rightarrow> 'a word" where
  "saturating_add a b = (if unat a + unat b < 2 ^ LENGTH('a) then a + b else - 1)"

definition saturating_sub :: "'a::len word \<Rightarrow> 'a word \<Rightarrow> 'a word" where
  "saturating_sub a b = (if b \<le> a then a - b else 0)"

definition saturating_mul :: "'a::len word \<Rightarrow> 'a word \<Rightarrow> 'a word" where
  "saturating_mul a b = (if unat a * unat b < 2 ^ LENGTH('a) then a * b else - 1)"

lemma checked_add_Some:
  "checked_add a b = Some c \<longleftrightarrow> c = a + b \<and> unat c = unat a + unat b"
  by (auto simp: checked_add_def unat_word_ariths split: if_splits)
     (metis unat_less_2p unat_word_ariths(1))

lemma checked_sub_Some:
  "checked_sub a b = Some c \<longleftrightarrow> b \<le> a \<and> c = a - b"
  by (auto simp: checked_sub_def)

lemma checked_sub_unat:
  "checked_sub a b = Some c \<Longrightarrow> unat a = unat c + unat b"
  by (auto simp: checked_sub_def unat_sub_if' word_le_nat_alt split: if_splits)

lemma unat_max_word: "unat (- 1 :: 'a::len word) = 2 ^ LENGTH('a) - 1"
  by (simp add: unsigned_minus_1_eq_mask mask_eq_exp_minus_1)

lemma unat_saturating_add:
  "unat (saturating_add a b) = min (unat a + unat b) (2 ^ LENGTH('a) - 1)" for a :: "'a::len word"
  by (auto simp: saturating_add_def unat_word_ariths unat_max_word min_def)

lemma unat_saturating_sub: "unat (saturating_sub a b) = unat a - unat b"
  by (auto simp: saturating_sub_def unat_sub_if' word_le_nat_alt)

lemma unat_saturating_mul:
  "unat (saturating_mul a b) = min (unat a * unat b) (2 ^ LENGTH('a) - 1)" for a :: "'a::len word"
proof (cases "unat a * unat b < 2 ^ LENGTH('a)")
  case True
  then show ?thesis by (simp add: saturating_mul_def unat_word_ariths)
next
  case False
  then have "2 ^ LENGTH('a) - 1 \<le> unat a * unat b" by linarith
  with False show ?thesis by (simp add: saturating_mul_def unat_max_word)
qed

end
