(* ===== verification/Ckb.thy ===== *)
theory Ckb
  imports Prelude
begin

text \<open>
  What the repository's code uses of CKB and of its crates, none of which is under src/.  The data
  types follow the molecule schema as ckb-types exposes it.  The functions the code calls are the
  fields of two records that every definition using them takes as an argument: \<open>externals\<close> for
  the pure crates (ckb-hash, hex, ckb-types' molecule serialisation and hashes, and the ckb-auth
  code hash a build script writes) and \<open>vm\<close> for the syscalls a script makes through ckb-std.
  What the code relies on about them is stated as named predicates, used as hypotheses.
\<close>

section \<open>Chain data\<close>

record script =
  s_code_hash :: bytes
  s_hash_type :: byte
  s_args :: bytes

record out_point =
  op_tx_hash :: bytes
  op_index :: u32

record cell_dep =
  cd_out_point :: out_point
  cd_dep_type :: byte

record cell_input =
  ci_previous_output :: out_point
  ci_since :: u64

record cell_output =
  co_capacity :: u64
  co_lock :: script
  co_type :: "script option"

record raw_tx =
  rt_version :: u32
  rt_cell_deps :: "cell_dep list"
  rt_header_deps :: "bytes list"
  rt_inputs :: "cell_input list"
  rt_outputs :: "cell_output list"
  rt_outputs_data :: "bytes list"

record transaction =
  tx_raw :: raw_tx
  tx_witnesses :: "bytes list"

record witness_args =
  wa_lock :: "bytes option"
  wa_input_type :: "bytes option"
  wa_output_type :: "bytes option"

type_synonym cell = "cell_output \<times> bytes"

section \<open>Crates\<close>

record externals =
  blake2b_256 :: "bytes \<Rightarrow> bytes"
  hex_encode :: "bytes \<Rightarrow> string"
  calc_script_hash :: "script \<Rightarrow> bytes"
  calc_tx_hash :: "raw_tx \<Rightarrow> bytes"
  molecule_raw_tx :: "raw_tx \<Rightarrow> bytes"
  molecule_transaction :: "transaction \<Rightarrow> bytes"
  molecule_witness_args :: "witness_args \<Rightarrow> bytes"
  auth_code_hash :: bytes

text \<open>\<open>blake2b_256\<close> and the script hash are 32 bytes; hex output has no NUL character.\<close>

definition digests_32 :: "externals \<Rightarrow> bool" where
  "digests_32 X \<longleftrightarrow> (\<forall>b. length (blake2b_256 X b) = 32) \<and> (\<forall>s. length (calc_script_hash X s) = 32)"

definition hex_is_text :: "externals \<Rightarrow> bool" where
  "hex_is_text X \<longleftrightarrow> (\<forall>b. CHR 0x00 \<notin> set (hex_encode X b))"

text \<open>
  A collision is a pair of two different strings with one digest.  Statements about binding name
  the two strings at hand; that no collision exists at all is never assumed.
\<close>

definition collision :: "(bytes \<Rightarrow> bytes) \<Rightarrow> bytes \<Rightarrow> bytes \<Rightarrow> bool" where
  "collision H x y \<longleftrightarrow> x \<noteq> y \<and> H x = H y"

text \<open>\<open>CString::new(s).unwrap()\<close>.\<close>

definition cstring :: "string \<Rightarrow> ('e, string) result" where
  "cstring s = (if CHR 0x00 \<in> set s then Panicked else Ok s)"

section \<open>Syscalls\<close>

datatype source = SrcInput | SrcOutput | SrcCellDep | SrcHeaderDep | SrcGroupInput | SrcGroupOutput

datatype script_hash_type = HashData | HashType | HashData1 | HashData2

text \<open>\<open>SysOther\<close> stands for the spawn-related variants, which the code treats alike.\<close>

datatype sys_error =
  SysIndexOutOfBound | SysItemMissing | SysLengthNotEnough nat | SysEncoding | SysUnknown u64 | SysOther

text \<open>
  The errors a witness loader reports are the four its documentation names, never one of the codes
  the scripts treat as unreachable.
\<close>

definition ordinary :: "sys_error + 'a \<Rightarrow> bool" where
  "ordinary m = (case m of Inl (SysUnknown _) \<Rightarrow> False | Inl SysOther \<Rightarrow> False | _ \<Rightarrow> True)"

record vm =
  load_input_since :: "nat \<Rightarrow> source \<Rightarrow> sys_error + u64"
  load_script :: "sys_error + script"
  load_script_hash :: "sys_error + bytes"
  load_witness_args :: "nat \<Rightarrow> source \<Rightarrow> sys_error + witness_args"
  load_transaction :: "sys_error + transaction"
  load_cell_data :: "nat \<Rightarrow> source \<Rightarrow> sys_error + bytes"
  load_cell_lock :: "nat \<Rightarrow> source \<Rightarrow> sys_error + script"
  load_cell_type :: "nat \<Rightarrow> source \<Rightarrow> sys_error + script option"
  load_cell_type_hash :: "nat \<Rightarrow> source \<Rightarrow> sys_error + bytes option"
  load_cell_capacity :: "nat \<Rightarrow> source \<Rightarrow> sys_error + u64"
  load_header_timestamp :: "nat \<Rightarrow> source \<Rightarrow> sys_error + u64"
  spawn_cell :: "bytes \<Rightarrow> script_hash_type \<Rightarrow> string list \<Rightarrow> sys_error + u64"
  wait_exit :: "u64 \<Rightarrow> sys_error + byte"

text \<open>
  The documented behaviour of the cell loaders: an index inside the source yields the cell's
  field, an index past its end yields \<open>IndexOutOfBound\<close>.
\<close>

definition item_at :: "'a list \<Rightarrow> nat \<Rightarrow> sys_error + 'a" where
  "item_at xs i = (if i < length xs then Inr (xs ! i) else Inl SysIndexOutOfBound)"

definition serves_cells :: "vm \<Rightarrow> source \<Rightarrow> cell list \<Rightarrow> bool" where
  "serves_cells V src cells \<longleftrightarrow>
     length cells < usize_limit \<and>
     (\<forall>i. load_cell_lock V i src = item_at (map (\<lambda>c. co_lock (fst c)) cells) i) \<and>
     (\<forall>i. load_cell_type V i src = item_at (map (\<lambda>c. co_type (fst c)) cells) i) \<and>
     (\<forall>i. load_cell_capacity V i src = item_at (map (\<lambda>c. co_capacity (fst c)) cells) i) \<and>
     (\<forall>i. load_cell_data V i src = item_at (map snd cells) i)"

lemma serves_cellsD:
  assumes "serves_cells V src cells"
  shows "length cells < usize_limit"
    and "load_cell_lock V i src = item_at (map (\<lambda>c. co_lock (fst c)) cells) i"
    and "load_cell_type V i src = item_at (map (\<lambda>c. co_type (fst c)) cells) i"
    and "load_cell_capacity V i src = item_at (map (\<lambda>c. co_capacity (fst c)) cells) i"
    and "load_cell_data V i src = item_at (map snd cells) i"
  using assms by (auto simp: serves_cells_def)

lemma item_at_simps:
  "i < length xs \<Longrightarrow> item_at xs i = Inr (xs ! i)"
  "length xs \<le> i \<Longrightarrow> item_at xs i = Inl SysIndexOutOfBound"
  by (simp_all add: item_at_def)

text \<open>
  The verdict of the ckb-auth binary on a signature: it is spawned with the four hex arguments and
  accepts with exit code 0.
\<close>

definition ckb_auth_accepts :: "externals \<Rightarrow> vm \<Rightarrow> byte \<Rightarrow> bytes \<Rightarrow> bytes \<Rightarrow> bytes \<Rightarrow> bool" where
  "ckb_auth_accepts X V alg sg msg pkh =
     (case spawn_cell V (auth_code_hash X) HashData1
             [hex_encode X [alg], hex_encode X sg, hex_encode X msg, hex_encode X pkh] of
        Inl _ \<Rightarrow> False
      | Inr pid \<Rightarrow> (case wait_exit V pid of Inl _ \<Rightarrow> False | Inr r \<Rightarrow> r = 0))"

end
