(* ===== verification/Session_Lock.thy ===== *)
theory Session_Lock
  imports Ckb
begin

text \<open>
  The session lock, contracts/controller-session-lock/src/main.rs, as one definition per function.
  Every syscall goes through the argument \<open>V\<close>, every crate function through \<open>X\<close>; the
  open-ended loops over cells end at \<open>IndexOutOfBound\<close> or, at the latest, when the index would
  overflow \<open>usize\<close>.
\<close>

section \<open>Constants, errors, parameters\<close>

definition ARGS_LEN :: nat where "ARGS_LEN = 116"
definition OWNER_ONLY_ARGS_LEN :: nat where "OWNER_ONLY_ARGS_LEN = 20"
definition SESSION_PARAMS_LEN :: nat where "SESSION_PARAMS_LEN = 96"
definition SPEND_CAP_UNLIMITED :: u128 where "SPEND_CAP_UNLIMITED = - 1"
definition NO_EXPIRY :: u64 where "NO_EXPIRY = - 1"

definition SESSION_AUTH_DOMAIN :: bytes where
  "SESSION_AUTH_DOMAIN = ascii ''ckb-controller/session-auth/v1''"

definition REVOCATION_EPOCH_LEN :: nat where "REVOCATION_EPOCH_LEN = 8"

definition AUTH_MSG_BUF_LEN :: nat where
  "AUTH_MSG_BUF_LEN = length SESSION_AUTH_DOMAIN + 32 + REVOCATION_EPOCH_LEN + SESSION_PARAMS_LEN"

definition POLICY_KIND_TYPE :: byte where "POLICY_KIND_TYPE = 0"
definition POLICY_KIND_LOCK :: byte where "POLICY_KIND_LOCK = 1"
definition WILDCARD_ROOT :: bytes where "WILDCARD_ROOT = replicate 32 0xFF"
definition LOCK_SIGNATURE_LEN :: nat where "LOCK_SIGNATURE_LEN = 65"
definition MODE_OWNER :: byte where "MODE_OWNER = 0"
definition MODE_SESSION :: byte where "MODE_SESSION = 1"
definition AUTH_ID_CKB_SECP256K1 :: byte where "AUTH_ID_CKB_SECP256K1 = 0"

lemmas lock_lens = ARGS_LEN_def OWNER_ONLY_ARGS_LEN_def SESSION_PARAMS_LEN_def
  REVOCATION_EPOCH_LEN_def LOCK_SIGNATURE_LEN_def

datatype lock_error =
    IndexOutOfBound | ItemMissing | LengthNotEnough | Encoding
  | MultipleInputs | ArgsLenError | EmptyWitnessError | WitnessLenError | InvalidMode
  | WrongSessionKey | SessionDisabled | SessionExpired | PolicyNotAllowed | PolicyProofMissing
  | PolicyProofMalformed | SessionCannotAdminister | SpendCapExceeded | AuthError

text \<open>The discriminants of \<open>#[repr(i8)] enum Error\<close>, the exit codes of the script.\<close>

primrec lock_error_code :: "lock_error \<Rightarrow> int" where
  "lock_error_code IndexOutOfBound = 1"
| "lock_error_code ItemMissing = 2"
| "lock_error_code LengthNotEnough = 3"
| "lock_error_code Encoding = 4"
| "lock_error_code MultipleInputs = 5"
| "lock_error_code ArgsLenError = 6"
| "lock_error_code EmptyWitnessError = 7"
| "lock_error_code WitnessLenError = 8"
| "lock_error_code InvalidMode = 9"
| "lock_error_code WrongSessionKey = 10"
| "lock_error_code SessionDisabled = 11"
| "lock_error_code SessionExpired = 12"
| "lock_error_code PolicyNotAllowed = 13"
| "lock_error_code PolicyProofMissing = 14"
| "lock_error_code PolicyProofMalformed = 15"
| "lock_error_code SessionCannotAdminister = 16"
| "lock_error_code SpendCapExceeded = 17"
| "lock_error_code AuthError = 18"

text \<open>The errors in the order of their exit codes; different errors exit with different codes.\<close>

lemma lock_error_code_inj [simp]: "lock_error_code a = lock_error_code b \<longleftrightarrow> a = b"
  by (cases a; cases b) simp_all

instantiation lock_error :: linorder
begin

definition less_eq_lock_error :: "lock_error \<Rightarrow> lock_error \<Rightarrow> bool" where
  "less_eq_lock_error a b \<longleftrightarrow> lock_error_code a \<le> lock_error_code b"

definition less_lock_error :: "lock_error \<Rightarrow> lock_error \<Rightarrow> bool" where
  "less_lock_error a b \<longleftrightarrow> lock_error_code a < lock_error_code b"

instance
  by standard (auto simp: less_eq_lock_error_def less_lock_error_def)

end

fun lock_from_sys :: "sys_error \<Rightarrow> lock_error fault" where
  "lock_from_sys SysIndexOutOfBound = Fail IndexOutOfBound"
| "lock_from_sys SysItemMissing = Fail ItemMissing"
| "lock_from_sys (SysLengthNotEnough n) = Fail LengthNotEnough"
| "lock_from_sys SysEncoding = Fail Encoding"
| "lock_from_sys (SysUnknown c) = Panic"
| "lock_from_sys SysOther = Panic"

definition lock_sys :: "sys_error + 'a \<Rightarrow> (lock_error, 'a) result" where
  "lock_sys m = map_sum lock_from_sys id m"

lemma lock_sys_simps [simp]: "lock_sys (Inr x) = Ok x" "lock_sys (Inl e) = Inl (lock_from_sys e)"
  by (simp_all add: lock_sys_def)

lemma lock_sys_Ok_iff [result_simps]: "lock_sys m = Ok x \<longleftrightarrow> m = Inr x"
  by (cases m) auto

record session_params =
  session_pubkey_hash :: bytes
  expires_at :: u64
  policies_root :: bytes
  spend_cap :: u128
  guardian_pubkey_hash :: bytes

definition parse_session_params :: "bytes \<Rightarrow> (lock_error, session_params) result" where
  "parse_session_params b =
     andThen (slice b 0 20) (\<lambda>sh.
     andThen (slice b 20 28) (\<lambda>ex.
     andThen (slice b 28 60) (\<lambda>root.
     andThen (slice b 60 76) (\<lambda>cap.
     andThen (slice b 76 96) (\<lambda>g.
       Ok \<lparr>session_pubkey_hash = sh, expires_at = from_le ex, policies_root = root,
           spend_cap = from_le cap, guardian_pubkey_hash = g\<rparr>)))))"

section \<open>Signatures, messages, epoch\<close>

definition verify_signature ::
  "externals \<Rightarrow> vm \<Rightarrow> byte \<Rightarrow> bytes \<Rightarrow> bytes \<Rightarrow> bytes \<Rightarrow> (lock_error, unit) result" where
  "verify_signature X V algorithm_id signature message pubkey_hash =
     andThen (cstring (hex_encode X [algorithm_id])) (\<lambda>a.
     andThen (cstring (hex_encode X signature)) (\<lambda>s.
     andThen (cstring (hex_encode X message)) (\<lambda>m.
     andThen (cstring (hex_encode X pubkey_hash)) (\<lambda>p.
       case spawn_cell V (auth_code_hash X) HashData1 [a, s, m, p] of
         Inl _ \<Rightarrow> Err AuthError
       | Inr pid \<Rightarrow>
           (case wait_exit V pid of
              Inl _ \<Rightarrow> Err AuthError
            | Inr r \<Rightarrow> if r \<noteq> 0 then Err AuthError else Ok ())))))"

definition tx_message :: "externals \<Rightarrow> vm \<Rightarrow> (lock_error, bytes) result" where
  "tx_message X V =
     (case load_transaction V of
        Inl _ \<Rightarrow> Panicked
      | Inr tx \<Rightarrow> Ok (blake2b_256 X (molecule_raw_tx X ((tx_raw tx)\<lparr>rt_cell_deps := []\<rparr>))))"

definition session_auth_message :: "externals \<Rightarrow> bytes \<Rightarrow> u64 \<Rightarrow> bytes \<Rightarrow> (lock_error, bytes) result" where
  "session_auth_message X script_hash revocation_epoch params_block =
     (let d = length SESSION_AUTH_DOMAIN; buf = replicate AUTH_MSG_BUF_LEN 0 in
      andThen (copy_from_slice buf 0 d SESSION_AUTH_DOMAIN) (\<lambda>buf.
      andThen (copy_from_slice buf d (d + 32) script_hash) (\<lambda>buf.
      andThen (copy_from_slice buf (d + 32) (d + 40) (u64_le revocation_epoch)) (\<lambda>buf.
      andThen (copy_from_slice buf (d + 40) (d + 40 + SESSION_PARAMS_LEN) params_block) (\<lambda>buf.
        Ok (blake2b_256 X buf))))))"

definition current_revocation_epoch :: "vm \<Rightarrow> (lock_error, u64) result" where
  "current_revocation_epoch V =
     andThen (lock_sys (load_cell_data V 0 SrcGroupInput)) (\<lambda>data.
       if length data \<ge> REVOCATION_EPOCH_LEN
       then andThen (slice data 0 REVOCATION_EPOCH_LEN) (\<lambda>e. Ok (from_le e))
       else Ok 0)"

definition current_timestamp_ms :: "vm \<Rightarrow> (lock_error, u64) result" where
  "current_timestamp_ms V = lock_sys (load_header_timestamp V 0 SrcHeaderDep)"

section \<open>Policy proofs\<close>

definition hash_pair :: "(bytes \<Rightarrow> bytes) \<Rightarrow> bytes \<Rightarrow> bytes \<Rightarrow> bytes" where
  "hash_pair H a b = (if a \<le> b then H (a @ b) else H (b @ a))"

text \<open>\<open>chunks_exact(n)\<close>: the full chunks, a shorter remainder is dropped.\<close>

function chunks_exact :: "nat \<Rightarrow> 'a list \<Rightarrow> 'a list list" where
  "chunks_exact n xs =
     (if n = 0 \<or> length xs < n then [] else take n xs # chunks_exact n (drop n xs))"
  by pat_completeness auto
termination by (relation "measure (\<lambda>(n, xs). length xs)") auto

declare chunks_exact.simps [simp del]

definition merkle_verify :: "(bytes \<Rightarrow> bytes) \<Rightarrow> bytes \<Rightarrow> bytes \<Rightarrow> bytes \<Rightarrow> bool" where
  "merkle_verify H root leaf proof_bytes =
     (if length proof_bytes mod 32 \<noteq> 0 then False
      else foldl (hash_pair H) leaf (chunks_exact 32 proof_bytes) = root)"

text \<open>
  The body of the loop of \<open>check_output_policies\<close> for an output that is not the account's own:
  consume one frame of the proof region and return the cursor after it.
\<close>

definition check_policy_frame ::
  "externals \<Rightarrow> vm \<Rightarrow> bytes \<Rightarrow> bytes \<Rightarrow> nat \<Rightarrow> nat \<Rightarrow> script \<Rightarrow> (lock_error, nat) result" where
  "check_policy_frame X V root proof_region cursor index lock =
     (if cursor + 2 > length proof_region then Err PolicyProofMissing
      else
        andThen (index_at proof_region cursor) (\<lambda>kind.
        andThen (index_at proof_region (cursor + 1)) (\<lambda>pl.
        let cursor = cursor + 2; len = unat pl * 32 in
        if cursor + len > length proof_region then Err PolicyProofMalformed
        else
          andThen (slice proof_region cursor (cursor + len)) (\<lambda>prf.
          andThen
            (if kind = POLICY_KIND_TYPE then
               andThen (lock_sys (load_cell_type V index SrcOutput)) (\<lambda>t.
                 case t of
                   Some type_script \<Rightarrow> Ok (blake2b_256 X (calc_script_hash X type_script))
                 | None \<Rightarrow> Err PolicyNotAllowed)
             else if kind = POLICY_KIND_LOCK then Ok (blake2b_256 X (calc_script_hash X lock))
             else Err PolicyProofMalformed) (\<lambda>leaf.
          if \<not> merkle_verify (blake2b_256 X) root leaf prf then Err PolicyNotAllowed
          else Ok (cursor + len))))))"

definition same_code :: "script \<Rightarrow> script \<Rightarrow> bool" where
  "same_code lock script \<longleftrightarrow>
     s_code_hash lock = s_code_hash script \<and> s_hash_type lock = s_hash_type script"

function policy_loop ::
  "externals \<Rightarrow> vm \<Rightarrow> script \<Rightarrow> bytes \<Rightarrow> bytes \<Rightarrow> nat \<Rightarrow> nat \<Rightarrow> (lock_error, unit) result" where
  "policy_loop X V script root proof_region cursor index =
     (case load_cell_lock V index SrcOutput of
        Inl SysIndexOutOfBound \<Rightarrow> Ok ()
      | Inl e \<Rightarrow> Inl (lock_from_sys e)
      | Inr lock \<Rightarrow>
          andThen (if same_code lock script then Ok cursor
                   else check_policy_frame X V root proof_region cursor index lock) (\<lambda>cursor.
            if index + 1 < usize_limit then policy_loop X V script root proof_region cursor (index + 1)
            else Panicked))"
  by pat_completeness auto
termination by (relation "measure (\<lambda>(X, V, script, root, region, cursor, index). usize_limit - index)") auto

declare policy_loop.simps [simp del]

definition check_output_policies ::
  "externals \<Rightarrow> vm \<Rightarrow> script \<Rightarrow> bytes \<Rightarrow> bytes \<Rightarrow> (lock_error, unit) result" where
  "check_output_policies X V script root proof_region = policy_loop X V script root proof_region 0 0"

section \<open>Account continuity and spend cap\<close>

function account_loop ::
  "vm \<Rightarrow> script \<Rightarrow> bytes \<Rightarrow> bytes \<Rightarrow> u128 \<Rightarrow> nat \<Rightarrow> (lock_error, u128) result" where
  "account_loop V script args input_data returned_capacity index =
     (case load_cell_lock V index SrcOutput of
        Inl SysIndexOutOfBound \<Rightarrow> Ok returned_capacity
      | Inl e \<Rightarrow> Inl (lock_from_sys e)
      | Inr lock \<Rightarrow>
          andThen
            (if same_code lock script then
               (if s_args lock \<noteq> args then Err SessionCannotAdminister
                else
                  andThen (lock_sys (load_cell_data V index SrcOutput)) (\<lambda>d.
                  if d \<noteq> input_data then Err SessionCannotAdminister
                  else
                    andThen (lock_sys (load_cell_capacity V index SrcOutput)) (\<lambda>cap.
                      Ok (saturating_add returned_capacity (ucast cap)))))
             else Ok returned_capacity) (\<lambda>returned_capacity.
            if index + 1 < usize_limit then account_loop V script args input_data returned_capacity (index + 1)
            else Panicked))"
  by pat_completeness auto
termination by (relation "measure (\<lambda>(V, script, args, d, r, index). usize_limit - index)") auto

declare account_loop.simps [simp del]

definition enforce_account_outputs :: "vm \<Rightarrow> script \<Rightarrow> bytes \<Rightarrow> (lock_error, u128) result" where
  "enforce_account_outputs V script args =
     andThen (lock_sys (load_cell_data V 0 SrcGroupInput)) (\<lambda>input_data.
       account_loop V script args input_data 0 0)"

text \<open>
  The \<open>for\<close> loop over \<open>QueryIter::new(load_cell_capacity, Source::GroupInput)\<close>: the iterator ends
  at \<open>IndexOutOfBound\<close> and panics on any other error.
\<close>

function input_capacity_loop :: "vm \<Rightarrow> u128 \<Rightarrow> nat \<Rightarrow> (lock_error, u128) result" where
  "input_capacity_loop V input_capacity index =
     (case load_cell_capacity V index SrcGroupInput of
        Inl SysIndexOutOfBound \<Rightarrow> Ok input_capacity
      | Inl e \<Rightarrow> Panicked
      | Inr c \<Rightarrow>
          if index + 1 < usize_limit
          then input_capacity_loop V (saturating_add input_capacity (ucast c)) (index + 1)
          else Panicked)"
  by pat_completeness auto
termination by (relation "measure (\<lambda>(V, c, index). usize_limit - index)") auto

declare input_capacity_loop.simps [simp del]

definition check_spend_cap :: "vm \<Rightarrow> u128 \<Rightarrow> u128 \<Rightarrow> (lock_error, unit) result" where
  "check_spend_cap V cap returned_capacity =
     (if cap = SPEND_CAP_UNLIMITED then Ok ()
      else
        andThen (input_capacity_loop V 0 0) (\<lambda>input_capacity.
          if saturating_sub input_capacity returned_capacity > cap then Err SpendCapExceeded else Ok ()))"

section \<open>The two modes and the entry point\<close>

definition verify_owner ::
  "externals \<Rightarrow> vm \<Rightarrow> bytes \<Rightarrow> bytes \<Rightarrow> bytes \<Rightarrow> (lock_error, unit) result" where
  "verify_owner X V args rest message =
     (if length rest < LOCK_SIGNATURE_LEN then Err WitnessLenError
      else
        andThen (slice rest 0 LOCK_SIGNATURE_LEN) (\<lambda>sg.
        andThen (slice args 0 20) (\<lambda>owner.
          verify_signature X V AUTH_ID_CKB_SECP256K1 sg message owner)))"

text \<open>The first half of \<open>verify_session\<close>: the parameters and the signature region, per trust model.\<close>

definition resolve_session ::
  "externals \<Rightarrow> vm \<Rightarrow> bytes \<Rightarrow> bytes \<Rightarrow> bytes \<Rightarrow> (lock_error, session_params \<times> bytes) result" where
  "resolve_session X V script_hash args rest =
     (if length args = ARGS_LEN then
        andThen (slice args OWNER_ONLY_ARGS_LEN ARGS_LEN) (\<lambda>pb.
        andThen (parse_session_params pb) (\<lambda>params. Ok (params, rest)))
      else if length args = OWNER_ONLY_ARGS_LEN then
        (if length rest < SESSION_PARAMS_LEN + LOCK_SIGNATURE_LEN then Err WitnessLenError
         else
           andThen (slice rest 0 SESSION_PARAMS_LEN) (\<lambda>params_block.
           andThen (slice rest SESSION_PARAMS_LEN (SESSION_PARAMS_LEN + LOCK_SIGNATURE_LEN)) (\<lambda>owner_auth.
           andThen (current_revocation_epoch V) (\<lambda>epoch.
           andThen (session_auth_message X script_hash epoch params_block) (\<lambda>auth_msg.
           andThen (slice args 0 20) (\<lambda>owner.
           andThen (verify_signature X V AUTH_ID_CKB_SECP256K1 owner_auth auth_msg owner) (\<lambda>_.
           andThen (parse_session_params params_block) (\<lambda>params.
           andThen (slice rest (SESSION_PARAMS_LEN + LOCK_SIGNATURE_LEN) (length rest)) (\<lambda>region.
             Ok (params, region))))))))))
      else Err ArgsLenError)"

text \<open>Checks (1) and (1b): the session and guardian signatures; the result is the proof region.\<close>

definition check_session_signatures ::
  "externals \<Rightarrow> vm \<Rightarrow> session_params \<Rightarrow> bytes \<Rightarrow> bytes \<Rightarrow> (lock_error, bytes) result" where
  "check_session_signatures X V params sig_region message =
     (if length sig_region < LOCK_SIGNATURE_LEN then Err WitnessLenError
      else
        andThen (slice sig_region 0 LOCK_SIGNATURE_LEN) (\<lambda>session_sig.
        let cursor = LOCK_SIGNATURE_LEN in
        andThen (verify_signature X V AUTH_ID_CKB_SECP256K1 session_sig message
                   (session_pubkey_hash params)) (\<lambda>_.
        andThen
          (if guardian_pubkey_hash params \<noteq> replicate 20 0 then
             (if length sig_region < cursor + LOCK_SIGNATURE_LEN then Err WitnessLenError
              else
                andThen (slice sig_region cursor (cursor + LOCK_SIGNATURE_LEN)) (\<lambda>guardian_sig.
                andThen (verify_signature X V AUTH_ID_CKB_SECP256K1 guardian_sig message
                           (guardian_pubkey_hash params)) (\<lambda>_.
                  Ok (cursor + LOCK_SIGNATURE_LEN))))
           else Ok cursor) (\<lambda>cursor.
          slice sig_region cursor (length sig_region)))))"

text \<open>Check (2).\<close>

definition check_expiry :: "vm \<Rightarrow> session_params \<Rightarrow> (lock_error, unit) result" where
  "check_expiry V params =
     (if expires_at params \<noteq> NO_EXPIRY then
        andThen (current_timestamp_ms V) (\<lambda>now_ms.
          if now_ms div 1000 \<ge> expires_at params then Err SessionExpired else Ok ())
      else Ok ())"

definition verify_session ::
  "externals \<Rightarrow> vm \<Rightarrow> script \<Rightarrow> bytes \<Rightarrow> bytes \<Rightarrow> bytes \<Rightarrow> bytes \<Rightarrow> (lock_error, unit) result" where
  "verify_session X V script script_hash args rest message =
     andThen (resolve_session X V script_hash args rest) (\<lambda>(params, sig_region).
     if session_pubkey_hash params = replicate 20 0 then Err SessionDisabled
     else
       andThen (check_session_signatures X V params sig_region message) (\<lambda>proof_region.
       andThen (check_expiry V params) (\<lambda>_.
       andThen (if policies_root params \<noteq> WILDCARD_ROOT
                then check_output_policies X V script (policies_root params) proof_region
                else Ok ()) (\<lambda>_.
       andThen (enforce_account_outputs V script args) (\<lambda>returned_capacity.
         check_spend_cap V (spend_cap params) returned_capacity)))))"

definition auth :: "externals \<Rightarrow> vm \<Rightarrow> (lock_error, unit) result" where
  "auth X V =
     (if is_ok (load_input_since V 1 SrcGroupInput) then Err MultipleInputs
      else
        andThen (lock_sys (load_script V)) (\<lambda>script.
        let args = s_args script in
        if length args \<noteq> ARGS_LEN \<and> length args \<noteq> OWNER_ONLY_ARGS_LEN then Err ArgsLenError
        else
          andThen (lock_sys (load_witness_args V 0 SrcGroupInput)) (\<lambda>witness_args.
          andThen (ok_or (wa_lock witness_args) EmptyWitnessError) (\<lambda>lock_bytes.
          if lock_bytes = [] then Err EmptyWitnessError
          else
            andThen (tx_message X V) (\<lambda>message.
            andThen (index_at lock_bytes 0) (\<lambda>mode.
            andThen (slice lock_bytes 1 (length lock_bytes)) (\<lambda>rest.
            if mode = MODE_OWNER then verify_owner X V args rest message
            else if mode = MODE_SESSION then
              andThen (lock_sys (load_script_hash V)) (\<lambda>script_hash.
                verify_session X V script script_hash args rest message)
            else Err InvalidMode)))))))"

text \<open>The exit code; \<open>None\<close> is a panic, which aborts the script.\<close>

definition program_entry :: "externals \<Rightarrow> vm \<Rightarrow> int option" where
  "program_entry X V =
     (case auth X V of
        Inr _ \<Rightarrow> Some 0
      | Inl (Fail e) \<Rightarrow> Some (lock_error_code e)
      | Inl Panic \<Rightarrow> None)"

end
