(* ===== verification/Lock_Facts.thy ===== *)
theory Lock_Facts
  imports Session_Lock
begin

text \<open>
  What each function of the session lock computes when the syscalls behave as documented: the
  loops over cells become statements about the list of cells, the parsers become decompositions
  of their input.  The specification theory composes these facts.
\<close>

section \<open>Signatures, messages and parameters\<close>

lemma verify_signature_eq:
  assumes "hex_is_text X"
  shows "verify_signature X V alg sg msg pkh = (if ckb_auth_accepts X V alg sg msg pkh then Ok () else Err AuthError)"
  using assms
  by (auto simp: verify_signature_def ckb_auth_accepts_def hex_is_text_def cstring_def split: sum.splits)

definition session_auth_preimage :: "bytes \<Rightarrow> u64 \<Rightarrow> bytes \<Rightarrow> bytes" where
  "session_auth_preimage script_hash epoch params_block =
     SESSION_AUTH_DOMAIN @ script_hash @ u64_le epoch @ params_block"

lemma length_SESSION_AUTH_DOMAIN [simp]: "length SESSION_AUTH_DOMAIN = 30"
  by (simp add: SESSION_AUTH_DOMAIN_def)

lemma session_auth_message_eq:
  assumes "length sh = 32" "length pb = SESSION_PARAMS_LEN"
  shows "session_auth_message X sh e pb = Ok (blake2b_256 X (session_auth_preimage sh e pb))"
  using assms
  by (simp add: session_auth_message_def session_auth_preimage_def copy_from_slice_def
      AUTH_MSG_BUF_LEN_def lock_lens)

lemma session_auth_preimage_inj:
  assumes "length sh = length sh'"
  shows "session_auth_preimage sh e pb = session_auth_preimage sh' e' pb' \<longleftrightarrow> sh = sh' \<and> e = e' \<and> pb = pb'"
  using assms by (auto simp: session_auth_preimage_def append_eq_append_conv)

definition params_of :: "bytes \<Rightarrow> session_params" where
  "params_of b =
     \<lparr>session_pubkey_hash = take 20 b, expires_at = from_le (take 8 (drop 20 b)),
      policies_root = take 32 (drop 28 b), spend_cap = from_le (take 16 (drop 60 b)),
      guardian_pubkey_hash = take 20 (drop 76 b)\<rparr>"

lemma parse_session_params_eq:
  "length b = SESSION_PARAMS_LEN \<Longrightarrow> parse_session_params b = Ok (params_of b)"
  by (simp add: parse_session_params_def params_of_def lock_lens)

section \<open>Merkle proofs\<close>

lemma hash_pair_commute: "hash_pair H a b = hash_pair H b a"
  by (auto simp: hash_pair_def)

lemma length_hash_pair: "(\<And>b. length (H b) = 32) \<Longrightarrow> length (hash_pair H a b) = 32"
  by (simp add: hash_pair_def)

lemma chunks_exact_concat:
  assumes "n \<noteq> 0" "\<forall>c \<in> set cs. length c = n"
  shows "chunks_exact n (concat cs) = cs"
  using assms(2)
proof (induction cs)
  case Nil
  show ?case using assms(1) by (simp add: chunks_exact.simps)
next
  case (Cons c cs)
  with assms(1) show ?case by (simp add: chunks_exact.simps[of n "c @ concat cs"])
qed

lemma concat_chunks_exact:
  "n \<noteq> 0 \<Longrightarrow> length xs mod n = 0 \<Longrightarrow> concat (chunks_exact n xs) = xs"
proof (induction n xs rule: chunks_exact.induct)
  case (1 n xs)
  show ?case
  proof (cases "length xs < n")
    case True
    with 1 have "xs = []" by simp
    with 1 show ?thesis by (simp add: chunks_exact.simps)
  next
    case False
    with 1 have "concat (chunks_exact n (drop n xs)) = drop n xs"
      by (simp add: le_mod_geq)
    with False 1(2) show ?thesis by (simp add: chunks_exact.simps[of n xs])
  qed
qed

lemma chunks_exact_lengths: "c \<in> set (chunks_exact n xs) \<Longrightarrow> length c = n"
proof (induction n xs rule: chunks_exact.induct)
  case (1 n xs)
  then show ?case by (auto simp: chunks_exact.simps[of n xs] split: if_splits)
qed

lemma length_chunks_exact: "n \<noteq> 0 \<Longrightarrow> length (chunks_exact n xs) = length xs div n"
proof (induction n xs rule: chunks_exact.induct)
  case (1 n xs)
  then show ?case by (auto simp: chunks_exact.simps[of n xs] le_div_geq)
qed

text \<open>The flat check of the lock, over a list of sibling hashes.\<close>

lemma merkle_verify_concat:
  assumes "\<forall>c \<in> set cs. length c = 32"
  shows "merkle_verify H root leaf (concat cs) \<longleftrightarrow> foldl (hash_pair H) leaf cs = root"
proof -
  have "length (concat cs) mod 32 = 0"
    using assms by (induction cs) (simp_all add: mod_add_left_eq)
  then show ?thesis using chunks_exact_concat[of 32 cs] assms by (simp add: merkle_verify_def)
qed

section \<open>Policy frames\<close>

text \<open>
  A frame of the proof region, and the region as a sequence of frames: the wire format
  \<open>kind(1) || proof_len(1) || siblings\<close>.
\<close>

definition encode_frame :: "byte \<times> bytes \<Rightarrow> bytes" where
  "encode_frame f = fst f # of_nat (length (snd f) div 32) # snd f"

definition frame_admits :: "externals \<Rightarrow> bytes \<Rightarrow> byte \<times> bytes \<Rightarrow> cell \<Rightarrow> bool" where
  "frame_admits X root f c \<longleftrightarrow>
     length (snd f) mod 32 = 0 \<and> length (snd f) div 32 < 256 \<and>
     (fst f = POLICY_KIND_TYPE \<and>
        (case co_type (fst c) of None \<Rightarrow> False
         | Some t \<Rightarrow> merkle_verify (blake2b_256 X) root (blake2b_256 X (calc_script_hash X t)) (snd f))
      \<or> fst f = POLICY_KIND_LOCK \<and>
        merkle_verify (blake2b_256 X) root (blake2b_256 X (calc_script_hash X (co_lock (fst c)))) (snd f))"

lemma policy_kinds [simp]: "POLICY_KIND_LOCK \<noteq> POLICY_KIND_TYPE" "POLICY_KIND_TYPE \<noteq> POLICY_KIND_LOCK"
  by (simp_all add: POLICY_KIND_LOCK_def POLICY_KIND_TYPE_def)

lemma check_policy_frame_sound:
  assumes ty: "load_cell_type V i SrcOutput = Inr (co_type (fst c))"
    and run: "check_policy_frame X V root region cursor i (co_lock (fst c)) = Ok cursor'"
  shows "\<exists>f. frame_admits X root f c \<and> cursor' \<le> length region \<and>
           drop cursor region = encode_frame f @ drop cursor' region"
proof -
  let ?n = "unat (region ! (cursor + 1)) * 32"
  let ?f = "(region ! cursor, take ?n (drop (cursor + 2) region))"
  from run have bounds: "cursor + 2 \<le> length region" "cursor + 2 + ?n \<le> length region"
    and c': "cursor' = cursor + 2 + ?n"
    by (auto simp: check_policy_frame_def Let_def result_simps split: if_splits)
  then have len: "length (snd ?f) = ?n" by simp
  have "drop cursor region = region ! cursor # region ! (cursor + 1) # drop (cursor + 2) region"
    using bounds(1) by (simp add: Cons_nth_drop_Suc)
  also have "drop (cursor + 2) region = snd ?f @ drop cursor' region"
    by (metis append_take_drop_id c' add.commute drop_drop snd_conv)
  finally have "drop cursor region = encode_frame ?f @ drop cursor' region"
    using len by (simp add: encode_frame_def)
  moreover have "frame_admits X root ?f c"
    using run bounds len ty
    by (auto simp: check_policy_frame_def frame_admits_def Let_def result_simps split: if_splits option.splits)
  ultimately show ?thesis using bounds(2) c' by blast
qed

lemma check_policy_frame_complete:
  assumes ty: "load_cell_type V i SrcOutput = Inr (co_type (fst c))"
    and ok: "frame_admits X root f c" and region: "drop cursor region = encode_frame f @ rest"
  shows "check_policy_frame X V root region cursor i (co_lock (fst c)) = Ok (cursor + length (encode_frame f))"
proof -
  obtain k p where f: "f = (k, p)" by fastforce
  from ok f have p: "length p mod 32 = 0" "length p div 32 < 256" by (simp_all add: frame_admits_def)
  have "length p div 32 * 32 = length p" using p(1) by presburger
  then have n: "unat (of_nat (length p div 32) :: byte) * 32 = length p"
    using p by (simp add: unat_of_nat_small)
  have d: "drop cursor region = k # of_nat (length p div 32) # p @ rest"
    using region f by (simp add: encode_frame_def)
  have "length (drop cursor region) = length p + length rest + 2" by (simp add: d)
  then have len: "length region = cursor + 2 + length p + length rest" by simp
  have k: "region ! cursor = k" "region ! (cursor + 1) = of_nat (length p div 32)"
    using d len nth_drop[of cursor region 0] nth_drop[of cursor region 1] by simp_all
  have "drop (cursor + 2) region = drop 2 (drop cursor region)" by (simp add: add.commute)
  then have t: "take (length p) (drop (cursor + 2) region) = p" by (simp add: d)
  show ?thesis
    using ok f ty n k t len
    by (auto simp: check_policy_frame_def frame_admits_def encode_frame_def Let_def split: option.splits)
qed

lemma policy_loop_iff:
  assumes V: "serves_cells V SrcOutput cs"
  shows "cursor \<le> length region \<Longrightarrow>
     policy_loop X V script root region cursor i = Ok () \<longleftrightarrow>
     (\<exists>fs rest. drop cursor region = concat (map encode_frame fs) @ rest \<and>
        list_all2 (frame_admits X root) fs
          (filter (\<lambda>c. \<not> same_code (co_lock (fst c)) script) (drop i cs)))"
proof (induction "length cs - i" arbitrary: i cursor)
  case 0
  then have "load_cell_lock V i SrcOutput = Inl SysIndexOutOfBound"
    using serves_cellsD(2)[OF V] by (simp add: item_at_def)
  with 0 show ?case by (auto simp: policy_loop.simps[of X V script root region cursor i])
next
  case (Suc n)
  then have i: "i < length cs" by simp
  let ?c = "cs ! i"
  have bound: "i + 1 < usize_limit" using i serves_cellsD(1)[OF V] by simp
  have lk: "load_cell_lock V i SrcOutput = Inr (co_lock (fst ?c))"
    and ty: "load_cell_type V i SrcOutput = Inr (co_type (fst ?c))"
    using serves_cellsD(2,3)[OF V] i by (simp_all add: item_at_def)
  have dr: "drop i cs = ?c # drop (i + 1) cs" using i by (simp add: Cons_nth_drop_Suc)
  have IH: "cursor' \<le> length region \<Longrightarrow>
     policy_loop X V script root region cursor' (i + 1) = Ok () \<longleftrightarrow>
     (\<exists>fs rest. drop cursor' region = concat (map encode_frame fs) @ rest \<and>
        list_all2 (frame_admits X root) fs
          (filter (\<lambda>c. \<not> same_code (co_lock (fst c)) script) (drop (i + 1) cs)))" for cursor'
    using Suc.hyps(1)[of "i + 1" cursor'] Suc.hyps(2) by simp
  show ?case
  proof (cases "same_code (co_lock (fst ?c)) script")
    case True
    with lk bound dr IH[OF Suc.prems] show ?thesis
      by (simp add: policy_loop.simps[of X V script root region cursor i])
  next
    case False
    let ?run = "check_policy_frame X V root region cursor i (co_lock (fst ?c))"
    have unfold: "policy_loop X V script root region cursor i =
        andThen ?run (\<lambda>cursor'. policy_loop X V script root region cursor' (i + 1))"
      using lk bound False by (simp add: policy_loop.simps[of X V script root region cursor i])
    show ?thesis
    proof
      assume "policy_loop X V script root region cursor i = Ok ()"
      then obtain cursor' where r: "?run = Ok cursor'"
        and tail: "policy_loop X V script root region cursor' (i + 1) = Ok ()"
        unfolding unfold by (auto simp: result_simps)
      from check_policy_frame_sound[OF ty r] obtain f where
        f: "frame_admits X root f ?c" "cursor' \<le> length region"
           "drop cursor region = encode_frame f @ drop cursor' region" by blast
      from tail IH[OF f(2)] obtain fs rest where
        "drop cursor' region = concat (map encode_frame fs) @ rest"
        "list_all2 (frame_admits X root) fs
          (filter (\<lambda>c. \<not> same_code (co_lock (fst c)) script) (drop (i + 1) cs))" by blast
      with f dr False show "\<exists>fs rest. drop cursor region = concat (map encode_frame fs) @ rest \<and>
        list_all2 (frame_admits X root) fs (filter (\<lambda>c. \<not> same_code (co_lock (fst c)) script) (drop i cs))"
        by (intro exI[of _ "f # fs"] exI[of _ rest]) simp
    next
      assume "\<exists>fs rest. drop cursor region = concat (map encode_frame fs) @ rest \<and>
        list_all2 (frame_admits X root) fs (filter (\<lambda>c. \<not> same_code (co_lock (fst c)) script) (drop i cs))"
      with dr False obtain f fs rest where
        d: "drop cursor region = encode_frame f @ concat (map encode_frame fs) @ rest" and
        f: "frame_admits X root f ?c" and
        fs: "list_all2 (frame_admits X root) fs
          (filter (\<lambda>c. \<not> same_code (co_lock (fst c)) script) (drop (i + 1) cs))"
        by (auto simp: list_all2_Cons2)
      let ?c' = "cursor + length (encode_frame f)"
      have "length region = cursor + length (drop cursor region)" using Suc.prems by simp
      then have "?c' \<le> length region" by (simp add: d)
      moreover have "drop ?c' region = concat (map encode_frame fs) @ rest"
        using d append_eq_conv_conj[of "encode_frame f"] by (metis add.commute drop_drop)
      ultimately have "policy_loop X V script root region ?c' (i + 1) = Ok ()"
        using IH fs by blast
      with check_policy_frame_complete[OF ty f d] show "policy_loop X V script root region cursor i = Ok ()"
        unfolding unfold by simp
    qed
  qed
qed

section \<open>Account continuity and capacity\<close>

definition capacity_sum :: "cell list \<Rightarrow> nat" where
  "capacity_sum cs = sum_list (map (\<lambda>c. unat (co_capacity (fst c))) cs)"

definition account_kept :: "script \<Rightarrow> bytes \<Rightarrow> bytes \<Rightarrow> cell \<Rightarrow> bool" where
  "account_kept script args d c \<longleftrightarrow>
     (if same_code (co_lock (fst c)) script then s_args (co_lock (fst c)) = args \<and> snd c = d else True)"

definition own_cells :: "script \<Rightarrow> cell list \<Rightarrow> cell list" where
  "own_cells script cs = filter (\<lambda>c. same_code (co_lock (fst c)) script) cs"

lemma capacity_sum_simps [simp]:
  "capacity_sum [] = 0" "capacity_sum (c # cs) = unat (co_capacity (fst c)) + capacity_sum cs"
  by (simp_all add: capacity_sum_def)

lemma own_cells_simps [simp]:
  "own_cells script [] = []"
  "own_cells script (c # cs) = (if same_code (co_lock (fst c)) script then c # own_cells script cs else own_cells script cs)"
  by (simp_all add: own_cells_def)

lemma capacity_sum_bound: "capacity_sum cs \<le> length cs * (2 ^ 64 - 1)"
proof (induction cs)
  case (Cons c cs)
  have "unat (co_capacity (fst c)) < 2 ^ 64" using unat_less_2p[of "co_capacity (fst c)"] by simp
  with Cons show ?case by simp
qed simp

lemma capacity_sum_fits_u128: "length cs < usize_limit \<Longrightarrow> capacity_sum cs < 2 ^ 128"
proof -
  assume "length cs < usize_limit"
  then have "length cs \<le> 2 ^ 64 - 1" by (simp add: usize_limit_def)
  then have "length cs * (2 ^ 64 - 1) \<le> (2 ^ 64 - 1) * (2 ^ 64 - 1)" by (rule mult_le_mono1)
  with capacity_sum_bound[of cs] show ?thesis by simp
qed

lemma unat_u128_of_u64 [simp]: "unat (ucast (c :: u64) :: u128) = unat c"
proof -
  have "unat c < 2 ^ 128" using unat_less_2p[of c] by simp
  then show ?thesis by (simp add: unsigned_ucast_eq take_bit_nat_eq_self)
qed

definition clamp_u128 :: "nat \<Rightarrow> u128" where
  "clamp_u128 n = of_nat (min n (2 ^ 128 - 1))"

lemma unat_clamp_u128: "unat (clamp_u128 n) = min n (2 ^ 128 - 1)"
  unfolding clamp_u128_def by (rule unat_of_nat_small) simp

lemma clamp_u128_unat: "clamp_u128 (unat r) = r"
  using unat_less_2p[of r] by (simp add: word_unat_eq_iff unat_clamp_u128)

lemma clamp_u128_add:
  "clamp_u128 (unat (saturating_add (r :: u128) (ucast (c :: u64))) + n) = clamp_u128 (unat r + unat c + n)"
  by (simp add: word_unat_eq_iff unat_clamp_u128 unat_saturating_add)

lemma account_loop_eq:
  assumes V: "serves_cells V SrcOutput cs"
  shows "account_loop V script args d r i =
     (if list_all (account_kept script args d) (drop i cs)
      then Ok (clamp_u128 (unat r + capacity_sum (own_cells script (drop i cs))))
      else Err SessionCannotAdminister)"
proof (induction "length cs - i" arbitrary: i r)
  case 0
  then have "load_cell_lock V i SrcOutput = Inl SysIndexOutOfBound"
    using serves_cellsD(2)[OF V] by (simp add: item_at_def)
  with 0 show ?case by (simp add: account_loop.simps[of V script args d r i] clamp_u128_unat)
next
  case (Suc n)
  then have i: "i < length cs" by simp
  let ?c = "cs ! i"
  have bound: "i + 1 < usize_limit" using i serves_cellsD(1)[OF V] by simp
  have look: "load_cell_lock V i SrcOutput = Inr (co_lock (fst ?c))"
      "load_cell_data V i SrcOutput = Inr (snd ?c)"
      "load_cell_capacity V i SrcOutput = Inr (co_capacity (fst ?c))"
    using serves_cellsD(2,4,5)[OF V] i by (simp_all add: item_at_def)
  have dr: "drop i cs = ?c # drop (i + 1) cs" using i by (simp add: Cons_nth_drop_Suc)
  have IH: "account_loop V script args d r' (i + 1) =
     (if list_all (account_kept script args d) (drop (i + 1) cs)
      then Ok (clamp_u128 (unat r' + capacity_sum (own_cells script (drop (i + 1) cs))))
      else Err SessionCannotAdminister)" for r'
    using Suc.hyps(1)[of "i + 1" r'] Suc.hyps(2) by simp
  show ?case
    using look bound IH unfolding dr
    by (simp add: account_loop.simps[of V script args d r i] account_kept_def clamp_u128_add add.assoc)
qed

lemma input_capacity_loop_eq:
  assumes V: "serves_cells V SrcGroupInput cs"
  shows "input_capacity_loop V r i = Ok (clamp_u128 (unat r + capacity_sum (drop i cs)))"
proof (induction "length cs - i" arbitrary: i r)
  case 0
  then have "load_cell_capacity V i SrcGroupInput = Inl SysIndexOutOfBound"
    using serves_cellsD(4)[OF V] by (simp add: item_at_def)
  with 0 show ?case by (simp add: input_capacity_loop.simps[of V r i] clamp_u128_unat)
next
  case (Suc n)
  then have i: "i < length cs" by simp
  have "load_cell_capacity V i SrcGroupInput = Inr (co_capacity (fst (cs ! i)))" "i + 1 < usize_limit"
    using serves_cellsD(1,4)[OF V] i by (simp_all add: item_at_def)
  moreover have "drop i cs = cs ! i # drop (i + 1) cs" using i by (simp add: Cons_nth_drop_Suc)
  moreover have "input_capacity_loop V r' (i + 1) = Ok (clamp_u128 (unat r' + capacity_sum (drop (i + 1) cs)))" for r'
    using Suc.hyps(1)[of "i + 1" r'] Suc.hyps(2) by simp
  ultimately show ?case
    by (simp add: input_capacity_loop.simps[of V r i] clamp_u128_add add.assoc)
qed

lemma own_cells_length: "length (own_cells script cs) \<le> length cs"
  by (simp add: own_cells_def)

lemma check_spend_cap_eq:
  assumes G: "serves_cells V SrcGroupInput gs" and n: "n < 2 ^ 128"
  shows "check_spend_cap V cap (clamp_u128 n) =
     (if cap = SPEND_CAP_UNLIMITED \<or> capacity_sum gs \<le> unat cap + n then Ok () else Err SpendCapExceeded)"
proof -
  have g: "capacity_sum gs < 2 ^ 128"
    using serves_cellsD(1)[OF G] by (rule capacity_sum_fits_u128)
  then have "unat (clamp_u128 (capacity_sum gs)) = capacity_sum gs" "unat (clamp_u128 n) = n"
    using n by (simp_all add: unat_clamp_u128)
  then have "saturating_sub (clamp_u128 (capacity_sum gs)) (clamp_u128 n) > cap \<longleftrightarrow> \<not> capacity_sum gs \<le> unat cap + n"
    by (simp add: word_less_nat_alt unat_saturating_sub) linarith
  then show ?thesis
    by (simp add: check_spend_cap_def input_capacity_loop_eq[OF G])
qed

end
