(* ===== verification/Lock_Spec.thy ===== *)
theory Lock_Spec
  imports Lock_Facts
begin

text \<open>
  What the session lock promises, stated over the transaction it guards instead of over syscalls:
  the view of a transaction, the two ways to unlock, and the conditions of a session.  The
  refinement lemma says that the code accepts exactly the transactions this specification accepts.
\<close>

section \<open>The view of the transaction\<close>

record lock_view =
  lv_script :: script
  lv_script_hash :: bytes
  lv_witness :: "sys_error + witness_args"
  lv_tx :: transaction
  lv_group :: "cell list"
  lv_outputs :: "cell list"
  lv_headers :: "u64 list"

text \<open>
  The documented behaviour of the syscalls on such a transaction.  A script only runs when its
  group is not empty; the witness may be absent or malformed.
\<close>

definition lock_runs_on :: "vm \<Rightarrow> lock_view \<Rightarrow> bool" where
  "lock_runs_on V v \<longleftrightarrow>
     lv_group v \<noteq> [] \<and> length (lv_script_hash v) = 32 \<and>
     (\<forall>i. is_ok (load_input_since V i SrcGroupInput) \<longleftrightarrow> i < length (lv_group v)) \<and>
     load_script V = Inr (lv_script v) \<and> load_script_hash V = Inr (lv_script_hash v) \<and>
     load_witness_args V 0 SrcGroupInput = lv_witness v \<and> load_transaction V = Inr (lv_tx v) \<and>
     serves_cells V SrcGroupInput (lv_group v) \<and> serves_cells V SrcOutput (lv_outputs v) \<and>
     (\<forall>i. load_header_timestamp V i SrcHeaderDep = item_at (lv_headers v) i)"

definition signed_message :: "externals \<Rightarrow> lock_view \<Rightarrow> bytes" where
  "signed_message X v = blake2b_256 X (molecule_raw_tx X ((tx_raw (lv_tx v))\<lparr>rt_cell_deps := []\<rparr>))"

definition owner_of :: "lock_view \<Rightarrow> bytes" where
  "owner_of v = take 20 (s_args (lv_script v))"

text \<open>The revocation epoch of the account: the first eight bytes of its cell data.\<close>

definition account_data :: "lock_view \<Rightarrow> bytes" where
  "account_data v = snd (hd (lv_group v))"

definition epoch_of :: "bytes \<Rightarrow> u64" where
  "epoch_of d = (if 8 \<le> length d then from_le (take 8 d) else 0)"

section \<open>The specification\<close>

definition signed_by :: "externals \<Rightarrow> vm \<Rightarrow> bytes \<Rightarrow> bytes \<Rightarrow> bytes \<Rightarrow> bool" where
  "signed_by X V pkh msg sg \<longleftrightarrow>
     length sg = LOCK_SIGNATURE_LEN \<and> ckb_auth_accepts X V AUTH_ID_CKB_SECP256K1 sg msg pkh"

definition owner_unlocks :: "externals \<Rightarrow> vm \<Rightarrow> lock_view \<Rightarrow> bytes \<Rightarrow> bool" where
  "owner_unlocks X V v rest \<longleftrightarrow> (\<exists>sg junk. rest = sg @ junk \<and> signed_by X V (owner_of v) (signed_message X v) sg)"

text \<open>
  The owner granted the parameters \<open>p\<close>: they stand in the account's args, or they are carried in
  the witness with the owner's signature over this account, its current epoch and the parameters.
\<close>

definition granted :: "externals \<Rightarrow> vm \<Rightarrow> lock_view \<Rightarrow> bytes \<Rightarrow> session_params \<Rightarrow> bytes \<Rightarrow> bool" where
  "granted X V v rest p region \<longleftrightarrow>
     length (s_args (lv_script v)) = ARGS_LEN \<and> p = params_of (drop 20 (s_args (lv_script v))) \<and> region = rest \<or>
     length (s_args (lv_script v)) = OWNER_ONLY_ARGS_LEN \<and>
     (\<exists>pb oa. rest = pb @ oa @ region \<and> length pb = SESSION_PARAMS_LEN \<and> p = params_of pb \<and>
        signed_by X V (owner_of v)
          (blake2b_256 X (session_auth_preimage (lv_script_hash v) (epoch_of (account_data v)) pb)) oa)"

definition co_signed :: "externals \<Rightarrow> vm \<Rightarrow> lock_view \<Rightarrow> session_params \<Rightarrow> bytes \<Rightarrow> bytes \<Rightarrow> bool" where
  "co_signed X V v p region proofs \<longleftrightarrow>
     (\<exists>ss gs. region = ss @ gs @ proofs \<and>
        signed_by X V (session_pubkey_hash p) (signed_message X v) ss \<and>
        (if guardian_pubkey_hash p = replicate 20 0 then gs = []
         else signed_by X V (guardian_pubkey_hash p) (signed_message X v) gs))"

definition unexpired :: "lock_view \<Rightarrow> session_params \<Rightarrow> bool" where
  "unexpired v p \<longleftrightarrow> expires_at p = NO_EXPIRY \<or>
     (\<exists>t ts. lv_headers v = t # ts \<and> unat t div 1000 < unat (expires_at p))"

definition foreign_cells :: "script \<Rightarrow> cell list \<Rightarrow> cell list" where
  "foreign_cells script cs = filter (\<lambda>c. \<not> same_code (co_lock (fst c)) script) cs"

definition in_scope :: "externals \<Rightarrow> lock_view \<Rightarrow> session_params \<Rightarrow> bytes \<Rightarrow> bool" where
  "in_scope X v p proofs \<longleftrightarrow> policies_root p = WILDCARD_ROOT \<or>
     (\<exists>fs junk. proofs = concat (map encode_frame fs) @ junk \<and>
        list_all2 (frame_admits X (policies_root p)) fs (foreign_cells (lv_script v) (lv_outputs v)))"

definition account_intact :: "lock_view \<Rightarrow> bool" where
  "account_intact v \<longleftrightarrow>
     list_all (account_kept (lv_script v) (s_args (lv_script v)) (account_data v)) (lv_outputs v)"

definition within_cap :: "lock_view \<Rightarrow> session_params \<Rightarrow> bool" where
  "within_cap v p \<longleftrightarrow> spend_cap p = SPEND_CAP_UNLIMITED \<or>
     capacity_sum (lv_group v) \<le> unat (spend_cap p) + capacity_sum (own_cells (lv_script v) (lv_outputs v))"

definition session_unlocks :: "externals \<Rightarrow> vm \<Rightarrow> lock_view \<Rightarrow> bytes \<Rightarrow> bool" where
  "session_unlocks X V v rest \<longleftrightarrow>
     (\<exists>p region proofs.
        granted X V v rest p region \<and> session_pubkey_hash p \<noteq> replicate 20 0 \<and>
        co_signed X V v p region proofs \<and> unexpired v p \<and> in_scope X v p proofs \<and>
        account_intact v \<and> within_cap v p)"

definition lock_accepts :: "externals \<Rightarrow> vm \<Rightarrow> lock_view \<Rightarrow> bool" where
  "lock_accepts X V v \<longleftrightarrow>
     length (lv_group v) = 1 \<and>
     length (s_args (lv_script v)) \<in> {ARGS_LEN, OWNER_ONLY_ARGS_LEN} \<and>
     (\<exists>wa mode rest. lv_witness v = Inr wa \<and> wa_lock wa = Some (mode # rest) \<and>
        (mode = MODE_OWNER \<and> owner_unlocks X V v rest \<or> mode = MODE_SESSION \<and> session_unlocks X V v rest))"

section \<open>The code implements it\<close>

lemma split_prefix: "n \<le> length xs \<longleftrightarrow> (\<exists>a b. xs = a @ b \<and> length a = n)"
  by (metis append_take_drop_id length_append length_take le_add1 min.absorb2)

lemma lock_runs_onD:
  assumes "lock_runs_on V v"
  shows "lv_group v \<noteq> []" "length (lv_script_hash v) = 32"
    "is_ok (load_input_since V i SrcGroupInput) \<longleftrightarrow> i < length (lv_group v)"
    "load_script V = Inr (lv_script v)" "load_script_hash V = Inr (lv_script_hash v)"
    "load_witness_args V 0 SrcGroupInput = lv_witness v" "load_transaction V = Inr (lv_tx v)"
    "serves_cells V SrcGroupInput (lv_group v)" "serves_cells V SrcOutput (lv_outputs v)"
    "load_header_timestamp V i SrcHeaderDep = item_at (lv_headers v) i"
  using assms by (auto simp: lock_runs_on_def)

lemma load_account_data:
  "lock_runs_on V v \<Longrightarrow> load_cell_data V 0 SrcGroupInput = Inr (account_data v)"
  using serves_cellsD(5)[OF lock_runs_onD(8), of V v 0] lock_runs_onD(1)[of V v]
  by (simp add: item_at_def account_data_def hd_conv_nth)

lemma current_revocation_epoch_eq:
  "lock_runs_on V v \<Longrightarrow> current_revocation_epoch V = Ok (epoch_of (account_data v))"
  by (simp add: current_revocation_epoch_def load_account_data epoch_of_def REVOCATION_EPOCH_LEN_def)

lemma tx_message_eq: "lock_runs_on V v \<Longrightarrow> tx_message X V = Ok (signed_message X v)"
  by (simp add: tx_message_def lock_runs_onD(7) signed_message_def)

lemma verify_owner_iff:
  assumes X: "hex_is_text X" and len: "20 \<le> length (s_args (lv_script v))"
  shows "verify_owner X V (s_args (lv_script v)) rest (signed_message X v) = Ok () \<longleftrightarrow> owner_unlocks X V v rest"
proof (cases "LOCK_SIGNATURE_LEN \<le> length rest")
  case True
  then obtain sg junk where r: "rest = sg @ junk" "length sg = LOCK_SIGNATURE_LEN"
    unfolding split_prefix by blast
  then show ?thesis
    using len by (auto simp: verify_owner_def owner_unlocks_def signed_by_def owner_of_def verify_signature_eq[OF X])
next
  case False
  then show ?thesis by (auto simp: verify_owner_def owner_unlocks_def signed_by_def)
qed

lemma resolve_session_iff:
  assumes X: "hex_is_text X" and V: "lock_runs_on V v"
  shows "resolve_session X V (lv_script_hash v) (s_args (lv_script v)) rest = Ok (p, region) \<longleftrightarrow>
         granted X V v rest p region"
proof -
  let ?args = "s_args (lv_script v)"
  consider (reg) "length ?args = ARGS_LEN" | (car) "length ?args = OWNER_ONLY_ARGS_LEN"
    | (other) "length ?args \<noteq> ARGS_LEN" "length ?args \<noteq> OWNER_ONLY_ARGS_LEN" by blast
  then show ?thesis
  proof cases
    case reg
    then have "resolve_session X V (lv_script_hash v) ?args rest = Ok (params_of (drop 20 ?args), rest)"
      using parse_session_params_eq[of "drop 20 ?args"] by (simp add: resolve_session_def lock_lens)
    moreover have "ARGS_LEN \<noteq> OWNER_ONLY_ARGS_LEN" by (simp add: lock_lens)
    ultimately show ?thesis using reg by (auto simp: granted_def)
  next
    case car
    have ne: "OWNER_ONLY_ARGS_LEN \<noteq> ARGS_LEN" by (simp add: lock_lens)
    show ?thesis
    proof (cases "SESSION_PARAMS_LEN + LOCK_SIGNATURE_LEN \<le> length rest")
      case False
      then show ?thesis using car ne by (auto simp: resolve_session_def granted_def signed_by_def)
    next
      case True
      then obtain ab r where "rest = ab @ r" "length ab = SESSION_PARAMS_LEN + LOCK_SIGNATURE_LEN"
        unfolding split_prefix by blast
      moreover from this obtain pb oa where "ab = pb @ oa" "length pb = SESSION_PARAMS_LEN"
        using split_prefix[of SESSION_PARAMS_LEN ab] by auto
      ultimately have r: "rest = pb @ oa @ r" "length pb = SESSION_PARAMS_LEN" "length oa = LOCK_SIGNATURE_LEN"
        by auto
      let ?m = "blake2b_256 X (session_auth_preimage (lv_script_hash v) (epoch_of (account_data v)) pb)"
      have "take 20 ?args = ?args" using car by (simp add: lock_lens)
      then have "resolve_session X V (lv_script_hash v) ?args rest =
          (if signed_by X V (owner_of v) ?m oa then Ok (params_of pb, r) else Err AuthError)"
        using car ne r
        by (simp add: resolve_session_def current_revocation_epoch_eq[OF V] signed_by_def owner_of_def
            session_auth_message_eq lock_runs_onD(2)[OF V] verify_signature_eq[OF X] parse_session_params_eq
            OWNER_ONLY_ARGS_LEN_def)
      moreover have "pb @ oa @ r = pb' @ oa' @ region \<longleftrightarrow> pb' = pb \<and> oa' = oa \<and> region = r"
        if "length pb' = SESSION_PARAMS_LEN" "length oa' = LOCK_SIGNATURE_LEN" for pb' oa' 
        using that r by auto
      ultimately show ?thesis
        using car ne r unfolding granted_def signed_by_def by (auto; metis)
    qed
  next
    case other
    then show ?thesis by (auto simp: resolve_session_def granted_def)
  qed
qed

lemma check_session_signatures_iff:
  assumes X: "hex_is_text X"
  shows "check_session_signatures X V p region (signed_message X v) = Ok proofs \<longleftrightarrow>
         co_signed X V v p region proofs"
proof (cases "LOCK_SIGNATURE_LEN \<le> length region")
  case False
  then show ?thesis by (auto simp: check_session_signatures_def co_signed_def signed_by_def)
next
  case True
  then obtain ss r where r: "region = ss @ r" "length ss = LOCK_SIGNATURE_LEN"
    unfolding split_prefix by blast
  show ?thesis
  proof (cases "guardian_pubkey_hash p = replicate 20 0")
    case True
    with r show ?thesis
      by (auto simp: check_session_signatures_def co_signed_def signed_by_def Let_def verify_signature_eq[OF X])
  next
    case False
    show ?thesis
    proof (cases "LOCK_SIGNATURE_LEN \<le> length r")
      case True
      then obtain gs q where "r = gs @ q" "length gs = LOCK_SIGNATURE_LEN"
        unfolding split_prefix by blast
      with r False show ?thesis
        by (auto simp: check_session_signatures_def co_signed_def signed_by_def Let_def verify_signature_eq[OF X])
    next
      case short: False
      with r False show ?thesis
        by (auto simp: check_session_signatures_def co_signed_def signed_by_def Let_def verify_signature_eq[OF X])
    qed
  qed
qed

lemma check_expiry_iff:
  assumes V: "lock_runs_on V v"
  shows "check_expiry V p = Ok () \<longleftrightarrow> unexpired v p"
proof (cases "lv_headers v")
  case Nil
  then show ?thesis
    by (simp add: check_expiry_def unexpired_def current_timestamp_ms_def lock_runs_onD(10)[OF V] item_at_def)
next
  case (Cons t ts)
  then show ?thesis
    by (auto simp: check_expiry_def unexpired_def current_timestamp_ms_def lock_runs_onD(10)[OF V] item_at_def
        word_le_nat_alt unat_div)
qed

lemma enforce_account_outputs_eq:
  assumes V: "lock_runs_on V v"
  shows "enforce_account_outputs V (lv_script v) (s_args (lv_script v)) =
     (if account_intact v then Ok (clamp_u128 (capacity_sum (own_cells (lv_script v) (lv_outputs v))))
      else Err SessionCannotAdminister)"
  by (simp add: enforce_account_outputs_def load_account_data[OF V] account_loop_eq[OF lock_runs_onD(9)[OF V]]
      account_intact_def)

lemma own_capacity_fits:
  assumes V: "lock_runs_on V v"
  shows "capacity_sum (own_cells (lv_script v) (lv_outputs v)) < 2 ^ 128"
  using own_cells_length[of "lv_script v" "lv_outputs v"] serves_cellsD(1)[OF lock_runs_onD(9)[OF V]]
  by (intro capacity_sum_fits_u128) linarith

lemma check_spend_cap_iff:
  assumes V: "lock_runs_on V v"
  shows "check_spend_cap V (spend_cap p) (clamp_u128 (capacity_sum (own_cells (lv_script v) (lv_outputs v)))) = Ok ()
         \<longleftrightarrow> within_cap v p"
  by (simp add: check_spend_cap_eq[OF lock_runs_onD(8)[OF V] own_capacity_fits[OF V]] within_cap_def)

lemma check_policies_iff:
  assumes V: "lock_runs_on V v"
  shows "(if policies_root p \<noteq> WILDCARD_ROOT
          then check_output_policies X V (lv_script v) (policies_root p) proofs else Ok ()) = Ok ()
         \<longleftrightarrow> in_scope X v p proofs"
  using policy_loop_iff[OF lock_runs_onD(9)[OF V], of 0 proofs X "lv_script v" "policies_root p" 0]
  by (simp add: check_output_policies_def in_scope_def foreign_cells_def)

lemma verify_session_iff:
  assumes X: "hex_is_text X" and V: "lock_runs_on V v"
  shows "verify_session X V (lv_script v) (lv_script_hash v) (s_args (lv_script v)) rest (signed_message X v) = Ok ()
         \<longleftrightarrow> session_unlocks X V v rest"
proof
  assume "verify_session X V (lv_script v) (lv_script_hash v) (s_args (lv_script v)) rest (signed_message X v) = Ok ()"
  then obtain p region proofs ret where
      "resolve_session X V (lv_script_hash v) (s_args (lv_script v)) rest = Ok (p, region)"
      "session_pubkey_hash p \<noteq> replicate 20 0"
      "check_session_signatures X V p region (signed_message X v) = Ok proofs"
      "check_expiry V p = Ok ()"
      "(if policies_root p \<noteq> WILDCARD_ROOT
        then check_output_policies X V (lv_script v) (policies_root p) proofs else Ok ()) = Ok ()"
      "enforce_account_outputs V (lv_script v) (s_args (lv_script v)) = Ok ret"
      "check_spend_cap V (spend_cap p) ret = Ok ()"
    by (auto simp: verify_session_def result_simps split: if_split_asm)
  then show "session_unlocks X V v rest"
    unfolding resolve_session_iff[OF X V] check_session_signatures_iff[OF X] check_expiry_iff[OF V]
      check_policies_iff[OF V] enforce_account_outputs_eq[OF V]
    using check_spend_cap_iff[OF V, of p] by (auto simp: session_unlocks_def split: if_split_asm)
next
  assume "session_unlocks X V v rest"
  then obtain p region proofs where s:
      "granted X V v rest p region" "session_pubkey_hash p \<noteq> replicate 20 0" 
      "co_signed X V v p region proofs" "unexpired v p" "in_scope X v p proofs"
      "account_intact v" "within_cap v p"
    unfolding session_unlocks_def by blast
  then show "verify_session X V (lv_script v) (lv_script_hash v) (s_args (lv_script v)) rest (signed_message X v) = Ok ()"
    using resolve_session_iff[OF X V, of rest p region] check_session_signatures_iff[OF X, of V p region v proofs]
      check_expiry_iff[OF V, of p] check_policies_iff[OF V, of p X proofs] check_spend_cap_iff[OF V, of p]
    by (simp add: verify_session_def enforce_account_outputs_eq[OF V])
qed

theorem auth_refines:
  assumes X: "hex_is_text X" and V: "lock_runs_on V v"
  shows "auth X V = Ok () \<longleftrightarrow> lock_accepts X V v"
proof (cases "length (lv_group v) = 1 \<and> length (s_args (lv_script v)) \<in> {ARGS_LEN, OWNER_ONLY_ARGS_LEN}")
  case False
  have "1 < length (lv_group v) \<longleftrightarrow> length (lv_group v) \<noteq> 1"
    using lock_runs_onD(1)[OF V] by (cases "lv_group v") auto
  with False have "auth X V \<noteq> Ok ()"
    by (auto simp: auth_def lock_runs_onD(3,4)[OF V] Let_def)
  with False show ?thesis by (auto simp: lock_accepts_def)
next
  case True
  then have "20 \<le> length (s_args (lv_script v))" by (auto simp: lock_lens)
  note own = verify_owner_iff[OF X this] and ses = verify_session_iff[OF X V]
  have modes: "MODE_SESSION \<noteq> MODE_OWNER" by (simp add: MODE_OWNER_def MODE_SESSION_def)
  have run: "auth X V = andThen (lock_sys (lv_witness v)) (\<lambda>wa.
      andThen (ok_or (wa_lock wa) EmptyWitnessError) (\<lambda>lb.
      if lb = [] then Err EmptyWitnessError
      else andThen (index_at lb 0) (\<lambda>mode. andThen (slice lb 1 (length lb)) (\<lambda>rest.
        if mode = MODE_OWNER then verify_owner X V (s_args (lv_script v)) rest (signed_message X v)
        else if mode = MODE_SESSION then
          verify_session X V (lv_script v) (lv_script_hash v) (s_args (lv_script v)) rest (signed_message X v)
        else Err InvalidMode))))"
    using True by (auto simp: auth_def lock_runs_onD(3,4,5,6)[OF V] tx_message_eq[OF V] Let_def cong: if_cong)
  show ?thesis
  proof (cases "lv_witness v")
    case (Inl e)
    then show ?thesis by (simp add: run lock_accepts_def)
  next
    case (Inr wa)
    consider "wa_lock wa = None" | "wa_lock wa = Some []" | mode rest where "wa_lock wa = Some (mode # rest)"
      by (metis list.exhaust option.exhaust)
    then show ?thesis
      using True Inr modes by cases (auto simp: run lock_accepts_def own ses)
  qed
qed

end
