(* ===== verification/Samples.thy ===== *)
theory Samples
  imports Lock_Spec
begin

text \<open>
  Concrete instances of the parameters, for the theorems that apply a property at an input: crate
  functions with the documented shape, a virtual machine that serves a given transaction, and a
  ckb-auth binary for a toy signature scheme in which the signature of a message under a key hash
  is the key hash followed by the message.
\<close>

section \<open>Crates\<close>

definition sample_hash :: "bytes \<Rightarrow> bytes" where
  "sample_hash b = take 32 (b @ replicate 32 0)"

definition hex_digit :: "nat \<Rightarrow> char" where
  "hex_digit n = ''0123456789abcdef'' ! n"

definition sample_hex :: "bytes \<Rightarrow> string" where
  "sample_hex b = concat (map (\<lambda>x. [hex_digit (unat x div 16), hex_digit (unat x mod 16)]) b)"

definition flat_script :: "script \<Rightarrow> bytes" where
  "flat_script s = s_code_hash s @ s_hash_type s # s_args s"

definition sample_externals :: externals where
  "sample_externals =
     \<lparr>blake2b_256 = sample_hash, hex_encode = sample_hex,
      calc_script_hash = (\<lambda>s. sample_hash (flat_script s)),
      calc_tx_hash = (\<lambda>r. sample_hash (concat (rt_outputs_data r))),
      molecule_raw_tx = (\<lambda>r. concat (rt_outputs_data r)),
      molecule_transaction = (\<lambda>t. concat (rt_outputs_data (tx_raw t)) @ concat (tx_witnesses t)),
      molecule_witness_args = (\<lambda>w. case wa_lock w of None \<Rightarrow> [] | Some l \<Rightarrow> l),
      auth_code_hash = replicate 32 7\<rparr>"

lemma length_sample_hash [simp]: "length (sample_hash b) = 32"
  by (simp add: sample_hash_def)

lemma sample_externals_simps [simp]:
  "blake2b_256 sample_externals = sample_hash"
  "hex_encode sample_externals = sample_hex"
  "calc_script_hash sample_externals = (\<lambda>s. sample_hash (flat_script s))"
  "molecule_raw_tx sample_externals = (\<lambda>r. concat (rt_outputs_data r))"
  "molecule_witness_args sample_externals = (\<lambda>w. case wa_lock w of None \<Rightarrow> [] | Some l \<Rightarrow> l)"
  "auth_code_hash sample_externals = replicate 32 7"
  by (simp_all add: sample_externals_def)

lemma sample_digests_32: "digests_32 sample_externals"
  by (simp add: digests_32_def)

lemma hex_digit_not_nul: "n < 16 \<Longrightarrow> hex_digit n \<noteq> CHR 0x00"
proof -
  assume "n < 16"
  then have "n \<in> {0, 1, 2, 3, 4, 5, 6, 7, 8, 9, 10, 11, 12, 13, 14, 15}"
    by (simp only: insert_iff empty_iff) presburger
  then show ?thesis by (auto simp: hex_digit_def)
qed

lemma sample_hex_is_text: "hex_is_text sample_externals"
proof -
  have "unat (x :: byte) div 16 < 16" for x using unat_byte_less[of x] by linarith
  then show ?thesis
    by (auto simp: hex_is_text_def sample_hex_def) (metis hex_digit_not_nul mod_less_divisor zero_less_numeral)+
qed

lemma length_sample_hex: "length (sample_hex b) = 2 * length b"
  by (induction b) (simp_all add: sample_hex_def)

section \<open>The virtual machine\<close>

definition sample_sign :: "bytes \<Rightarrow> bytes \<Rightarrow> bytes" where
  "sample_sign pkh msg = take 65 (pkh @ msg @ replicate 65 0)"

definition sample_spawn :: "bytes \<Rightarrow> script_hash_type \<Rightarrow> string list \<Rightarrow> sys_error + u64" where
  "sample_spawn code ht xs =
     (case xs of
        [alg, sg, msg, pkh] \<Rightarrow> Inr (if sg = take 130 (pkh @ msg @ replicate 130 CHR ''0'') then 0 else 1)
      | _ \<Rightarrow> Inl SysOther)"

definition vm_of :: "lock_view \<Rightarrow> vm" where
  "vm_of v =
     \<lparr>load_input_since = (\<lambda>i src. if src = SrcGroupInput then item_at (map (\<lambda>_. 0) (lv_group v)) i else Inl SysIndexOutOfBound),
      load_script = Inr (lv_script v), load_script_hash = Inr (lv_script_hash v),
      load_witness_args = (\<lambda>i src. lv_witness v), load_transaction = Inr (lv_tx v),
      load_cell_data = (\<lambda>i src. item_at (map snd (if src = SrcOutput then lv_outputs v else lv_group v)) i),
      load_cell_lock = (\<lambda>i src. item_at (map (\<lambda>c. co_lock (fst c)) (if src = SrcOutput then lv_outputs v else lv_group v)) i),
      load_cell_type = (\<lambda>i src. item_at (map (\<lambda>c. co_type (fst c)) (if src = SrcOutput then lv_outputs v else lv_group v)) i),
      load_cell_type_hash = (\<lambda>i src. Inl SysIndexOutOfBound),
      load_cell_capacity = (\<lambda>i src. item_at (map (\<lambda>c. co_capacity (fst c)) (if src = SrcOutput then lv_outputs v else lv_group v)) i),
      load_header_timestamp = (\<lambda>i src. if src = SrcHeaderDep then item_at (lv_headers v) i else Inl SysIndexOutOfBound),
      spawn_cell = sample_spawn, wait_exit = (\<lambda>pid. Inr (if pid = 0 then 0 else 1))\<rparr>"

lemma lock_runs_on_vm_of:
  assumes "lv_group v \<noteq> []" "length (lv_script_hash v) = 32"
    "length (lv_group v) < usize_limit" "length (lv_outputs v) < usize_limit"
  shows "lock_runs_on (vm_of v) v"
  using assms by (auto simp: lock_runs_on_def vm_of_def serves_cells_def item_at_def)

lemma sample_hex_append: "sample_hex (a @ b) = sample_hex a @ sample_hex b"
  by (simp add: sample_hex_def)

lemma sample_hex_zeros: "sample_hex (replicate n 0) = replicate (2 * n) CHR ''0''"
  by (induction n) (simp_all add: sample_hex_def hex_digit_def)

lemma sample_hex_take: "sample_hex (take n b) = take (2 * n) (sample_hex b)"
proof (induction n arbitrary: b)
  case (Suc n)
  then show ?case by (cases b) (simp_all add: sample_hex_def)
qed (simp add: sample_hex_def)

text \<open>The toy signer is accepted by the toy verifier, on every machine of this section.\<close>

lemma sample_signature_accepted:
  "signed_by sample_externals (vm_of v) pkh msg (sample_sign pkh msg)"
proof -
  have "sample_hex (sample_sign pkh msg) =
      take 130 (sample_hex pkh @ sample_hex msg @ replicate 130 CHR ''0'')"
    by (simp add: sample_sign_def sample_hex_take sample_hex_append sample_hex_zeros length_sample_hex
        diff_mult_distrib2)
  then show ?thesis
    by (simp add: signed_by_def ckb_auth_accepts_def vm_of_def sample_spawn_def sample_sign_def LOCK_SIGNATURE_LEN_def)
qed

section \<open>A registered account and a spend of it\<close>

definition sample_params :: bytes where
  "sample_params = replicate 20 2 @ u64_le 5000 @ WILDCARD_ROOT @ u128_le 30 @ replicate 20 0"

definition sample_script :: script where
  "sample_script = \<lparr>s_code_hash = replicate 32 9, s_hash_type = 1, s_args = replicate 20 1 @ sample_params\<rparr>"

definition other_script :: script where
  "other_script = \<lparr>s_code_hash = replicate 32 8, s_hash_type = 1, s_args = []\<rparr>"

text \<open>The session pays 20 of the account's 100 shannons to another lock and returns 80.\<close>

definition sample_outputs :: "cell list" where
  "sample_outputs =
     [(\<lparr>co_capacity = 20, co_lock = other_script, co_type = None\<rparr>, []),
      (\<lparr>co_capacity = 80, co_lock = sample_script, co_type = None\<rparr>, u64_le 3)]"

definition sample_tx :: transaction where
  "sample_tx =
     \<lparr>tx_raw = \<lparr>rt_version = 0, rt_cell_deps = [], rt_header_deps = [], rt_inputs = [],
                rt_outputs = map fst sample_outputs, rt_outputs_data = map snd sample_outputs\<rparr>,
      tx_witnesses = []\<rparr>"

definition view_with :: "script \<Rightarrow> byte \<Rightarrow> bytes \<Rightarrow> lock_view" where
  "view_with sc mode rest =
     \<lparr>lv_script = sc, lv_script_hash = sample_hash (flat_script sc),
      lv_witness = Inr \<lparr>wa_lock = Some (mode # rest), wa_input_type = None, wa_output_type = None\<rparr>,
      lv_tx = sample_tx, lv_group = [(\<lparr>co_capacity = 100, co_lock = sc, co_type = None\<rparr>, u64_le 3)],
      lv_outputs = map (\<lambda>(o', d). (if same_code (co_lock o') sample_script then o'\<lparr>co_lock := sc\<rparr> else o', d)) sample_outputs,
      lv_headers = [1000000]\<rparr>"

definition sample_message :: bytes where
  "sample_message = sample_hash (u64_le 3)"

definition registered_view :: lock_view where
  "registered_view = view_with sample_script MODE_SESSION (sample_sign (replicate 20 2) sample_message)"

definition owner_view :: lock_view where
  "owner_view = view_with sample_script MODE_OWNER (sample_sign (replicate 20 1) sample_message)"

text \<open>The same account without parameters in its args, and a session carried in the witness.\<close>

definition bare_script :: script where
  "bare_script = sample_script\<lparr>s_args := replicate 20 1\<rparr>"

definition carried_view :: lock_view where
  "carried_view = view_with bare_script MODE_SESSION
     (sample_params @
      sample_sign (replicate 20 1)
        (sample_hash (session_auth_preimage (sample_hash (flat_script bare_script)) 3 sample_params)) @
      sample_sign (replicate 20 2) sample_message)"

lemma view_with_simps [simp]:
  "lv_script (view_with sc m r) = sc"
  "lv_script_hash (view_with sc m r) = sample_hash (flat_script sc)"
  "lv_witness (view_with sc m r) = Inr \<lparr>wa_lock = Some (m # r), wa_input_type = None, wa_output_type = None\<rparr>"
  "lv_tx (view_with sc m r) = sample_tx"
  "lv_headers (view_with sc m r) = [1000000]"
  "account_data (view_with sc m r) = u64_le 3"
  "length (lv_group (view_with sc m r)) = 1"
  by (simp_all add: view_with_def account_data_def)

lemma length_sample_sign [simp]: "length (sample_sign pkh msg) = 65"
  by (simp add: sample_sign_def)

lemma lock_runs_on_view_with: "lock_runs_on (vm_of (view_with sc m r)) (view_with sc m r)"
  by (rule lock_runs_on_vm_of) (simp_all add: view_with_def sample_outputs_def usize_limit_def)

lemma sample_signed_message: "signed_message sample_externals (view_with sc m r) = sample_message"
  by (simp add: signed_message_def sample_message_def sample_tx_def sample_outputs_def)

lemma length_sample_params [simp]: "length sample_params = 96"
  by (simp add: sample_params_def WILDCARD_ROOT_def)

lemma sample_params_of:
  "params_of sample_params =
     \<lparr>session_pubkey_hash = replicate 20 2, expires_at = 5000, policies_root = WILDCARD_ROOT,
      spend_cap = 30, guardian_pubkey_hash = replicate 20 0\<rparr>"
  by (simp add: params_of_def sample_params_def WILDCARD_ROOT_def)

lemma sample_session_unlocks:
  assumes sc: "sc \<in> {sample_script, bare_script}"
    and g: "granted sample_externals (vm_of (view_with sc m r)) (view_with sc m r) r (params_of sample_params)
       (sample_sign (replicate 20 2) sample_message)"
  shows "session_unlocks sample_externals (vm_of (view_with sc m r)) (view_with sc m r) r"
proof -
  let ?v = "view_with sc m r" and ?p = "params_of sample_params"
  have "co_signed sample_externals (vm_of ?v) ?v ?p (sample_sign (replicate 20 2) sample_message) []"
    using sample_signature_accepted[of ?v "replicate 20 2" sample_message]
    by (auto simp: co_signed_def sample_params_of sample_signed_message)
  moreover have "unexpired ?v ?p" by (simp add: unexpired_def sample_params_of)
  moreover have "in_scope sample_externals ?v ?p []" by (simp add: in_scope_def sample_params_of)
  moreover have "account_intact ?v" using sc
    by (auto simp: account_intact_def view_with_def account_data_def account_kept_def sample_outputs_def
        same_code_def sample_script_def bare_script_def other_script_def)
  moreover have "within_cap ?v ?p" using sc
    by (auto simp: within_cap_def sample_params_of view_with_def sample_outputs_def own_cells_def capacity_sum_def
        same_code_def sample_script_def bare_script_def other_script_def)
  moreover have "session_pubkey_hash ?p \<noteq> replicate 20 0" by (simp add: sample_params_of)
  ultimately show ?thesis using g unfolding session_unlocks_def by blast
qed

lemma registered_accepts: "lock_accepts sample_externals (vm_of registered_view) registered_view"
proof -
  have "granted sample_externals (vm_of registered_view) registered_view
     (sample_sign (replicate 20 2) sample_message) (params_of sample_params) (sample_sign (replicate 20 2) sample_message)"
    by (simp add: granted_def registered_view_def sample_script_def ARGS_LEN_def)
  then show ?thesis
    using sample_session_unlocks[of sample_script] unfolding registered_view_def lock_accepts_def
    by (simp add: sample_script_def lock_lens)
qed

lemma carried_accepts: "lock_accepts sample_externals (vm_of carried_view) carried_view"
proof -
  let ?m = "sample_hash (session_auth_preimage (sample_hash (flat_script bare_script)) 3 sample_params)"
  let ?r = "sample_params @ sample_sign (replicate 20 1) ?m @ sample_sign (replicate 20 2) sample_message"
  have "granted sample_externals (vm_of carried_view) carried_view ?r
     (params_of sample_params) (sample_sign (replicate 20 2) sample_message)"
    using sample_signature_accepted[of carried_view "replicate 20 1" ?m]
    unfolding granted_def carried_view_def
    by (intro disjI2 conjI exI[of _ sample_params] exI[of _ "sample_sign (replicate 20 1) ?m"])
       (auto simp: bare_script_def lock_lens owner_of_def epoch_of_def)
  then show ?thesis
    using sample_session_unlocks[of bare_script] unfolding carried_view_def lock_accepts_def
    by (simp add: bare_script_def lock_lens)
qed

lemma owner_accepts: "lock_accepts sample_externals (vm_of owner_view) owner_view"
  using sample_signature_accepted[of owner_view "replicate 20 1" sample_message]
  unfolding owner_view_def lock_accepts_def owner_unlocks_def
  by (auto simp: lock_lens owner_of_def sample_script_def sample_signed_message)

end
