(* ===== verification/Lock_Properties.thy ===== *)
theory Lock_Properties
  imports Samples
begin

text \<open>
  The properties of the session lock: the decision it makes, that it always makes one, and what an
  accepted session can and cannot do.
\<close>

section \<open>Panic freedom\<close>

lemma parse_session_params_panics: "parse_session_params b = Panicked \<Longrightarrow> length b < SESSION_PARAMS_LEN"
  by (rule ccontr) (auto simp: parse_session_params_def lock_lens)

lemma verify_signature_total: "hex_is_text X \<Longrightarrow> verify_signature X V alg sg m pkh \<noteq> Panicked"
  by (simp add: verify_signature_eq)

lemma verify_owner_total:
  "hex_is_text X \<Longrightarrow> 20 \<le> length args \<Longrightarrow> verify_owner X V args rest m \<noteq> Panicked"
  by (auto simp: verify_owner_def verify_signature_total)

lemma resolve_session_total:
  assumes X: "hex_is_text X" and V: "lock_runs_on V v"
  shows "resolve_session X V (lv_script_hash v) args rest \<noteq> Panicked"
proof -
  have "ARGS_LEN \<noteq> OWNER_ONLY_ARGS_LEN" by (simp add: lock_lens)
  moreover have "andThen (parse_session_params b) k \<noteq> Panicked"
    if "length b = SESSION_PARAMS_LEN" "\<And>p. k p \<noteq> Panicked" for b and k :: "_ \<Rightarrow> (lock_error, session_params \<times> bytes) result"
    using that parse_session_params_panics[of b] by (auto simp: andThen_fault_iff)
  ultimately show ?thesis
    using verify_signature_total[OF X]
    by (auto simp: resolve_session_def current_revocation_epoch_eq[OF V] session_auth_message_eq
        lock_runs_onD(2)[OF V] andThen_fault_iff lock_lens parse_session_params_eq)
qed

lemma check_session_signatures_total:
  "hex_is_text X \<Longrightarrow> check_session_signatures X V p region m \<noteq> Panicked"
  by (auto simp: check_session_signatures_def Let_def andThen_fault_iff verify_signature_total lock_lens result_simps)

lemma check_policy_frame_total:
  assumes "load_cell_type V i SrcOutput = Inr t"
  shows "check_policy_frame X V root region cursor i lock \<noteq> Panicked"
  using assms by (auto simp: check_policy_frame_def Let_def andThen_fault_iff split: option.splits)

lemma policy_loop_total:
  assumes V: "serves_cells V SrcOutput cs"
  shows "policy_loop X V script root region cursor i \<noteq> Panicked"
proof (induction "length cs - i" arbitrary: i cursor)
  case 0
  then have "load_cell_lock V i SrcOutput = Inl SysIndexOutOfBound"
    using serves_cellsD(2)[OF V] by (simp add: item_at_def)
  then show ?case by (simp add: policy_loop.simps[of X V script root region cursor i])
next
  case (Suc n)
  then have "i < length cs" by simp
  then have "load_cell_lock V i SrcOutput = Inr (co_lock (fst (cs ! i)))"
      "load_cell_type V i SrcOutput = Inr (co_type (fst (cs ! i)))" "i + 1 < usize_limit"
    using serves_cellsD(1,2,3)[OF V] by (simp_all add: item_at_def)
  moreover have "policy_loop X V script root region c (i + 1) \<noteq> Panicked" for c
    using Suc.hyps by simp
  ultimately show ?case
    by (auto simp: policy_loop.simps[of X V script root region cursor i] andThen_fault_iff check_policy_frame_total)
qed

lemma check_expiry_total: "lock_runs_on V v \<Longrightarrow> check_expiry V p \<noteq> Panicked"
  by (auto simp: check_expiry_def current_timestamp_ms_def lock_runs_onD(10) item_at_def)

lemma check_spend_cap_total:
  "lock_runs_on V v \<Longrightarrow>
   check_spend_cap V cap (clamp_u128 (capacity_sum (own_cells (lv_script v) (lv_outputs v)))) \<noteq> Panicked"
  by (simp add: check_spend_cap_eq[OF lock_runs_onD(8) own_capacity_fits])

lemma verify_session_total:
  assumes X: "hex_is_text X" and V: "lock_runs_on V v"
  shows "verify_session X V (lv_script v) (lv_script_hash v) (s_args (lv_script v)) rest m \<noteq> Panicked"
  unfolding verify_session_def enforce_account_outputs_eq[OF V]
  using resolve_session_total[OF X V] check_session_signatures_total[OF X] check_expiry_total[OF V]
    policy_loop_total[OF lock_runs_onD(9)[OF V]] check_spend_cap_total[OF V]
  by (auto simp: andThen_fault_iff check_output_policies_def split: prod.splits if_splits)

lemma auth_total:
  assumes X: "hex_is_text X" and V: "lock_runs_on V v" and w: "ordinary (lv_witness v)"
  shows "auth X V \<noteq> Panicked"
proof -
  have "lock_sys (lv_witness v) \<noteq> Panicked"
    using w by (auto simp: ordinary_def lock_sys_def split: sum.splits sys_error.splits)
  moreover have "20 \<le> length (s_args (lv_script v))"
    if "length (s_args (lv_script v)) = ARGS_LEN \<or> length (s_args (lv_script v)) = OWNER_ONLY_ARGS_LEN"
    using that by (auto simp: lock_lens)
  moreover have "slice b (Suc 0) (length b) \<noteq> Panicked" if "b \<noteq> []" for b :: bytes
    using that by (cases b) auto
  ultimately show ?thesis
    using verify_session_total[OF X V] verify_owner_total[OF X]
    by (auto simp: auth_def lock_runs_onD(3,4,5,6)[OF V] tx_message_eq[OF V] Let_def andThen_fault_iff)
qed

lemma lock_error_range: "IndexOutOfBound \<le> e \<and> e \<le> AuthError"
  by (cases e) (simp_all add: less_eq_lock_error_def)

lemma lock_error_code_range: "1 \<le> lock_error_code e \<and> lock_error_code e \<le> 18"
  using lock_error_range[of e] by (simp add: less_eq_lock_error_def)

text \<open>The exit code tells the error.\<close>

lemma lock_exit_identifies: "program_entry X V = Some (lock_error_code e) \<longleftrightarrow> auth X V = Err e"
  using lock_error_code_range[of e] by (auto simp: program_entry_def split: sum.splits fault.splits)

section \<open>The decision\<close>

text \<open>
  C1: the lock accepts exactly the transactions its specification accepts: a single account input,
  args of one of the two lengths, and either an owner signature or a granted session that is
  signed by the session key (and the guardian, when there is one), unexpired, within its policies,
  leaves the account's args and data alone and stays within its spend cap.
\<close>

theorem lock_decision:
  assumes "hex_is_text X" and "lock_runs_on V v"
  shows "auth X V = Ok () \<longleftrightarrow> lock_accepts X V v"
  by (rule auth_refines[OF assms])

lemma lock_decision_witness: "auth sample_externals (vm_of registered_view) = Ok ()"
  using lock_decision[OF sample_hex_is_text, of "vm_of registered_view" registered_view]
    registered_accepts lock_runs_on_view_with[of sample_script] by (simp add: registered_view_def)

text \<open>
  C15: the script always exits, with a code from 0 to 18, and 0 exactly on acceptance; it never
  panics on a transaction, whatever bytes the witness holds.
\<close>

theorem lock_exit_code:
  assumes "hex_is_text X" and "lock_runs_on V v" and "ordinary (lv_witness v)"
  shows "\<exists>code. program_entry X V = Some code \<and> 0 \<le> code \<and> code \<le> 18 \<and> (code = 0 \<longleftrightarrow> lock_accepts X V v)"
proof (cases "auth X V")
  case (Inl f)
  then obtain e where "f = Fail e" using auth_total[OF assms] by (cases f) auto
  then show ?thesis
    using Inl auth_refines[OF assms(1,2)] lock_error_code_range[of e] by (auto simp: program_entry_def)
next
  case (Inr u)
  then show ?thesis using auth_refines[OF assms(1,2)] by (auto simp: program_entry_def)
qed

lemma lock_exit_code_witness: "program_entry sample_externals (vm_of carried_view) = Some 0"
proof -
  have "ordinary (lv_witness carried_view)" by (simp add: ordinary_def carried_view_def)
  then show ?thesis
    using lock_exit_code[OF sample_hex_is_text, of "vm_of carried_view" carried_view] carried_accepts
      lock_runs_on_view_with[of bare_script] unfolding carried_view_def by auto
qed

section \<open>What a session cannot do\<close>

definition session_witness :: "lock_view \<Rightarrow> bytes \<Rightarrow> bool" where
  "session_witness v rest \<longleftrightarrow>
     (\<exists>wa. lv_witness v = Inr wa \<and> wa_lock wa = Some (MODE_SESSION # rest))"

lemma accepted_session:
  assumes "hex_is_text X" "lock_runs_on V v" "session_witness v rest" "auth X V = Ok ()"
  shows "session_unlocks X V v rest"
    and "length (lv_group v) = 1"
    and "length (s_args (lv_script v)) \<in> {ARGS_LEN, OWNER_ONLY_ARGS_LEN}"
  using auth_refines[OF assms(1,2)] assms(3,4)
  by (auto simp: lock_accepts_def session_witness_def MODE_OWNER_def MODE_SESSION_def)

lemma accepted_sessionE:
  assumes "hex_is_text X" "lock_runs_on V v" "session_witness v rest" "auth X V = Ok ()"
  obtains p region proofs where
    "granted X V v rest p region" "session_pubkey_hash p \<noteq> replicate 20 0"
    "co_signed X V v p region proofs" "unexpired v p" "in_scope X v p proofs" "account_intact v" "within_cap v p"
  using accepted_session(1)[OF assms] unfolding session_unlocks_def by blast

lemma session_witness_views [simp]:
  "session_witness (view_with sc MODE_SESSION r) r" by (simp add: session_witness_def)

lemma registered_runs:
  "lock_runs_on (vm_of registered_view) registered_view" "auth sample_externals (vm_of registered_view) = Ok ()"
  "session_witness registered_view (sample_sign (replicate 20 2) sample_message)"
  using auth_refines[OF sample_hex_is_text, of "vm_of registered_view" registered_view]
    registered_accepts lock_runs_on_view_with[of sample_script] by (simp_all add: registered_view_def)

lemma carried_runs:
  "lock_runs_on (vm_of carried_view) carried_view" "auth sample_externals (vm_of carried_view) = Ok ()"
  using auth_refines[OF sample_hex_is_text, of "vm_of carried_view" carried_view]
    carried_accepts lock_runs_on_view_with[of bare_script] by (simp_all add: carried_view_def)

lemma account_kept_by_session:
  assumes "hex_is_text X" and "lock_runs_on V v" and "session_witness v rest" and "auth X V = Ok ()"
    and "c \<in> set (lv_outputs v)" and "same_code (co_lock (fst c)) (lv_script v)"
  shows "co_lock (fst c) = lv_script v \<and> snd c = account_data v \<and> epoch_of (snd c) = epoch_of (account_data v)"
proof -
  from assms(1-4) have "account_intact v" by (rule accepted_sessionE)
  with assms(5,6) have "s_args (co_lock (fst c)) = s_args (lv_script v)" "snd c = account_data v"
    by (auto simp: account_intact_def account_kept_def list_all_iff)
  moreover from this assms(6) have "co_lock (fst c) = lv_script v"
    by (cases "co_lock (fst c)"; cases "lv_script v") (auto simp: same_code_def)
  ultimately show ?thesis by simp
qed

text \<open>
  C6: a session cannot administer the account: every output of an accepted session transaction
  that carries the lock's code keeps the account's args and data, hence its revocation epoch.
\<close>

theorem session_cannot_administer:
  assumes "hex_is_text X" and "lock_runs_on V v" and "session_witness v rest" and "auth X V = Ok ()"
    and "c \<in> set (lv_outputs v)" and "same_code (co_lock (fst c)) (lv_script v)"
  shows "co_lock (fst c) = lv_script v \<and> snd c = account_data v \<and> epoch_of (snd c) = epoch_of (account_data v)"
  by (rule account_kept_by_session[OF assms])

lemma session_cannot_administer_witness:
  "co_lock (fst (sample_outputs ! 1)) = sample_script \<and> snd (sample_outputs ! 1) = u64_le 3"
proof -
  have "sample_outputs ! 1 \<in> set (lv_outputs registered_view)"
    by (simp add: registered_view_def view_with_def sample_outputs_def)
  moreover have "same_code (co_lock (fst (sample_outputs ! 1))) (lv_script registered_view)"
    by (simp add: registered_view_def sample_outputs_def same_code_def)
  ultimately show ?thesis
    using session_cannot_administer[OF sample_hex_is_text registered_runs(1) registered_runs(3,2)]
    by (simp add: registered_view_def)
qed

lemma outflow_bounded:
  assumes "hex_is_text X" and "lock_runs_on V v" and "session_witness v rest" and "auth X V = Ok ()"
    and "length (s_args (lv_script v)) = ARGS_LEN"
    and "spend_cap (params_of (drop 20 (s_args (lv_script v)))) \<noteq> SPEND_CAP_UNLIMITED"
  shows "capacity_sum (lv_group v) \<le> unat (spend_cap (params_of (drop 20 (s_args (lv_script v)))))
           + capacity_sum (filter (\<lambda>c. co_lock (fst c) = lv_script v) (lv_outputs v))"
proof -
  obtain p region where g: "granted X V v rest p region" and i: "account_intact v" and c: "within_cap v p"
    using assms(1-4) by (rule accepted_sessionE)
  have "p = params_of (drop 20 (s_args (lv_script v)))"
    using g assms(5) by (auto simp: granted_def lock_lens)
  moreover have "own_cells (lv_script v) (lv_outputs v) = filter (\<lambda>c. co_lock (fst c) = lv_script v) (lv_outputs v)"
    unfolding own_cells_def
  proof (rule filter_cong[OF refl])
    fix c assume "c \<in> set (lv_outputs v)"
    with i have "same_code (co_lock (fst c)) (lv_script v) \<Longrightarrow> s_args (co_lock (fst c)) = s_args (lv_script v)"
      by (auto simp: account_intact_def account_kept_def list_all_iff)
    then show "same_code (co_lock (fst c)) (lv_script v) \<longleftrightarrow> co_lock (fst c) = lv_script v"
      by (cases "co_lock (fst c)"; cases "lv_script v") (auto simp: same_code_def)
  qed
  ultimately show ?thesis using c assms(6) by (simp add: within_cap_def)
qed

text \<open>
  C7: the spend cap holds as a fact of natural numbers, saturation and width notwithstanding: the
  capacity a registered session takes out of the account in one transaction is at most its cap.
\<close>

theorem session_outflow_bounded:
  assumes "hex_is_text X" and "lock_runs_on V v" and "session_witness v rest" and "auth X V = Ok ()"
    and "length (s_args (lv_script v)) = ARGS_LEN"
    and "spend_cap (params_of (drop 20 (s_args (lv_script v)))) \<noteq> SPEND_CAP_UNLIMITED"
  shows "capacity_sum (lv_group v) \<le> unat (spend_cap (params_of (drop 20 (s_args (lv_script v)))))
           + capacity_sum (filter (\<lambda>c. co_lock (fst c) = lv_script v) (lv_outputs v))"
  by (rule outflow_bounded[OF assms])

lemma sample_script_params: "drop 20 (s_args sample_script) = sample_params"
  by (simp add: sample_script_def)

lemma registered_view_simps [simp]:
  "lv_script registered_view = sample_script" "length (s_args sample_script) = ARGS_LEN"
  by (simp_all add: registered_view_def sample_script_def ARGS_LEN_def)

lemma session_outflow_bounded_witness:
  "capacity_sum (lv_group registered_view)
     \<le> 30 + capacity_sum (filter (\<lambda>c. co_lock (fst c) = sample_script) (lv_outputs registered_view))"
  using session_outflow_bounded[OF sample_hex_is_text registered_runs(1,3,2)]
  by (simp add: sample_script_params sample_params_of SPEND_CAP_UNLIMITED_def)

text \<open>
  Every output that does not carry the lock's code is admitted by its own frame of the proof
  region, in output order: a type-script or lock-script policy whose Merkle path ends in the
  session's root.
\<close>

theorem session_outputs_admitted:
  assumes "hex_is_text X" and "lock_runs_on V v" and "session_witness v rest" and "auth X V = Ok ()"
    and "length (s_args (lv_script v)) = ARGS_LEN"
    and "policies_root (params_of (drop 20 (s_args (lv_script v)))) \<noteq> WILDCARD_ROOT"
  shows "\<exists>sigs fs junk. rest = sigs @ concat (map encode_frame fs) @ junk \<and>
           list_all2 (frame_admits X (policies_root (params_of (drop 20 (s_args (lv_script v)))))) fs
             (filter (\<lambda>c. \<not> same_code (co_lock (fst c)) (lv_script v)) (lv_outputs v))"
proof -
  obtain p region proofs where g: "granted X V v rest p region" and c: "co_signed X V v p region proofs"
    and s: "in_scope X v p proofs" using assms(1-4) by (rule accepted_sessionE)
  have p: "p = params_of (drop 20 (s_args (lv_script v)))" and "region = rest"
    using g assms(5) by (auto simp: granted_def lock_lens)
  with c obtain sigs where "rest = sigs @ proofs" unfolding co_signed_def by (metis append.assoc)
  with s p assms(6) show ?thesis unfolding in_scope_def foreign_cells_def by blast
qed

text \<open>
  A session that may only pay \<open>other_script\<close>: its policy tree is the single lock leaf, it never
  expires and it has a guardian.
\<close>

definition other_leaf :: bytes where
  "other_leaf = sample_hash (sample_hash (flat_script other_script))"

definition scoped_params :: bytes where
  "scoped_params = replicate 20 2 @ u64_le NO_EXPIRY @ other_leaf @ u128_le 30 @ replicate 20 7"

definition scoped_script :: script where
  "scoped_script = sample_script\<lparr>s_args := replicate 20 1 @ scoped_params\<rparr>"

definition scoped_rest :: bytes where
  "scoped_rest = sample_sign (replicate 20 2) sample_message @ sample_sign (replicate 20 7) sample_message @
     encode_frame (POLICY_KIND_LOCK, [])"

definition scoped_view :: lock_view where
  "scoped_view = view_with scoped_script MODE_SESSION scoped_rest"

lemma scoped_params_of:
  "params_of scoped_params =
     \<lparr>session_pubkey_hash = replicate 20 2, expires_at = NO_EXPIRY, policies_root = other_leaf,
      spend_cap = 30, guardian_pubkey_hash = replicate 20 7\<rparr>"
  by (simp add: params_of_def scoped_params_def other_leaf_def)

lemma scoped_args: "s_args scoped_script = replicate 20 1 @ scoped_params" "length scoped_params = 96"
  by (simp_all add: scoped_script_def scoped_params_def other_leaf_def)

lemma scoped_outputs:
  "own_cells scoped_script (lv_outputs scoped_view) =
     [(\<lparr>co_capacity = 80, co_lock = scoped_script, co_type = None\<rparr>, u64_le 3)]"
  "foreign_cells scoped_script (lv_outputs scoped_view) =
     [(\<lparr>co_capacity = 20, co_lock = other_script, co_type = None\<rparr>, [])]"
  by (simp_all add: own_cells_def foreign_cells_def scoped_view_def view_with_def sample_outputs_def
      same_code_def scoped_script_def sample_script_def other_script_def)

lemma scoped_admits:
  "frame_admits sample_externals other_leaf (POLICY_KIND_LOCK, [])
     (\<lparr>co_capacity = 20, co_lock = other_script, co_type = None\<rparr>, [])"
  using merkle_verify_concat[of "[]" sample_hash other_leaf other_leaf]
  by (simp add: frame_admits_def other_leaf_def)

lemma scoped_unlocks: "session_unlocks sample_externals (vm_of scoped_view) scoped_view scoped_rest"
proof -
  let ?p = "params_of scoped_params"
  have m: "signed_message sample_externals scoped_view = sample_message"
    by (simp add: scoped_view_def sample_signed_message)
  have "granted sample_externals (vm_of scoped_view) scoped_view scoped_rest ?p scoped_rest"
    by (simp add: granted_def scoped_view_def scoped_args lock_lens)
  moreover have "co_signed sample_externals (vm_of scoped_view) scoped_view ?p scoped_rest
      (encode_frame (POLICY_KIND_LOCK, []))"
    using sample_signature_accepted[of scoped_view] unfolding co_signed_def m scoped_rest_def
    by (auto simp: scoped_params_of)
  moreover have "unexpired scoped_view ?p" by (simp add: unexpired_def scoped_params_of)
  moreover have "in_scope sample_externals scoped_view ?p (encode_frame (POLICY_KIND_LOCK, []))"
    using scoped_admits scoped_outputs(2) unfolding in_scope_def scoped_params_of
    by (intro disjI2 exI[of _ "[(POLICY_KIND_LOCK, [])]"] exI[of _ "[]"])
       (simp add: scoped_view_def)
  moreover have "account_intact scoped_view"
    by (simp add: account_intact_def account_kept_def scoped_view_def view_with_def account_data_def
        sample_outputs_def same_code_def sample_script_def scoped_script_def other_script_def)
  moreover have "within_cap scoped_view ?p"
    using scoped_outputs(1) by (simp add: within_cap_def scoped_params_of scoped_view_def view_with_def)
  moreover have "session_pubkey_hash ?p \<noteq> replicate 20 0" by (simp add: scoped_params_of)
  ultimately show ?thesis unfolding session_unlocks_def by blast
qed

lemma scoped_runs:
  "lock_runs_on (vm_of scoped_view) scoped_view" "auth sample_externals (vm_of scoped_view) = Ok ()"
  "session_witness scoped_view scoped_rest"
proof -
  show r: "lock_runs_on (vm_of scoped_view) scoped_view"
    unfolding scoped_view_def by (rule lock_runs_on_view_with)
  have "lock_accepts sample_externals (vm_of scoped_view) scoped_view"
    using scoped_unlocks by (simp add: lock_accepts_def scoped_view_def scoped_args lock_lens)
  then show "auth sample_externals (vm_of scoped_view) = Ok ()"
    by (simp add: auth_refines[OF sample_hex_is_text r])
  show "session_witness scoped_view scoped_rest" by (simp add: scoped_view_def)
qed

lemma other_leaf_not_wildcard: "other_leaf \<noteq> WILDCARD_ROOT"
  by (simp add: other_leaf_def sample_hash_def flat_script_def other_script_def WILDCARD_ROOT_def)

lemma session_outputs_admitted_witness:
  "\<exists>f. frame_admits sample_externals other_leaf f (\<lparr>co_capacity = 20, co_lock = other_script, co_type = None\<rparr>, [])"
proof -
  have "length (s_args (lv_script scoped_view)) = ARGS_LEN"
      "policies_root (params_of (drop 20 (s_args (lv_script scoped_view)))) = other_leaf"
    by (simp_all add: scoped_view_def scoped_args lock_lens scoped_params_of)
  then show ?thesis
    using session_outputs_admitted[OF sample_hex_is_text scoped_runs(1,3,2)] other_leaf_not_wildcard
      scoped_outputs(2) by (auto simp: foreign_cells_def scoped_view_def list_all2_Cons2)
qed

text \<open>
  C14: revocation.  A carried session needs an owner signature over this account, the epoch the
  account now holds and exactly the carried parameters.  If none of the strings the owner ever
  signed is an authorization for the current epoch, a carried session is rejected, unless the
  digest of the authorization it would need collides with one of those strings.
\<close>

theorem carried_session_revoked:
  assumes "hex_is_text X" and "lock_runs_on V v" and "session_witness v rest"
    and "length (s_args (lv_script v)) = OWNER_ONLY_ARGS_LEN"
    and "\<forall>m sg. signed_by X V (owner_of v) m sg \<longrightarrow> m \<in> blake2b_256 X ` set signings"
    and "\<forall>pb. session_auth_preimage (lv_script_hash v) (epoch_of (account_data v)) pb \<notin> set signings"
    and "\<forall>s \<in> set signings. \<not> collision (blake2b_256 X) s
           (session_auth_preimage (lv_script_hash v) (epoch_of (account_data v)) (take SESSION_PARAMS_LEN rest))"
  shows "auth X V \<noteq> Ok ()"
proof
  assume "auth X V = Ok ()"
  then obtain p region where "granted X V v rest p region"
    by (rule accepted_sessionE[OF assms(1-3)])
  then obtain oa where "signed_by X V (owner_of v)
      (blake2b_256 X (session_auth_preimage (lv_script_hash v) (epoch_of (account_data v)) (take SESSION_PARAMS_LEN rest))) oa"
    using assms(4) by (auto simp: granted_def lock_lens)
  with assms(5) obtain s where "s \<in> set signings" and "blake2b_256 X s =
      blake2b_256 X (session_auth_preimage (lv_script_hash v) (epoch_of (account_data v)) (take SESSION_PARAMS_LEN rest))"
    by fastforce
  then show False using assms(6,7) unfolding collision_def by metis
qed

text \<open>
  At an account that moved on to epoch 3 after its owner signed for epoch 2, with a digest that
  keeps the epoch and an owner key that verifies that one authorization only.
\<close>

definition late_externals :: externals where
  "late_externals = sample_externals\<lparr>blake2b_256 := (\<lambda>b. take 32 (drop 62 b @ replicate 32 0))\<rparr>"

definition old_grant :: bytes where
  "old_grant = session_auth_preimage (sample_hash (flat_script bare_script)) 2 sample_params"

definition late_vm :: vm where
  "late_vm = (vm_of carried_view)\<lparr>spawn_cell := (\<lambda>code ht xs.
     if xs ! 2 = sample_hex (blake2b_256 late_externals old_grant) then Inr 0 else Inr 1)\<rparr>"

lemma hex_digit_inj: "a < 16 \<Longrightarrow> b < 16 \<Longrightarrow> hex_digit a = hex_digit b \<longleftrightarrow> a = b"
  unfolding hex_digit_def by (rule nth_eq_iff_index_eq) simp_all

lemma sample_hex_inj: "sample_hex a = sample_hex b \<Longrightarrow> a = b"
proof (induction a arbitrary: b)
  case Nil
  then show ?case using length_sample_hex[of b] by (simp add: sample_hex_def)
next
  case (Cons x a)
  then obtain y b' where b: "b = y # b'" by (cases b) (auto simp: sample_hex_def)
  have "unat (z :: byte) div 16 < 16" for z using unat_byte_less[of z] by linarith
  then have "unat x div 16 = unat y div 16" "unat x mod 16 = unat y mod 16"
    using Cons.prems hex_digit_inj by (auto simp: b sample_hex_def)
  then have "unat x = unat y" by (metis div_mult_mod_eq)
  then show ?case using Cons b by (simp add: sample_hex_def word_unat_eq_iff)
qed

lemma carried_session_revoked_witness: "auth late_externals late_vm \<noteq> Ok ()"
proof -
  let ?v = carried_view and ?d = "blake2b_256 late_externals"
  have t: "hex_is_text late_externals" using sample_hex_is_text by (simp add: hex_is_text_def late_externals_def)
  have r: "lock_runs_on late_vm ?v"
    using carried_runs(1) by (simp add: late_vm_def lock_runs_on_def serves_cells_def)
  have "\<exists>rest. session_witness ?v rest \<and> take SESSION_PARAMS_LEN rest = sample_params"
    unfolding carried_view_def by (rule exI, rule conjI, rule session_witness_views) (simp add: lock_lens)
  then obtain rest where w: "session_witness ?v rest" and p: "take SESSION_PARAMS_LEN rest = sample_params"
    by blast
  have l: "length (s_args (lv_script ?v)) = OWNER_ONLY_ARGS_LEN"
    by (simp add: carried_view_def bare_script_def lock_lens)
  have only: "m \<in> ?d ` set [old_grant]" if "signed_by late_externals late_vm (owner_of ?v) m sg" for m sg
  proof -
    have "sample_hex m = sample_hex (?d old_grant)"
      using that by (auto simp: signed_by_def ckb_auth_accepts_def late_vm_def late_externals_def vm_of_def split: if_splits)
    then show ?thesis using sample_hex_inj by fastforce
  qed
  have e: "epoch_of (account_data ?v) = 3" "lv_script_hash ?v = sample_hash (flat_script bare_script)"
    by (simp_all add: carried_view_def epoch_of_def)
  have n: "session_auth_preimage (lv_script_hash ?v) 3 pb \<noteq> old_grant" for pb
    by (simp add: old_grant_def session_auth_preimage_inj e(2))
  have k: "take 8 (?d (session_auth_preimage (sample_hash s) k sample_params)) = u64_le k" for s k
    by (simp add: late_externals_def session_auth_preimage_def)
  have "u64_le 2 \<noteq> u64_le 3" by simp
  then have c: "\<not> collision ?d old_grant (session_auth_preimage (lv_script_hash ?v) 3 sample_params)"
    unfolding collision_def old_grant_def e(2) using k by metis
  show ?thesis
  proof (rule carried_session_revoked[OF t r w l, of "[old_grant]"])
    show "\<forall>m sg. signed_by late_externals late_vm (owner_of ?v) m sg \<longrightarrow> m \<in> ?d ` set [old_grant]"
      using only by blast
    show "\<forall>pb. session_auth_preimage (lv_script_hash ?v) (epoch_of (account_data ?v)) pb \<notin> set [old_grant]"
      using n by (simp add: e(1))
    show "\<forall>s \<in> set [old_grant]. \<not> collision ?d s
        (session_auth_preimage (lv_script_hash ?v) (epoch_of (account_data ?v)) (take SESSION_PARAMS_LEN rest))"
      using c by (simp add: e(1) p)
  qed
qed

lemma lock_accepts_cell_deps:
  assumes V: "spawn_cell V' = spawn_cell V" "wait_exit V' = wait_exit V"
    and t: "tx_raw t = (tx_raw (lv_tx v))\<lparr>rt_cell_deps := deps\<rparr>"
  shows "lock_accepts X V' (v\<lparr>lv_tx := t\<rparr>) \<longleftrightarrow> lock_accepts X V v"
proof -
  have s: "signed_by X V' = signed_by X V"
    by (intro ext) (simp only: signed_by_def ckb_auth_accepts_def V)
  have m: "signed_message X (v\<lparr>lv_tx := t\<rparr>) = signed_message X v"
    by (simp add: signed_message_def t)
  show ?thesis
    by (simp add: lock_accepts_def owner_unlocks_def session_unlocks_def granted_def co_signed_def
        unexpired_def in_scope_def account_intact_def within_cap_def owner_of_def account_data_def s m)
qed

text \<open>
  A relayer may attach cell deps: replacing the transaction's cell deps by any others leaves the
  verdict of the lock as it is.
\<close>

theorem verdict_ignores_cell_deps:
  assumes "hex_is_text X" and "lock_runs_on V v"
    and "tx_raw t = (tx_raw (lv_tx v))\<lparr>rt_cell_deps := deps\<rparr>"
  shows "auth X (V\<lparr>load_transaction := Inr t\<rparr>) = Ok () \<longleftrightarrow> auth X V = Ok ()"
proof -
  let ?V = "V\<lparr>load_transaction := Inr t\<rparr>"
  have "lock_runs_on ?V (v\<lparr>lv_tx := t\<rparr>)"
    using assms(2) by (simp add: lock_runs_on_def serves_cells_def)
  moreover have "lock_accepts X ?V (v\<lparr>lv_tx := t\<rparr>) \<longleftrightarrow> lock_accepts X V v"
    by (rule lock_accepts_cell_deps[OF _ _ assms(3)]) simp_all
  ultimately show ?thesis using auth_refines[OF assms(1)] assms(2) by blast
qed

definition sample_dep :: cell_dep where
  "sample_dep = \<lparr>cd_out_point = \<lparr>op_tx_hash = replicate 32 5, op_index = 1\<rparr>, cd_dep_type = 0\<rparr>"

lemma verdict_ignores_cell_deps_witness:
  "auth sample_externals ((vm_of registered_view)\<lparr>load_transaction :=
     Inr (sample_tx\<lparr>tx_raw := (tx_raw sample_tx)\<lparr>rt_cell_deps := [sample_dep]\<rparr>\<rparr>)\<rparr>) = Ok ()"
proof -
  have "tx_raw (sample_tx\<lparr>tx_raw := (tx_raw sample_tx)\<lparr>rt_cell_deps := [sample_dep]\<rparr>\<rparr>)
      = (tx_raw (lv_tx registered_view))\<lparr>rt_cell_deps := [sample_dep]\<rparr>"
    by (simp add: registered_view_def)
  from verdict_ignores_cell_deps[OF sample_hex_is_text registered_runs(1) this] registered_runs(2)
  show ?thesis by simp
qed

text \<open>
  What the signature does bind: two transactions with one signed message agree in everything but
  their cell deps, unless the digest collides on their two serialisations.
\<close>

theorem signature_binds_transaction:
  assumes "inj_on (molecule_raw_tx X) {(tx_raw (lv_tx v))\<lparr>rt_cell_deps := []\<rparr>, (tx_raw (lv_tx w))\<lparr>rt_cell_deps := []\<rparr>}"
    and "signed_message X v = signed_message X w"
    and "\<not> collision (blake2b_256 X) (molecule_raw_tx X ((tx_raw (lv_tx v))\<lparr>rt_cell_deps := []\<rparr>))
                                    (molecule_raw_tx X ((tx_raw (lv_tx w))\<lparr>rt_cell_deps := []\<rparr>))"
  shows "tx_raw (lv_tx w) = (tx_raw (lv_tx v))\<lparr>rt_cell_deps := rt_cell_deps (tx_raw (lv_tx w))\<rparr>"
proof -
  have "(tx_raw (lv_tx v))\<lparr>rt_cell_deps := []\<rparr> = (tx_raw (lv_tx w))\<lparr>rt_cell_deps := []\<rparr>"
    using assms by (auto simp: signed_message_def collision_def dest: inj_onD)
  then show ?thesis
    by (cases "tx_raw (lv_tx v)"; cases "tx_raw (lv_tx w)") simp
qed

lemma signature_binds_transaction_witness:
  "tx_raw (sample_tx\<lparr>tx_raw := (tx_raw sample_tx)\<lparr>rt_cell_deps := [sample_dep]\<rparr>\<rparr>)
     = (tx_raw sample_tx)\<lparr>rt_cell_deps := [sample_dep]\<rparr>"
  using signature_binds_transaction[of sample_externals registered_view
      "registered_view\<lparr>lv_tx := sample_tx\<lparr>tx_raw := (tx_raw sample_tx)\<lparr>rt_cell_deps := [sample_dep]\<rparr>\<rparr>\<rparr>"]
  by (simp add: signed_message_def collision_def registered_view_def)

end
