(* ===== verification/Sdk.thy ===== *)
theory Sdk
  imports Lock_Spec
begin

text \<open>
  The off-chain builder sdk/src/lib.rs: args, data, messages, the policy Merkle tree and the
  witnesses.  Names that the lock uses as well carry the prefix \<open>sdk_\<close>; the lemmas relate the two
  sides function by function.
\<close>

section \<open>Layout constants\<close>

text \<open>The crate repeats the constants of the script, which "MUST match"; they do.\<close>

definition sdk_SIGNATURE_LEN :: nat where "sdk_SIGNATURE_LEN = 65"
definition sdk_MODE_OWNER :: byte where "sdk_MODE_OWNER = 0"
definition sdk_MODE_SESSION :: byte where "sdk_MODE_SESSION = 1"
definition OWNER_HASH_LEN :: nat where "OWNER_HASH_LEN = 20"
definition sdk_SESSION_PARAMS_LEN :: nat where "sdk_SESSION_PARAMS_LEN = 96"
definition REGISTERED_ARGS_LEN :: nat where "REGISTERED_ARGS_LEN = OWNER_HASH_LEN + sdk_SESSION_PARAMS_LEN"
definition sdk_WILDCARD_ROOT :: bytes where "sdk_WILDCARD_ROOT = replicate 32 255"
definition sdk_SPEND_CAP_UNLIMITED :: u128 where "sdk_SPEND_CAP_UNLIMITED = - 1"
definition sdk_NO_EXPIRY :: u64 where "sdk_NO_EXPIRY = - 1"
definition sdk_SESSION_AUTH_DOMAIN :: bytes where "sdk_SESSION_AUTH_DOMAIN = ascii ''ckb-controller/session-auth/v1''"
definition sdk_POLICY_KIND_TYPE :: byte where "sdk_POLICY_KIND_TYPE = 0"
definition sdk_POLICY_KIND_LOCK :: byte where "sdk_POLICY_KIND_LOCK = 1"

lemma sdk_constants [simp]:
  "sdk_SIGNATURE_LEN = LOCK_SIGNATURE_LEN" "sdk_MODE_OWNER = MODE_OWNER" "sdk_MODE_SESSION = MODE_SESSION"
  "OWNER_HASH_LEN = OWNER_ONLY_ARGS_LEN" "sdk_SESSION_PARAMS_LEN = SESSION_PARAMS_LEN" "REGISTERED_ARGS_LEN = ARGS_LEN"
  "sdk_WILDCARD_ROOT = WILDCARD_ROOT" "sdk_SPEND_CAP_UNLIMITED = SPEND_CAP_UNLIMITED" "sdk_NO_EXPIRY = NO_EXPIRY"
  "sdk_SESSION_AUTH_DOMAIN = SESSION_AUTH_DOMAIN" "sdk_POLICY_KIND_TYPE = POLICY_KIND_TYPE"
  "sdk_POLICY_KIND_LOCK = POLICY_KIND_LOCK"
  by (simp_all add: sdk_SIGNATURE_LEN_def LOCK_SIGNATURE_LEN_def sdk_MODE_OWNER_def MODE_OWNER_def sdk_MODE_SESSION_def
      MODE_SESSION_def OWNER_HASH_LEN_def OWNER_ONLY_ARGS_LEN_def sdk_SESSION_PARAMS_LEN_def SESSION_PARAMS_LEN_def
      REGISTERED_ARGS_LEN_def ARGS_LEN_def sdk_WILDCARD_ROOT_def WILDCARD_ROOT_def sdk_SPEND_CAP_UNLIMITED_def
      SPEND_CAP_UNLIMITED_def sdk_NO_EXPIRY_def NO_EXPIRY_def sdk_SESSION_AUTH_DOMAIN_def SESSION_AUTH_DOMAIN_def
      sdk_POLICY_KIND_TYPE_def POLICY_KIND_TYPE_def sdk_POLICY_KIND_LOCK_def POLICY_KIND_LOCK_def)

section \<open>Args, parameters, data\<close>

definition sdk_session_params :: "bytes \<Rightarrow> u64 \<Rightarrow> bytes \<Rightarrow> u128 \<Rightarrow> bytes \<Rightarrow> bytes" where
  "sdk_session_params session_hash expires root cap guardian =
     session_hash @ u64_le expires @ root @ u128_le cap @ guardian"

definition owner_only_args :: "bytes \<Rightarrow> bytes" where
  "owner_only_args owner_pubkey_hash = owner_pubkey_hash"

definition registered_args :: "bytes \<Rightarrow> bytes \<Rightarrow> bytes" where
  "registered_args owner_pubkey_hash params = owner_pubkey_hash @ params"

definition epoch_data :: "u64 \<Rightarrow> bytes" where
  "epoch_data epoch = (if epoch = 0 then [] else u64_le epoch)"

section \<open>Messages\<close>

definition sdk_tx_message :: "externals \<Rightarrow> transaction \<Rightarrow> bytes" where
  "sdk_tx_message X tx = blake2b_256 X (molecule_raw_tx X ((tx_raw tx)\<lparr>rt_cell_deps := []\<rparr>))"

definition sdk_session_auth_message :: "externals \<Rightarrow> bytes \<Rightarrow> u64 \<Rightarrow> bytes \<Rightarrow> bytes" where
  "sdk_session_auth_message X script_hash revocation_epoch params =
     blake2b_256 X (sdk_SESSION_AUTH_DOMAIN @ script_hash @ u64_le revocation_epoch @ params)"

section \<open>The policy tree\<close>

definition policy_leaf :: "externals \<Rightarrow> bytes \<Rightarrow> bytes" where
  "policy_leaf X script_hash = blake2b_256 X script_hash"

definition policy_leaf_for_script :: "externals \<Rightarrow> script \<Rightarrow> bytes" where
  "policy_leaf_for_script X s = policy_leaf X (calc_script_hash X s)"

definition policy_leaf_for_type_script :: "externals \<Rightarrow> script \<Rightarrow> bytes" where
  "policy_leaf_for_type_script X type_script = policy_leaf_for_script X type_script"

definition pair_string :: "bytes \<Rightarrow> bytes \<Rightarrow> bytes" where
  "pair_string a b = (if a \<le> b then a @ b else b @ a)"

definition pair :: "(bytes \<Rightarrow> bytes) \<Rightarrow> bytes \<Rightarrow> bytes \<Rightarrow> bytes" where
  "pair H a b = H (pair_string a b)"

definition ZERO_NODE :: bytes where "ZERO_NODE = replicate 32 0"

definition pad_level :: "bytes list \<Rightarrow> bytes list" where
  "pad_level level = (if length level mod 2 = 1 then level @ [ZERO_NODE] else level)"

text \<open>
  \<open>level.chunks(2).map(|c| pair(&c[0], &c[1]))\<close>: the vector was padded to even length just before,
  so there is no chunk of one node.
\<close>

fun pair_chunks :: "(bytes \<Rightarrow> bytes) \<Rightarrow> bytes list \<Rightarrow> bytes list" where
  "pair_chunks H (a # b # rest) = pair H a b # pair_chunks H rest"
| "pair_chunks H _ = []"

definition fold_level :: "(bytes \<Rightarrow> bytes) \<Rightarrow> bytes list \<Rightarrow> bytes list" where
  "fold_level H level = pair_chunks H (pad_level level)"

lemma length_pair_chunks: "length (pair_chunks H xs) = length xs div 2"
  by (induction H xs rule: pair_chunks.induct) auto

lemma length_fold_level: "length (fold_level H level) = (length level + 1) div 2"
  unfolding fold_level_def length_pair_chunks pad_level_def
  by (simp; presburger)

function merkle_loop :: "(bytes \<Rightarrow> bytes) \<Rightarrow> bytes list \<Rightarrow> bytes list" where
  "merkle_loop H level = (if 1 < length level then merkle_loop H (fold_level H level) else level)"
  by pat_completeness auto
termination by (relation "measure (\<lambda>(H, level). length level)") (auto simp: length_fold_level)

declare merkle_loop.simps [simp del]

definition merkle_root :: "(bytes \<Rightarrow> bytes) \<Rightarrow> bytes list \<Rightarrow> (unit, bytes) result" where
  "merkle_root H leaves = (if leaves = [] then Ok ZERO_NODE else index_at (merkle_loop H leaves) 0)"

text \<open>\<open>index ^ 1\<close> and \<open>index >>= 1\<close> on \<open>usize\<close>; an index past the end of a level panics.\<close>

function merkle_proof_loop :: "(bytes \<Rightarrow> bytes) \<Rightarrow> bytes list \<Rightarrow> nat \<Rightarrow> (unit, bytes list) result" where
  "merkle_proof_loop H level index =
     (if 1 < length level then
        (let level' = pad_level level in
         andThen (index_at level' (if even index then index + 1 else index - 1)) (\<lambda>sibling.
         andThen (merkle_proof_loop H (pair_chunks H level') (index div 2)) (\<lambda>rest. Ok (sibling # rest))))
      else Ok [])"
  by pat_completeness auto
termination
  by (relation "measure (\<lambda>(H, level, i). length level)") (auto simp flip: fold_level_def simp: length_fold_level)

declare merkle_proof_loop.simps [simp del]

definition merkle_proof :: "(bytes \<Rightarrow> bytes) \<Rightarrow> bytes list \<Rightarrow> nat \<Rightarrow> (unit, bytes list) result" where
  "merkle_proof H leaves index = merkle_proof_loop H leaves index"

definition sdk_merkle_verify :: "(bytes \<Rightarrow> bytes) \<Rightarrow> bytes \<Rightarrow> bytes \<Rightarrow> bytes list \<Rightarrow> bool" where
  "sdk_merkle_verify H root leaf prf \<longleftrightarrow> foldl (pair H) leaf prf = root"

section \<open>Witnesses\<close>

definition proof_region :: "(byte \<times> bytes list) list \<Rightarrow> bytes" where
  "proof_region entries = concat (map (\<lambda>(kind, prf). kind # of_nat (length prf) # concat prf) entries)"

definition wrap_lock :: "externals \<Rightarrow> bytes \<Rightarrow> bytes" where
  "wrap_lock X lock_bytes =
     molecule_witness_args X \<lparr>wa_lock = Some lock_bytes, wa_input_type = None, wa_output_type = None\<rparr>"

definition opt_bytes :: "bytes option \<Rightarrow> bytes" where
  "opt_bytes g = (case g of None \<Rightarrow> [] | Some b \<Rightarrow> b)"

definition owner_witness :: "externals \<Rightarrow> bytes \<Rightarrow> bytes" where
  "owner_witness X owner_sig = wrap_lock X (sdk_MODE_OWNER # owner_sig)"

definition session_witness_registered :: "externals \<Rightarrow> bytes \<Rightarrow> bytes option \<Rightarrow> bytes \<Rightarrow> bytes" where
  "session_witness_registered X session_sig guardian_sig region =
     wrap_lock X (sdk_MODE_SESSION # session_sig @ opt_bytes guardian_sig @ region)"

definition session_witness_carried ::
  "externals \<Rightarrow> bytes \<Rightarrow> bytes \<Rightarrow> bytes \<Rightarrow> bytes option \<Rightarrow> bytes \<Rightarrow> bytes" where
  "session_witness_carried X params owner_auth session_sig guardian_sig region =
     wrap_lock X (sdk_MODE_SESSION # params @ owner_auth @ session_sig @ opt_bytes guardian_sig @ region)"

section \<open>The tree is complete\<close>

lemma pair_hash_pair: "pair H = hash_pair H"
  by (intro ext) (simp add: pair_def pair_string_def hash_pair_def)

lemma pair_commute: "pair H a b = pair H b a"
  by (simp add: pair_hash_pair hash_pair_commute)

lemma pair_chunks_nth: "i < length xs div 2 \<Longrightarrow> pair_chunks H xs ! i = pair H (xs ! (2 * i)) (xs ! (2 * i + 1))"
proof (induction H xs arbitrary: i rule: pair_chunks.induct)
  case (1 H a b rest)
  then show ?case by (cases i) auto
qed auto

lemma pad_level_nth: "i < length level \<Longrightarrow> pad_level level ! i = level ! i"
  by (simp add: pad_level_def nth_append)

lemma length_pad_level: "length (pad_level level) = 2 * ((length level + 1) div 2)"
  unfolding pad_level_def by (simp; presburger)

lemma fold_level_nth:
  assumes "i < length level"
  defines "s \<equiv> (if even i then i + 1 else i - 1)"
  shows "s < length (pad_level level)"
    and "fold_level H level ! (i div 2) = pair H (level ! i) (pad_level level ! s)"
proof -
  have half: "i div 2 < length (pad_level level) div 2"
    using assms(1) by (simp add: length_pad_level; presburger)
  show "s < length (pad_level level)"
    using assms by (auto simp: length_pad_level split: if_splits) presburger+
  show "fold_level H level ! (i div 2) = pair H (level ! i) (pad_level level ! s)"
  proof (cases "even i")
    case True
    then have "2 * (i div 2) = i" by simp
    then show ?thesis
      using True assms by (simp add: fold_level_def pair_chunks_nth[OF half] pad_level_nth s_def)
  next
    case False
    then have "2 * (i div 2) = i - 1" "2 * (i div 2) + 1 = i" by presburger+
    then show ?thesis
      using False assms by (simp add: fold_level_def pair_chunks_nth[OF half] pad_level_nth s_def pair_commute)
  qed
qed

lemma merkle_proof_complete:
  "i < length level \<Longrightarrow>
   \<exists>p. merkle_proof_loop H level i = Ok p \<and> merkle_loop H level = [foldl (pair H) (level ! i) p]"
proof (induction H level arbitrary: i rule: merkle_loop.induct)
  case (1 H level)
  show ?case
  proof (cases "1 < length level")
    case False
    then obtain r where "level = [r]" using 1 by (cases level) auto
    with 1 show ?thesis by (simp add: merkle_loop.simps[of H "[r]"] merkle_proof_loop.simps[of H "[r]"])
  next
    case True
    let ?s = "if even i then i + 1 else i - 1"
    note step = fold_level_nth[OF 1(2)]
    have "i div 2 < length (fold_level H level)"
      using 1(2) by (simp add: length_fold_level; presburger)
    from 1(1)[OF True this] obtain p where
      p: "merkle_proof_loop H (fold_level H level) (i div 2) = Ok p"
         "merkle_loop H (fold_level H level) = [foldl (pair H) (fold_level H level ! (i div 2)) p]" by blast
    have "merkle_proof_loop H level i = Ok (pad_level level ! ?s # p)"
      using True p(1) step(1)
      by (simp only: merkle_proof_loop.simps[of H level i] fold_level_def Let_def index_at_in_range andThen.simps if_True)
    moreover have "merkle_loop H level = [foldl (pair H) (level ! i) (pad_level level ! ?s # p)]"
      using True p(2) step(2)[of H] by (simp add: merkle_loop.simps[of H level])
    ultimately show ?thesis by blast
  qed
qed

lemma merkle_root_complete:
  assumes "i < length leaves"
  shows "\<exists>p. merkle_proof H leaves i = Ok p \<and> merkle_root H leaves = Ok (foldl (pair H) (leaves ! i) p)"
  using merkle_proof_complete[OF assms, of H] assms by (auto simp: merkle_root_def merkle_proof_def)

text \<open>A proof has one sibling per level, so its length fits the one-byte field of the frame.\<close>

lemma merkle_proof_height:
  "merkle_proof_loop H level i = Ok p \<Longrightarrow> length level \<le> 2 ^ k \<Longrightarrow> length p \<le> k"
proof (induction H level i arbitrary: p k rule: merkle_proof_loop.induct)
  case (1 H level i)
  show ?case
  proof (cases "1 < length level")
    case False
    then show ?thesis using 1(2) by (simp add: merkle_proof_loop.simps[of H level i])
  next
    case True
    then obtain k' where k: "k = Suc k'" using 1(3) by (cases k) auto
    from 1(2) True obtain q s where q: "p = s # q" "merkle_proof_loop H (pair_chunks H (pad_level level)) (i div 2) = Ok q"
      by (auto simp: merkle_proof_loop.simps[of H level i] Let_def result_simps simp del: index_at_in_range)
    moreover have "length (pair_chunks H (pad_level level)) \<le> 2 ^ k'"
      using 1(3) length_fold_level[of H level] by (simp add: k fold_level_def)
    ultimately show ?thesis using 1(1)[OF True refl, of q k'] k by simp
  qed
qed

lemma set_pad_level: "set (pad_level level) \<subseteq> insert ZERO_NODE (set level)"
  by (auto simp: pad_level_def)

lemma pair_chunks_nodes:
  assumes H: "\<And>b. length (H b) = 32"
  shows "\<forall>x \<in> set (pair_chunks H xs). length x = 32"
  using H by (induction H xs rule: pair_chunks.induct) (auto simp: pair_def)

lemma merkle_proof_siblings:
  assumes H: "\<And>b. length (H b) = 32"
  shows "merkle_proof_loop H level i = Ok p \<Longrightarrow> \<forall>x \<in> set level. length x = 32 \<Longrightarrow> \<forall>s \<in> set p. length s = 32"
  using H
proof (induction H level i arbitrary: p rule: merkle_proof_loop.induct)
  case (1 H level i)
  show ?case
  proof (cases "1 < length level")
    case False
    then show ?thesis using 1(2) by (simp add: merkle_proof_loop.simps[of H level i])
  next
    case True
    from 1(2) True obtain q s where q: "p = s # q" "merkle_proof_loop H (pair_chunks H (pad_level level)) (i div 2) = Ok q"
      and s: "s \<in> set (pad_level level)"
      by (auto simp: merkle_proof_loop.simps[of H level i] Let_def result_simps simp del: index_at_in_range)
    from s set_pad_level[of level] 1(3) have "length s = 32" by (auto simp: ZERO_NODE_def)
    moreover have "\<forall>s \<in> set q. length s = 32"
      using 1(1)[OF True refl q(2) pair_chunks_nodes[of H] 1(4)] 1(4) by blast
    ultimately show ?thesis using q(1) by simp
  qed
qed

section \<open>The tree is sound\<close>

text \<open>The strings that building a tree over \<open>level\<close> and walking a path from \<open>node\<close> hash.\<close>

fun chunk_strings :: "bytes list \<Rightarrow> bytes list" where
  "chunk_strings (a # b # rest) = pair_string a b # chunk_strings rest"
| "chunk_strings _ = []"

function tree_strings :: "(bytes \<Rightarrow> bytes) \<Rightarrow> bytes list \<Rightarrow> bytes list" where
  "tree_strings H level =
     (if 1 < length level then chunk_strings (pad_level level) @ tree_strings H (fold_level H level) else [])"
  by pat_completeness auto
termination by (relation "measure (\<lambda>(H, level). length level)") (auto simp: length_fold_level)

declare tree_strings.simps [simp del]

fun path_strings :: "(bytes \<Rightarrow> bytes) \<Rightarrow> bytes \<Rightarrow> bytes list \<Rightarrow> bytes list" where
  "path_strings H node [] = []"
| "path_strings H node (s # p) = pair_string node s # path_strings H (pair H node s) p"

lemma pair_chunks_strings: "pair_chunks H xs = map H (chunk_strings xs)"
  by (induction xs rule: chunk_strings.induct) (simp_all add: pair_def)

lemma in_chunk_strings:
  "x \<in> set (chunk_strings xs) \<Longrightarrow> \<exists>a b. a \<in> set xs \<and> b \<in> set xs \<and> x = pair_string a b"
  by (induction xs rule: chunk_strings.induct) auto

lemma pair_string_inj:
  assumes "length a = 32" "length b = 32" "length c = 32" "length d = 32" "pair_string a b = pair_string c d"
  shows "a = c \<or> a = d"
  using assms by (auto simp: pair_string_def split: if_splits)

lemma length_pair_string: "length (pair_string a b) = length a + length b"
  by (simp add: pair_string_def)

text \<open>Every node of a path but its start is the digest of a string of the path.\<close>

lemma path_node:
  assumes "0 < i" "i \<le> length p"
  shows "\<exists>x s. x \<in> set (path_strings H node p) \<and> s \<in> set p \<and>
     x = pair_string (foldl (pair H) node (take (i - 1) p)) s \<and> foldl (pair H) node (take i p) = H x"
  using assms
proof (induction p arbitrary: node i)
  case (Cons s p)
  show ?case
  proof (cases "i = 1")
    case True
    then show ?thesis by (auto simp: pair_def)
  next
    case False
    then obtain j where j: "i = Suc (Suc j)" using Cons.prems(1) by (cases i; cases "i - 1") auto
    with Cons.IH[of "Suc j" "pair H node s"] Cons.prems show ?thesis by auto
  qed
qed simp

text \<open>
  If a path ends in the root of a tree, then one of its nodes is a leaf of the tree or its start
  is an inner node, provided the digest is injective on the strings at hand and none of them
  hashes to the padding node.
\<close>

lemma path_meets_tree:
  assumes H: "\<And>b. length (H b) = 32"
  shows "merkle_loop H level = [foldl (pair H) node p] \<Longrightarrow> \<forall>x \<in> set level. length x = 32 \<Longrightarrow>
     length node = 32 \<Longrightarrow> \<forall>s \<in> set p. length s = 32 \<Longrightarrow> node \<noteq> ZERO_NODE \<Longrightarrow>
     inj_on H (set (tree_strings H level) \<union> set (path_strings H node p)) \<Longrightarrow>
     ZERO_NODE \<notin> H ` set (path_strings H node p) \<Longrightarrow>
     (\<exists>i \<le> length p. foldl (pair H) node (take i p) \<in> set level) \<or> node \<in> H ` set (tree_strings H level)"
  using H
proof (induction H level rule: merkle_loop.induct)
  case (1 H level)
  show ?case
  proof (cases "1 < length level")
    case False
    then have "level = [foldl (pair H) node p]" using 1(2) by (simp add: merkle_loop.simps[of H level])
    then have "foldl (pair H) node (take (length p) p) \<in> set level" by simp
    then show ?thesis by blast
  next
    case True
    let ?up = "fold_level H level"
    note nodes = 1(3-6) and len = 1(9)
    have t: "tree_strings H level = chunk_strings (pad_level level) @ tree_strings H ?up"
      using True by (simp add: tree_strings.simps[of H level])
    have up: "?up = map H (chunk_strings (pad_level level))" by (simp add: fold_level_def pair_chunks_strings)
    have "merkle_loop H ?up = [foldl (pair H) node p]" using 1(2) True by (simp add: merkle_loop.simps[of H level])
    moreover have "\<forall>x \<in> set ?up. length x = 32" using len by (simp add: up)
    moreover have "inj_on H (set (tree_strings H ?up) \<union> set (path_strings H node p))"
      using 1(7) t by (rule_tac inj_on_subset) auto
    ultimately have "(\<exists>i \<le> length p. foldl (pair H) node (take i p) \<in> set ?up) \<or> node \<in> H ` set (tree_strings H ?up)"
      using 1(1)[OF True] nodes 1(8) len by blast
    then show ?thesis
    proof
      assume "node \<in> H ` set (tree_strings H ?up)"
      then show ?thesis using t by auto
    next
      assume "\<exists>i \<le> length p. foldl (pair H) node (take i p) \<in> set ?up"
      then obtain i y where i: "i \<le> length p" and y: "y \<in> set (chunk_strings (pad_level level))"
        and eq: "foldl (pair H) node (take i p) = H y" by (auto simp: up)
      show ?thesis
      proof (cases "i = 0")
        case True
        then show ?thesis using eq y t by auto
      next
        case False
        then obtain x s where x: "x \<in> set (path_strings H node p)" and s: "s \<in> set p"
          and xs: "x = pair_string (foldl (pair H) node (take (i - 1) p)) s" and e2: "foldl (pair H) node (take i p) = H x"
          using path_node[of i p H node] i by auto
        let ?n = "foldl (pair H) node (take (i - 1) p)"
        have "x = y" using 1(7) x y eq e2 t by (auto dest: inj_onD)
        moreover obtain a b where ab: "a \<in> set (pad_level level)" "b \<in> set (pad_level level)" "y = pair_string a b"
          using in_chunk_strings[OF y] by blast
        moreover have "\<forall>x \<in> set (pad_level level). length x = 32"
          using set_pad_level[of level] nodes(1) by (auto simp: ZERO_NODE_def)
        moreover have n: "length ?n = 32 \<and> ?n \<noteq> ZERO_NODE"
        proof (cases "i = 1")
          case True
          then show ?thesis using nodes by simp
        next
          case False
          then have "0 < i - 1" "i - 1 \<le> length p" using \<open>i \<noteq> 0\<close> i by auto
          from path_node[OF this, of H node] 1(8) len show ?thesis by (metis imageI)
        qed
        ultimately have "?n \<in> set (pad_level level)"
          using pair_string_inj[of ?n s a b] xs nodes(3) s by auto
        with n set_pad_level[of level] have "?n \<in> set level" by blast
        then show ?thesis using i by (intro disjI1 exI[of _ "i - 1"]) auto
      qed
    qed
  qed
qed

text \<open>The strings hashed when the policies \<open>ss\<close> are committed to and one path is checked for \<open>s\<close>.\<close>

definition policy_strings :: "(bytes \<Rightarrow> bytes) \<Rightarrow> bytes list \<Rightarrow> bytes \<Rightarrow> bytes list \<Rightarrow> bytes set" where
  "policy_strings H ss s p =
     set ss \<union> set (tree_strings H (map H ss)) \<union> {s} \<union> set (path_strings H (H s) p)"

lemma tree_strings_length:
  assumes H: "\<And>b. length (H b) = 32"
  shows "\<forall>x \<in> set level. length x = 32 \<Longrightarrow> y \<in> set (tree_strings H level) \<Longrightarrow> length y = 64"
  using H
proof (induction H level rule: tree_strings.induct)
  case (1 H level)
  have "\<forall>x \<in> set (pad_level level). length x = 32"
    using set_pad_level[of level] 1(2) by (auto simp: ZERO_NODE_def)
  moreover have "\<forall>x \<in> set (fold_level H level). length x = 32"
    using 1(4) by (simp add: fold_level_def pair_chunks_strings)
  ultimately show ?case
    using 1 in_chunk_strings[of y "pad_level level"]
    by (auto simp: tree_strings.simps[of H level] length_pair_string split: if_splits)
qed

lemma merkle_sound:
  assumes H: "\<And>b. length (H b) = 32"
    and root: "merkle_root H (map H ss) = Ok root" and v: "foldl (pair H) (H s) p = root"
    and len: "\<forall>x \<in> set ss. length x = 32" "length s = 32" "\<forall>x \<in> set p. length x = 32"
    and inj: "inj_on H (policy_strings H ss s p)" and nz: "ZERO_NODE \<notin> H ` policy_strings H ss s p"
  shows "s \<in> set ss"
proof -
  have node: "H s \<noteq> ZERO_NODE" using nz by (auto simp: policy_strings_def)
  have path: "foldl (pair H) (H s) (take i p) \<in> H ` policy_strings H ss s p" if "i \<le> length p" for i
  proof (cases "i = 0")
    case True
    then show ?thesis by (simp add: policy_strings_def)
  next
    case False
    with path_node[of i p H "H s"] that show ?thesis by (auto simp: policy_strings_def)
  qed
  show ?thesis
  proof (cases "ss = []")
    case True
    then have "foldl (pair H) (H s) p = ZERO_NODE" using root v by (simp add: merkle_root_def)
    with path[of "length p"] nz show ?thesis by simp
  next
    case False
    then have "merkle_loop H (map H ss) = [foldl (pair H) (H s) p]"
      using merkle_proof_complete[of 0 "map H ss" H] root v by (auto simp: merkle_root_def)
    moreover have "inj_on H (set (tree_strings H (map H ss)) \<union> set (path_strings H (H s) p))"
      using inj by (rule inj_on_subset) (auto simp: policy_strings_def)
    moreover have "ZERO_NODE \<notin> H ` set (path_strings H (H s) p)" using nz by (auto simp: policy_strings_def)
    ultimately consider (leaf) i s' where "i \<le> length p" "s' \<in> set ss" "foldl (pair H) (H s) (take i p) = H s'"
      | (inner) y where "y \<in> set (tree_strings H (map H ss))" "H s = H y"
      using path_meets_tree[where H = H and level = "map H ss" and node = "H s" and p = p] len node H by fastforce
    then show ?thesis
    proof cases
      case leaf
      show ?thesis
      proof (cases "i = 0")
        case True
        then have "s = s'" using leaf inj by (auto simp: policy_strings_def dest: inj_onD)
        with leaf show ?thesis by simp
      next
        case False
        with path_node[of i p H "H s"] leaf(1) obtain x t where x: "x \<in> set (path_strings H (H s) p)"
          and t: "t \<in> set p" "x = pair_string (foldl (pair H) (H s) (take (i - 1) p)) t" "H x = H s'"
          using leaf(3) by auto
        have "x = s'" using x t(3) leaf(2) inj by (auto simp: policy_strings_def dest: inj_onD)
        then have "length (pair_string (foldl (pair H) (H s) (take (i - 1) p)) t) = 32"
          using len(1) leaf(2) t(2) by simp
        then have "length (foldl (pair H) (H s) (take (i - 1) p)) = 0" using len(3) t(1) by (simp add: length_pair_string)
        moreover have "foldl (pair H) (H s) (take (i - 1) p) \<in> H ` policy_strings H ss s p" using path leaf(1) by simp
        ultimately show ?thesis using H by (metis imageE list.size(3) length_0_conv zero_neq_numeral)
      qed
    next
      case inner
      then have "s = y" using inj by (auto simp: policy_strings_def dest: inj_onD)
      moreover have "length y = 64" using tree_strings_length[where H = H and level = "map H ss" and y = y] inner(1) H by simp
      ultimately show ?thesis using len(2) by simp
    qed
  qed
qed

end
