(* ===== verification/Sdk_Properties.thy ===== *)
theory Sdk_Properties
  imports Sdk Lock_Properties
begin

text \<open>
  The off-chain builder against the lock: both sides compute the same parameters, messages and
  tree, what the builder produces the lock accepts, and what the lock accepts was committed to.
\<close>

section \<open>Agreement of the two sides\<close>

text \<open>
  The lock reads back from the args exactly the parameters the SDK wrote, in both trust models,
  and the SDK's blocks have the lengths the lock dispatches on.
\<close>

theorem sdk_params_read_back:
  assumes "length owner = 20" and "length sh = 20" and "length root = 32" and "length g = 20"
  shows "parse_session_params (drop 20 (registered_args owner (sdk_session_params sh ex root cap g))) =
      Ok \<lparr>session_pubkey_hash = sh, expires_at = ex, policies_root = root, spend_cap = cap, guardian_pubkey_hash = g\<rparr>
    \<and> length (sdk_session_params sh ex root cap g) = SESSION_PARAMS_LEN
    \<and> length (registered_args owner (sdk_session_params sh ex root cap g)) = ARGS_LEN
    \<and> length (owner_only_args owner) = OWNER_ONLY_ARGS_LEN"
  using assms
  by (simp add: parse_session_params_eq registered_args_def sdk_session_params_def params_of_def lock_lens
      owner_only_args_def)

lemma sdk_params_read_back_witness:
  "length (registered_args (replicate 20 1) (sdk_session_params (replicate 20 2) 5000 WILDCARD_ROOT 30 (replicate 20 0))) = 116"
  using sdk_params_read_back[of "replicate 20 1" "replicate 20 2" WILDCARD_ROOT "replicate 20 0" 5000 30]
  by (simp add: WILDCARD_ROOT_def ARGS_LEN_def)

text \<open>
  Lock and SDK compute the same two messages: the digest of the transaction without its cell
  deps, and the digest the owner signs to bless a session at an epoch.
\<close>

theorem sdk_messages_agree:
  assumes "load_transaction V = Inr tx" and "length sh = 32" and "length pb = SESSION_PARAMS_LEN"
  shows "tx_message X V = Ok (sdk_tx_message X tx) \<and>
         session_auth_message X sh e pb = Ok (sdk_session_auth_message X sh e pb)"
  using assms
  by (simp add: tx_message_def sdk_tx_message_def session_auth_message_eq sdk_session_auth_message_def
      session_auth_preimage_def)

lemma sdk_messages_agree_witness:
  "tx_message sample_externals (vm_of registered_view) = Ok (sdk_tx_message sample_externals sample_tx)"
  using sdk_messages_agree[of "vm_of registered_view" sample_tx "replicate 32 0" sample_params sample_externals 0]
  by (simp add: vm_of_def registered_view_def lock_lens)

text \<open>The lock reads the epoch the SDK wrote into the account's data, the absent one included.\<close>

theorem sdk_epoch_read_back:
  assumes "lock_runs_on V v" and "account_data v = epoch_data e"
  shows "current_revocation_epoch V = Ok e"
  using assms(2) by (simp add: current_revocation_epoch_eq[OF assms(1)] epoch_of_def epoch_data_def)

lemma sdk_epoch_read_back_witness: "current_revocation_epoch (vm_of carried_view) = Ok 3"
  by (rule sdk_epoch_read_back[OF carried_runs(1)]) (simp add: carried_view_def epoch_data_def)

section \<open>Policy proofs\<close>

lemma length_concat_nodes: "\<forall>s \<in> set p. length s = 32 \<Longrightarrow> length (concat p) = 32 * length p"
  by (induction p) simp_all

lemma proof_region_frames:
  "proof_region es = concat (map encode_frame (map (\<lambda>(k, p). (k, concat p)) es))"
  if "\<forall>e \<in> set es. \<forall>s \<in> set (snd e). length s = 32"
  using that
proof (induction es)
  case (Cons e es)
  obtain k p where e: "e = (k, p)" by fastforce
  have "length (concat p) = 32 * length p" using Cons.prems e by (intro length_concat_nodes) simp
  with Cons e show ?case by (simp add: proof_region_def encode_frame_def)
qed (simp add: proof_region_def)

text \<open>
  Completeness of the policy tree: for every leaf of a tree, the SDK's proof exists, is short
  enough for the one-byte length of its frame, and satisfies the lock's own verifier.
\<close>

theorem sdk_proof_accepted_by_lock:
  assumes "\<And>b. length (H b) = 32" and "\<forall>l \<in> set leaves. length l = 32"
    and "i < length leaves" and "length leaves \<le> 2 ^ 255"
  shows "\<exists>root p. merkle_root H leaves = Ok root \<and> merkle_proof H leaves i = Ok p \<and>
           length p < 256 \<and> merkle_verify H root (leaves ! i) (concat p) \<and> sdk_merkle_verify H root (leaves ! i) p"
proof -
  obtain p where p: "merkle_proof H leaves i = Ok p" "merkle_root H leaves = Ok (foldl (pair H) (leaves ! i) p)"
    using merkle_root_complete[OF assms(3)] by blast
  then have l: "merkle_proof_loop H leaves i = Ok p" by (simp add: merkle_proof_def)
  have "\<forall>s \<in> set p. length s = 32" using merkle_proof_siblings[OF assms(1) l assms(2)] .
  moreover have "length p \<le> 255" using merkle_proof_height[OF l assms(4)] .
  ultimately show ?thesis
    using p merkle_verify_concat[of p] by (auto simp: pair_hash_pair sdk_merkle_verify_def)
qed

lemma sdk_proof_accepted_by_lock_witness:
  "\<exists>root p. merkle_root sample_hash [replicate 32 1, replicate 32 2, replicate 32 3] = Ok root \<and>
     merkle_verify sample_hash root (replicate 32 3) (concat p)"
proof -
  have "length [replicate 32 (1 :: byte), replicate 32 2, replicate 32 3] \<le> 2 ^ 255"
    using self_le_power[of 2 255] by (simp add: order_trans[of 3 "2 ^ 2"] power_increasing)
  from sdk_proof_accepted_by_lock[of sample_hash "[replicate 32 1, replicate 32 2, replicate 32 3]" 2, OF _ _ _ this]
  show ?thesis by (auto simp: numeral_2_eq_2)
qed

text \<open>
  Soundness of the policy tree: a script hash whose path the lock's verifier accepts against the
  root the SDK computed for a list of script hashes is one of that list, provided the digest is
  injective on the strings hashed by this tree and this path and sends none of them to the
  padding node.  No global absence of collisions is assumed, and paths of any length are covered.
\<close>

theorem policy_tree_sound:
  assumes "\<And>b. length (H b) = 32" and "\<forall>x \<in> set ss. length x = 32" and "length s = 32"
    and "\<forall>x \<in> set p. length x = 32" and "merkle_root H (map H ss) = Ok root"
    and "inj_on H (policy_strings H ss s p)" and "ZERO_NODE \<notin> H ` policy_strings H ss s p"
    and "merkle_verify H root (H s) (concat p)"
  shows "s \<in> set ss"
  using merkle_sound[where H = H and ss = ss and s = s and p = p and root = root] assms
    merkle_verify_concat[of p H root "H s"]
  by (simp add: pair_hash_pair)

text \<open>A digest that is injective on short strings, for one tree of two policies.\<close>

definition tag_hash :: "bytes \<Rightarrow> bytes" where
  "tag_hash b = take 32 (of_nat (length b) # take 1 b @ take 1 (drop 32 b) @ take 1 (drop 33 b) @ replicate 32 0)"

lemma length_tag_hash [simp]: "length (tag_hash b) = 32"
  by (simp add: tag_hash_def)

lemma policy_tree_sound_witness: "replicate 32 1 \<in> set [replicate 32 1, replicate 32 (2 :: byte)]"
proof -
  let ?s = "replicate 32 (1 :: byte)" and ?t = "replicate 32 (2 :: byte)"
  have l: "tag_hash ?s = 32 # 1 # replicate 30 0" "tag_hash ?t = 32 # 2 # replicate 30 0"
    by (simp_all add: tag_hash_def)
  define y :: bytes where "y = (32 # 1 # replicate 30 0) @ (32 # 2 # replicate 30 0)"
  have y: "pair_string (32 # 1 # replicate 30 0) (32 # 2 # replicate 30 0) = y"
    by (simp add: pair_string_def y_def)
  have ty: "tag_hash y = 64 # 32 # 32 # 2 # replicate 28 0" by (simp add: y_def tag_hash_def)
  have z: "ZERO_NODE = 0 # replicate 31 0" by (simp add: ZERO_NODE_def flip: replicate_Suc)
  have ts: "tree_strings tag_hash [32 # 1 # replicate 30 0, 32 # 2 # replicate 30 0] = [y]"
    by (simp add: tree_strings.simps[of tag_hash "[a, b]" for a b] tree_strings.simps[of tag_hash "[x]" for x]
        pad_level_def fold_level_def y)
  have strings: "policy_strings tag_hash [?s, ?t] ?s [tag_hash ?t] = {?s, ?t, y}"
    by (auto simp: policy_strings_def l y ts)
  have root: "merkle_root tag_hash (map tag_hash [?s, ?t]) = Ok (tag_hash y)"
    by (simp add: merkle_root_def merkle_loop.simps[of tag_hash "[a, b]" for a b]
        merkle_loop.simps[of tag_hash "[x]" for x] fold_level_def pad_level_def pair_def l y)
  show ?thesis
  proof (rule policy_tree_sound[of tag_hash _ _ "[tag_hash ?t]"])
    show "inj_on tag_hash (policy_strings tag_hash [?s, ?t] ?s [tag_hash ?t])"
      unfolding strings by (auto simp: inj_on_def l ty)
    show "ZERO_NODE \<notin> tag_hash ` policy_strings tag_hash [?s, ?t] ?s [tag_hash ?t]"
      unfolding strings by (simp add: l ty) (simp add: z)
    show "merkle_verify tag_hash (tag_hash y) (tag_hash ?s) (concat [tag_hash ?t])"
      using merkle_verify_concat[of "[tag_hash ?t]" tag_hash "tag_hash y" "tag_hash ?s"]
      by (simp add: l y flip: pair_hash_pair) (simp add: pair_def y)
  qed (use root in simp_all)
qed

section \<open>Sessions built and sessions accepted\<close>

text \<open>
  What the builder has to do for a scoped session: one entry per foreign output, in order, each the
  tree's proof for the position of the output's type-script or lock-script hash in the policy list.
\<close>

definition policy_entry :: "externals \<Rightarrow> bytes list \<Rightarrow> byte \<times> bytes list \<Rightarrow> cell \<Rightarrow> bool" where
  "policy_entry X hashes e c \<longleftrightarrow>
     (\<exists>i < length hashes. merkle_proof (blake2b_256 X) (map (policy_leaf X) hashes) i = Ok (snd e) \<and>
        (fst e = POLICY_KIND_TYPE \<and> (\<exists>t. co_type (fst c) = Some t \<and> hashes ! i = calc_script_hash X t) \<or>
         fst e = POLICY_KIND_LOCK \<and> hashes ! i = calc_script_hash X (co_lock (fst c))))"

lemma policy_entry_admits:
  assumes X: "digests_32 X" and len: "length hashes \<le> 2 ^ 255"
    and root: "merkle_root (blake2b_256 X) (map (policy_leaf X) hashes) = Ok root"
    and e: "policy_entry X hashes (k, p) c"
  shows "frame_admits X root (k, concat p) c \<and> (\<forall>s \<in> set p. length s = 32)"
proof -
  let ?H = "blake2b_256 X" and ?ls = "map (policy_leaf X) hashes"
  have H: "length (?H b) = 32" for b using X by (simp add: digests_32_def)
  obtain i where i: "i < length hashes" "merkle_proof ?H ?ls i = Ok p"
    and k: "k = POLICY_KIND_TYPE \<and> (\<exists>t. co_type (fst c) = Some t \<and> hashes ! i = calc_script_hash X t) \<or>
         k = POLICY_KIND_LOCK \<and> hashes ! i = calc_script_hash X (co_lock (fst c))"
    using e by (auto simp: policy_entry_def)
  have l: "merkle_proof_loop ?H ?ls i = Ok p" using i(2) by (simp add: merkle_proof_def)
  have sib: "\<forall>s \<in> set p. length s = 32"
    using merkle_proof_siblings[OF H l] H by (auto simp: policy_leaf_def)
  have "length p \<le> 255" using merkle_proof_height[OF l, of 255] len by simp
  moreover have "root = foldl (pair ?H) (?H (hashes ! i)) p"
    using merkle_root_complete[of i ?ls ?H] i root by (auto simp: policy_leaf_def)
  then have "merkle_verify ?H root (?H (hashes ! i)) (concat p)"
    using merkle_verify_concat[OF sib] by (simp add: pair_hash_pair)
  ultimately show ?thesis
    using k sib length_concat_nodes[OF sib] by (auto simp: frame_admits_def)
qed

lemma policy_entries_admit:
  assumes X: "digests_32 X" and len: "length hashes \<le> 2 ^ 255"
    and root: "merkle_root (blake2b_256 X) (map (policy_leaf X) hashes) = Ok root"
    and es: "list_all2 (policy_entry X hashes) es cs"
  shows "list_all2 (frame_admits X root) (map (\<lambda>(k, p). (k, concat p)) es) cs \<and>
         proof_region es = concat (map encode_frame (map (\<lambda>(k, p). (k, concat p)) es))"
proof
  show "list_all2 (frame_admits X root) (map (\<lambda>(k, p). (k, concat p)) es) cs"
    unfolding list_all2_map1
  proof (rule list_all2_mono[OF es])
    fix e c assume "policy_entry X hashes e c"
    then show "frame_admits X root (case e of (k, p) \<Rightarrow> (k, concat p)) c"
      using policy_entry_admits[OF X len root, of "fst e" "snd e" c] by (cases e) simp
  qed
  have "\<forall>e \<in> set es. \<forall>s \<in> set (snd e). length s = 32"
  proof
    fix e assume "e \<in> set es"
    then obtain c where "policy_entry X hashes e c"
      using es by (metis in_set_conv_nth list_all2_conv_all_nth)
    with policy_entry_admits[OF X len root, of "fst e" "snd e" c] show "\<forall>s \<in> set (snd e). length s = 32" by simp
  qed
  then show "proof_region es = concat (map encode_frame (map (\<lambda>(k, p). (k, concat p)) es))"
    by (rule proof_region_frames)
qed

lemma granted_session_accepted:
  assumes "hex_is_text X" and "digests_32 X" and "lock_runs_on V v" and "length (lv_group v) = 1"
    and "length (s_args (lv_script v)) \<in> {ARGS_LEN, OWNER_ONLY_ARGS_LEN}"
    and "lv_witness v = Inr wa" and "wa_lock wa = Some (MODE_SESSION # rest)"
    and "granted X V v rest p (ss @ opt_bytes gs @ proof_region es)"
    and "session_pubkey_hash p \<noteq> replicate 20 0"
    and "signed_by X V (session_pubkey_hash p) (sdk_tx_message X (lv_tx v)) ss"
    and "case gs of None \<Rightarrow> guardian_pubkey_hash p = replicate 20 0
         | Some s \<Rightarrow> guardian_pubkey_hash p \<noteq> replicate 20 0 \<and> signed_by X V (guardian_pubkey_hash p) (sdk_tx_message X (lv_tx v)) s"
    and "policies_root p = WILDCARD_ROOT \<or> length hashes \<le> 2 ^ 255 \<and>
         merkle_root (blake2b_256 X) (map (policy_leaf X) hashes) = Ok (policies_root p) \<and>
         list_all2 (policy_entry X hashes) es (foreign_cells (lv_script v) (lv_outputs v))"
    and "unexpired v p" and "account_intact v" and "within_cap v p"
  shows "auth X V = Ok ()"
proof -
  let ?r = "ss @ opt_bytes gs @ proof_region es"
  have msg: "sdk_tx_message X (lv_tx v) = signed_message X v"
    by (simp add: sdk_tx_message_def signed_message_def)
  have "co_signed X V v p ?r (proof_region es)"
    using assms(10,11) unfolding co_signed_def msg by (cases gs) (auto simp: opt_bytes_def)
  moreover have "in_scope X v p (proof_region es)"
    using assms(12) policy_entries_admit[OF assms(2), of hashes "policies_root p" es] unfolding in_scope_def
    by (auto; metis append.right_neutral)
  ultimately have "session_unlocks X V v rest"
    using assms(8,9,13-15) unfolding session_unlocks_def by blast
  then have "lock_accepts X V v" using assms(4-7) by (simp add: lock_accepts_def)
  then show ?thesis using auth_refines[OF assms(1,3)] by simp
qed

lemma sdk_params_of:
  assumes "length sh = 20" and "length root = 32" and "length g = 20"
  shows "params_of (sdk_session_params sh ex root cap g) =
    \<lparr>session_pubkey_hash = sh, expires_at = ex, policies_root = root, spend_cap = cap, guardian_pubkey_hash = g\<rparr>"
  using assms by (simp add: params_of_def sdk_session_params_def)

lemma built_session_accepted:
  assumes "hex_is_text X" and "digests_32 X" and "lock_runs_on V v" and "length (lv_group v) = 1"
    and "length owner = 20" and "length sh = 20" and "length root = 32" and "length g = 20"
    and "s_args (lv_script v) = registered_args owner (sdk_session_params sh ex root cap g)"
    and "lv_witness v = Inr wa" and "wa_lock wa = Some (MODE_SESSION # ss @ opt_bytes gs @ proof_region es)"
    and "sh \<noteq> replicate 20 0" and "signed_by X V sh (sdk_tx_message X (lv_tx v)) ss"
    and "case gs of None \<Rightarrow> g = replicate 20 0
         | Some s \<Rightarrow> g \<noteq> replicate 20 0 \<and> signed_by X V g (sdk_tx_message X (lv_tx v)) s"
    and "root = WILDCARD_ROOT \<or> length hashes \<le> 2 ^ 255 \<and>
         merkle_root (blake2b_256 X) (map (policy_leaf X) hashes) = Ok root \<and>
         list_all2 (policy_entry X hashes) es (foreign_cells (lv_script v) (lv_outputs v))"
    and "unexpired v (params_of (sdk_session_params sh ex root cap g))"
    and "account_intact v" and "within_cap v (params_of (sdk_session_params sh ex root cap g))"
  shows "auth X V = Ok ()"
proof -
  note p = sdk_params_of[OF assms(6-8), of ex cap]
  have len: "length (s_args (lv_script v)) = ARGS_LEN"
    using assms(5-9) by (simp add: registered_args_def sdk_session_params_def lock_lens)
  have "granted X V v r (params_of (sdk_session_params sh ex root cap g)) r" for r
    using len assms(5,9) by (simp add: granted_def registered_args_def)
  note accepted = granted_session_accepted[OF assms(1-4) _ assms(10,11) this, unfolded p session_params.simps]
  show ?thesis
    by (rule accepted[OF _ assms(12-15) assms(16)[unfolded p] assms(17) assms(18)[unfolded p]]) (simp add: len)
qed

text \<open>
  A session built with the SDK is accepted by the lock: registered args, the registered witness
  with the two signatures over the SDK's message, and a framed proof for every foreign output make
  a transaction that keeps the account, the expiry and the cap pass, wildcard or scoped, with or
  without a guardian.
\<close>

theorem sdk_session_accepted:
  assumes "hex_is_text X" and "digests_32 X" and "lock_runs_on V v" and "length (lv_group v) = 1"
    and "length owner = 20" and "length sh = 20" and "length root = 32" and "length g = 20"
    and "s_args (lv_script v) = registered_args owner (sdk_session_params sh ex root cap g)"
    and "lv_witness v = Inr wa" and "wa_lock wa = Some (MODE_SESSION # ss @ opt_bytes gs @ proof_region es)"
    and "sh \<noteq> replicate 20 0" and "signed_by X V sh (sdk_tx_message X (lv_tx v)) ss"
    and "case gs of None \<Rightarrow> g = replicate 20 0
         | Some s \<Rightarrow> g \<noteq> replicate 20 0 \<and> signed_by X V g (sdk_tx_message X (lv_tx v)) s"
    and "root = WILDCARD_ROOT \<or> length hashes \<le> 2 ^ 255 \<and>
         merkle_root (blake2b_256 X) (map (policy_leaf X) hashes) = Ok root \<and>
         list_all2 (policy_entry X hashes) es (foreign_cells (lv_script v) (lv_outputs v))"
    and "unexpired v (params_of (sdk_session_params sh ex root cap g))"
    and "account_intact v" and "within_cap v (params_of (sdk_session_params sh ex root cap g))"
  shows "auth X V = Ok ()"
  by (rule built_session_accepted[OF assms])

lemma length_other_leaf: "length other_leaf = 32"
  by (simp add: other_leaf_def)

lemma sdk_session_accepted_witness: "auth sample_externals (vm_of scoped_view) = Ok ()"
proof -
  let ?H = "blake2b_256 sample_externals" and ?hs = "[sample_hash (flat_script other_script)]"
  have root: "merkle_root ?H (map (policy_leaf sample_externals) ?hs) = Ok other_leaf"
    and path: "merkle_proof ?H (map (policy_leaf sample_externals) ?hs) 0 = Ok []"
    by (simp_all add: merkle_root_def merkle_proof_def merkle_loop.simps[of sample_hash "[x]" for x]
        merkle_proof_loop.simps[of sample_hash "[x]" for x] policy_leaf_def other_leaf_def)
  have es: "list_all2 (policy_entry sample_externals ?hs) [(POLICY_KIND_LOCK, [])]
      (foreign_cells (lv_script scoped_view) (lv_outputs scoped_view))"
    using scoped_outputs(2) path by (auto simp: policy_entry_def scoped_view_def)
  have params: "sdk_session_params (replicate 20 2) NO_EXPIRY other_leaf 30 (replicate 20 7) = scoped_params"
    by (simp add: sdk_session_params_def scoped_params_def)
  have m: "sdk_tx_message sample_externals (lv_tx scoped_view) = sample_message"
    using sample_signed_message[of scoped_script MODE_SESSION scoped_rest]
    by (simp add: sdk_tx_message_def signed_message_def scoped_view_def)
  have keep: "account_intact scoped_view" "within_cap scoped_view (params_of scoped_params)"
      "unexpired scoped_view (params_of scoped_params)"
    using scoped_outputs(1) by (simp_all add: account_intact_def account_kept_def scoped_view_def view_with_def account_data_def
        sample_outputs_def same_code_def sample_script_def scoped_script_def other_script_def within_cap_def
        scoped_params_of unexpired_def)
  show ?thesis
  proof (rule sdk_session_accepted[OF sample_hex_is_text sample_digests_32 scoped_runs(1)])
    show "lv_witness scoped_view = Inr \<lparr>wa_lock = Some (MODE_SESSION # scoped_rest), wa_input_type = None, wa_output_type = None\<rparr>"
      by (simp add: scoped_view_def)
    show "wa_lock \<lparr>wa_lock = Some (MODE_SESSION # scoped_rest), wa_input_type = None, wa_output_type = None\<rparr> =
        Some (MODE_SESSION # sample_sign (replicate 20 2) sample_message @
          opt_bytes (Some (sample_sign (replicate 20 7) sample_message)) @ proof_region [(POLICY_KIND_LOCK, [])])"
      by (simp add: scoped_rest_def opt_bytes_def proof_region_def encode_frame_def)
    show "s_args (lv_script scoped_view) = registered_args (replicate 20 1)
        (sdk_session_params (replicate 20 2) NO_EXPIRY other_leaf 30 (replicate 20 7))"
      by (simp add: params scoped_view_def scoped_args registered_args_def)
    show "other_leaf = WILDCARD_ROOT \<or> length ?hs \<le> 2 ^ 255 \<and>
        merkle_root ?H (map (policy_leaf sample_externals) ?hs) = Ok other_leaf \<and>
        list_all2 (policy_entry sample_externals ?hs) [(POLICY_KIND_LOCK, [])]
          (foreign_cells (lv_script scoped_view) (lv_outputs scoped_view))"
      using root es by (intro disjI2 conjI) simp_all
  qed (use keep m sample_signature_accepted in \<open>simp_all add: params length_other_leaf, simp_all add: scoped_view_def\<close>)
qed




end
