(* ===== verification/Sdk_Witnesses.thy ===== *)
theory Sdk_Witnesses
  imports Sdk_Properties
begin

text \<open>
  The witnesses of sdk/src/lib.rs as the lock reads them: the owner's, and the one that carries a
  session the owner granted off-chain.  The molecule crate reads a witness back as it was written.
\<close>

definition reads_witness :: "externals \<Rightarrow> (bytes \<Rightarrow> sys_error + witness_args) \<Rightarrow> bool" where
  "reads_witness X rd \<longleftrightarrow>
     (\<forall>l. rd (molecule_witness_args X \<lparr>wa_lock = Some l, wa_input_type = None, wa_output_type = None\<rparr>) =
        Inr \<lparr>wa_lock = Some l, wa_input_type = None, wa_output_type = None\<rparr>)"

lemma wrapped_witness:
  "reads_witness X rd \<Longrightarrow> rd (wrap_lock X l) = Inr \<lparr>wa_lock = Some l, wa_input_type = None, wa_output_type = None\<rparr>"
  by (simp add: reads_witness_def wrap_lock_def)

section \<open>The owner\<close>

lemma owner_witness_lock:
  assumes "reads_witness X rd" and "lv_witness v = rd (owner_witness X sg)"
  shows "lv_witness v = Inr \<lparr>wa_lock = Some (MODE_OWNER # sg), wa_input_type = None, wa_output_type = None\<rparr>"
  using assms by (simp add: owner_witness_def wrapped_witness)

text \<open>
  C3: the owner keeps control.  With the SDK's owner witness an account of either kind opens exactly
  when the signature verifies for the owner's key and the message the SDK shows for this
  transaction, whatever the outputs do: session parameters, expiry, spend cap, policies, revocation
  epoch and the guardian have no say.
\<close>

theorem owner_keeps_control:
  assumes "hex_is_text X" and "lock_runs_on V v" and "length (lv_group v) = 1"
    and "s_args (lv_script v) \<in> {owner_only_args owner, registered_args owner params}"
    and "length owner = 20" and "length params = SESSION_PARAMS_LEN"
    and "reads_witness X rd" and "lv_witness v = rd (owner_witness X sg)" and "length sg = LOCK_SIGNATURE_LEN"
  shows "auth X V = Ok () \<longleftrightarrow> signed_by X V owner (sdk_tx_message X (lv_tx v)) sg"
proof -
  have len: "length (s_args (lv_script v)) \<in> {ARGS_LEN, OWNER_ONLY_ARGS_LEN}" and own: "owner_of v = owner"
    using assms(4-6) by (auto simp: owner_only_args_def registered_args_def lock_lens owner_of_def)
  have msg: "sdk_tx_message X (lv_tx v) = signed_message X v" by (simp add: sdk_tx_message_def signed_message_def)
  have "owner_unlocks X V v sg \<longleftrightarrow> signed_by X V owner (signed_message X v) sg"
    using assms(9) by (auto simp: owner_unlocks_def own signed_by_def)
  then have "lock_accepts X V v \<longleftrightarrow> signed_by X V owner (signed_message X v) sg"
    using len assms(3) owner_witness_lock[OF assms(7,8)] by (auto simp: lock_accepts_def MODE_OWNER_def MODE_SESSION_def)
  then show ?thesis using auth_refines[OF assms(1,2)] msg by simp
qed

definition sample_reader :: "bytes \<Rightarrow> sys_error + witness_args" where
  "sample_reader l = Inr \<lparr>wa_lock = Some l, wa_input_type = None, wa_output_type = None\<rparr>"

lemma sample_reads_witness: "reads_witness sample_externals sample_reader"
  by (simp add: reads_witness_def sample_reader_def)

lemma owner_keeps_control_witness: "auth sample_externals (vm_of owner_view) = Ok ()"
proof -
  have v: "lv_witness owner_view = sample_reader (owner_witness sample_externals (sample_sign (replicate 20 1) sample_message))"
    "s_args (lv_script owner_view) = registered_args (replicate 20 1) sample_params" "length (lv_group owner_view) = 1"
    by (simp_all add: owner_view_def owner_witness_def wrap_lock_def sample_reader_def sample_script_def registered_args_def)
  have r: "lock_runs_on (vm_of owner_view) owner_view" unfolding owner_view_def by (rule lock_runs_on_view_with)
  have m: "sdk_tx_message sample_externals (lv_tx owner_view) = sample_message"
    using sample_signed_message[of sample_script MODE_OWNER "sample_sign (replicate 20 1) sample_message"]
    by (simp add: owner_view_def sdk_tx_message_def signed_message_def)
  show ?thesis
    using owner_keeps_control[OF sample_hex_is_text r v(3) _ _ _ sample_reads_witness v(1), of "replicate 20 1" sample_params]
      sample_signature_accepted[of owner_view "replicate 20 1" sample_message]
    by (simp add: v(2) m lock_lens)
qed

section \<open>Carried sessions\<close>

text \<open>
  C4: a session the owner granted off-chain is accepted: on an owner-only account whose data is the
  SDK's for the current epoch, the SDK's parameters with the owner's signature over the SDK's
  authorization message for this account and epoch, the session's and the guardian's signatures and
  a framed proof for every foreign output, all in the SDK's carried witness, open the account for a
  transaction that keeps it, is in time and stays within the cap.
\<close>

theorem sdk_carried_accepted:
  assumes "hex_is_text X" and "digests_32 X" and "lock_runs_on V v" and "length (lv_group v) = 1"
    and "s_args (lv_script v) = owner_only_args owner" and "account_data v = epoch_data epoch"
    and "length owner = 20" and "length sh = 20" and "length root = 32" and "length g = 20"
    and "params = sdk_session_params sh ex root cap g"
    and "signed_by X V owner (sdk_session_auth_message X (lv_script_hash v) epoch params) oa"
    and "reads_witness X rd" and "lv_witness v = rd (session_witness_carried X params oa ss gs (proof_region es))"
    and "sh \<noteq> replicate 20 0" and "signed_by X V sh (sdk_tx_message X (lv_tx v)) ss"
    and "case gs of None \<Rightarrow> g = replicate 20 0
         | Some s \<Rightarrow> g \<noteq> replicate 20 0 \<and> signed_by X V g (sdk_tx_message X (lv_tx v)) s"
    and "root = WILDCARD_ROOT \<or> length hashes \<le> 2 ^ 255 \<and>
         merkle_root (blake2b_256 X) (map (policy_leaf X) hashes) = Ok root \<and>
         list_all2 (policy_entry X hashes) es (foreign_cells (lv_script v) (lv_outputs v))"
    and "unexpired v (params_of params)" and "account_intact v" and "within_cap v (params_of params)"
  shows "auth X V = Ok ()"
proof -
  let ?r = "ss @ opt_bytes gs @ proof_region es"
  note p = sdk_params_of[OF assms(8-10), of ex cap, folded assms(11)]
  have len: "length (s_args (lv_script v)) = OWNER_ONLY_ARGS_LEN" "owner_of v = owner" "length params = SESSION_PARAMS_LEN"
    using assms(5,7-11) by (simp_all add: owner_only_args_def lock_lens owner_of_def sdk_session_params_def)
  have wit: "lv_witness v = Inr \<lparr>wa_lock = Some (MODE_SESSION # params @ oa @ ?r), wa_input_type = None, wa_output_type = None\<rparr>"
    using assms(14) by (simp add: session_witness_carried_def wrapped_witness[OF assms(13)])
  have "epoch_of (account_data v) = epoch" by (simp add: assms(6) epoch_of_def epoch_data_def)
  then have "granted X V v (params @ oa @ ?r) (params_of params) ?r"
    using len assms(12) unfolding granted_def
    by (intro disjI2 conjI exI[of _ params] exI[of _ oa])
       (simp_all add: sdk_session_auth_message_def session_auth_preimage_def)
  note accepted = granted_session_accepted[OF assms(1-4) _ wit witness_args.select_convs(1) this, unfolded p session_params.simps]
  show ?thesis
    by (rule accepted[OF _ assms(15-18) assms(19)[unfolded p] assms(20) assms(21)[unfolded p]]) (simp add: len)
qed

lemma sdk_carried_accepted_witness: "auth sample_externals (vm_of carried_view) = Ok ()"
proof -
  let ?m = "sample_hash (session_auth_preimage (sample_hash (flat_script bare_script)) 3 sample_params)"
  have m: "sdk_session_auth_message sample_externals (lv_script_hash carried_view) 3 sample_params = ?m"
    by (simp add: sdk_session_auth_message_def session_auth_preimage_def carried_view_def)
  have params: "sample_params = sdk_session_params (replicate 20 2) 5000 WILDCARD_ROOT 30 (replicate 20 0)"
    by (simp add: sample_params_def sdk_session_params_def)
  have tx: "sdk_tx_message sample_externals (lv_tx carried_view) = sample_message"
    using sample_signed_message[of bare_script] by (simp add: carried_view_def sdk_tx_message_def signed_message_def)
  have wit: "lv_witness carried_view = sample_reader (session_witness_carried sample_externals sample_params
      (sample_sign (replicate 20 1) ?m) (sample_sign (replicate 20 2) sample_message) None (proof_region []))"
    by (simp add: carried_view_def session_witness_carried_def wrap_lock_def sample_reader_def opt_bytes_def proof_region_def)
  have keep: "unexpired carried_view (params_of sample_params)" "account_intact carried_view"
      "within_cap carried_view (params_of sample_params)"
    by (auto simp: unexpired_def sample_params_of account_intact_def carried_view_def view_with_def account_data_def account_kept_def
        sample_outputs_def same_code_def sample_script_def bare_script_def other_script_def within_cap_def own_cells_def capacity_sum_def)
  have own: "lv_script carried_view = bare_script" "account_data carried_view = epoch_data 3" "length (lv_group carried_view) = 1"
    by (simp_all add: carried_view_def epoch_data_def)
  show ?thesis
    by (rule sdk_carried_accepted[OF sample_hex_is_text sample_digests_32 carried_runs(1) own(3) _ own(2) _ _ _ _ params
          sample_signature_accepted[of carried_view "replicate 20 1" ?m, folded m] sample_reads_witness wit[folded m tx] _
          sample_signature_accepted[of carried_view "replicate 20 2" sample_message, folded tx] _ _ keep])
       (simp_all add: own(1) bare_script_def owner_only_args_def WILDCARD_ROOT_def)
qed

end
