(* ===== verification/Codec.thy ===== *)
theory Codec
  imports Prelude
begin

text \<open>
  The interface between a wire format and its users.  A \<open>codec\<close> promises that decoding
  inverts encoding on valid values and that whatever decodes is the encoding of a valid value,
  for the inputs the decoder is handed (\<open>framed\<close>); in a \<open>fixed_codec\<close> every value takes the
  same number of bytes and every input of that length decodes.  The players of a game
  state and the intents of a batch are arrays of fixed-width records read by the same loop, whose
  correctness is proved once here.
\<close>

text \<open>
  The loop \<open>for i in 0..n { let off = base + i * width; out.push(decode(&b[off..off + width])?) }\<close>
  of \<open>GameState::decode\<close> and \<open>decode_batch\<close>.
\<close>

definition read_chunks ::
  "(bytes \<Rightarrow> ('e, 'a) result) \<Rightarrow> nat \<Rightarrow> nat \<Rightarrow> nat \<Rightarrow> bytes \<Rightarrow> ('e, 'a list) result" where
  "read_chunks dec width base n b =
     traverse (\<lambda>i. let off = base + i * width
                    in andThen (slice b off (off + width)) dec) [0..<n]"

locale codec =
  fixes enc :: "'a \<Rightarrow> bytes"
    and dec :: "bytes \<Rightarrow> ('e, 'a) result"
    and valid :: "'a \<Rightarrow> bool"
    and framed :: "bytes \<Rightarrow> bool"
  assumes enc_framed: "valid x \<Longrightarrow> framed (enc x)"
    and dec_enc: "valid x \<Longrightarrow> dec (enc x) = Ok x"
    and dec_sound: "framed b \<Longrightarrow> dec b = Ok x \<Longrightarrow> valid x \<and> enc x = b"
begin

lemma dec_Ok_iff: "framed b \<Longrightarrow> dec b = Ok x \<longleftrightarrow> valid x \<and> b = enc x"
  using dec_enc dec_sound by blast

lemma enc_inj: "valid x \<Longrightarrow> valid y \<Longrightarrow> enc x = enc y \<Longrightarrow> x = y"
  using dec_enc by (metis sum.inject(2))

lemma dec_inj: "framed a \<Longrightarrow> framed b \<Longrightarrow> dec a = Ok x \<Longrightarrow> dec b = Ok x \<Longrightarrow> a = b"
  using dec_sound by blast

end

locale fixed_codec = codec enc dec valid "\<lambda>b. length b = width"
  for enc :: "'a \<Rightarrow> bytes" and dec :: "bytes \<Rightarrow> ('e, 'a) result" and valid :: "'a \<Rightarrow> bool"
    and width :: nat +
  assumes dec_total: "length b = width \<Longrightarrow> \<exists>x. dec b = Ok x"
begin

lemmas enc_length = enc_framed

lemma concat_length: "\<forall>x \<in> set xs. valid x \<Longrightarrow> length (concat (map enc xs)) = length xs * width"
  by (induction xs) (auto simp: enc_length)

lemma chunk_nth:
  assumes "\<forall>x \<in> set xs. valid x" "i < length xs"
  shows "take width (drop (i * width) (concat (map enc xs))) = enc (xs ! i)"
  using assms
proof (induction xs arbitrary: i)
  case (Cons x xs)
  then show ?case by (cases i) (simp_all add: enc_length)
qed simp

lemma read_chunks_enc:
  assumes "\<forall>x \<in> set xs. valid x" "length h = base"
  shows "read_chunks dec width base (length xs) (h @ concat (map enc xs)) = Ok xs"
proof -
  have "andThen (slice (h @ concat (map enc xs)) (base + i * width) (base + i * width + width)) dec
        = Ok (xs ! i)" if "i < length xs" for i
  proof -
    have "Suc i * width \<le> length xs * width"
      using that by (intro mult_le_mono1) simp
    then show ?thesis
      using that assms by (simp add: concat_length chunk_nth dec_enc)
  qed
  then have "read_chunks dec width base (length xs) (h @ concat (map enc xs)) = Ok (map ((!) xs) [0..<length xs])"
    unfolding read_chunks_def Let_def by (intro traverse_map_Ok) simp
  then show ?thesis by (simp add: map_nth)
qed

lemma read_chunks_total:
  assumes "length b = base + n * width"
  shows "\<exists>xs. read_chunks dec width base n b = Ok xs"
proof -
  have "\<exists>x. andThen (slice b (base + i * width) (base + i * width + width)) dec = Ok x"
    if "i < n" for i
  proof -
    have "Suc i * width \<le> n * width" using that by (intro mult_le_mono1) simp
    with assms show ?thesis by (simp add: dec_total)
  qed
  then obtain g where
    "\<And>i. i < n \<Longrightarrow> andThen (slice b (base + i * width) (base + i * width + width)) dec = Ok (g i)"
    by metis
  then have "read_chunks dec width base n b = Ok (map g [0..<n])"
    unfolding read_chunks_def Let_def by (intro traverse_map_Ok) simp
  then show ?thesis ..
qed

lemma concat_of_chunks:
  assumes "length b = n * width" "length xs = n"
    and "\<And>i. i < n \<Longrightarrow> enc (xs ! i) = take width (drop (i * width) b)"
  shows "concat (map enc xs) = b"
  using assms
proof (induction xs arbitrary: b n)
  case (Cons x xs)
  have "concat (map enc xs) = drop width b"
  proof (rule Cons.IH[of _ "length xs"])
    fix i assume "i < length xs"
    with Cons.prems(2) Cons.prems(3)[of "Suc i"]
    show "enc (xs ! i) = take width (drop (i * width) (drop width b))"
      by (simp add: add.commute)
  qed (use Cons.prems in auto)
  with Cons.prems(2) Cons.prems(3)[of 0] show ?case by auto
qed simp

lemma read_chunks_sound:
  assumes len: "length b = base + n * width" and run: "read_chunks dec width base n b = Ok xs"
  shows "length xs = n \<and> (\<forall>x \<in> set xs. valid x) \<and> take base b @ concat (map enc xs) = b"
proof -
  have lxs: "length xs = n"
    using traverse_length[OF run[unfolded read_chunks_def]] by simp
  have step: "valid (xs ! i) \<and> enc (xs ! i) = take width (drop (i * width) (drop base b))"
    if "i < n" for i
    using traverse_nth[OF run[unfolded read_chunks_def], of i] that
    using dec_sound[of "take width (drop (base + i * width) b)" "xs ! i"]
    by (auto simp: result_simps Let_def add.commute)
  have "concat (map enc xs) = drop base b"
    by (rule concat_of_chunks[OF _ lxs]) (use len step in auto)
  moreover have "\<forall>x \<in> set xs. valid x"
    using step lxs by (auto simp: in_set_conv_nth)
  ultimately show ?thesis using lxs by simp
qed

end

end
