(* ===== verification/Game_Rules.thy ===== *)
theory Game_Rules
  imports Codec "HOL-Library.Multiset"
begin

text \<open>
  The crate game-rules (game-rules/src/lib.rs), compiled into the on-chain type script and into
  the off-chain stack: the board, the wire formats of states, intents and batches, and the
  transition function.  Definitions carry the names of the Rust items; \<open>blake2b_256\<close> is the
  argument \<open>H\<close> of the one function that hashes.  The \<open>&mut self\<close> methods return their result
  together with the state they leave behind, on the error paths too.
\<close>

section \<open>Data and constants\<close>

definition GAME_ID_LEN :: nat where "GAME_ID_LEN = 32"
definition SIGNATURE_LEN :: nat where "SIGNATURE_LEN = 65"
definition ENTRY_LEN :: nat where "ENTRY_LEN = 36"
definition INTENT_LEN :: nat where "INTENT_LEN = 101"
definition STATE_HEADER_LEN :: nat where "STATE_HEADER_LEN = 12"

definition INTENT_DOMAIN :: bytes where
  "INTENT_DOMAIN = ascii ''ckb-controller/game-intent/v1''"

definition MAX_POINTS_PER_MOVE :: u64 where "MAX_POINTS_PER_MOVE = 1000"

lemmas game_lens =
  GAME_ID_LEN_def SIGNATURE_LEN_def ENTRY_LEN_def INTENT_LEN_def STATE_HEADER_LEN_def

datatype game_error = StateMalformed | BatchMalformed | NonceNotFresh | PointsTooHigh | Overflow

record player_entry =
  p_hash :: bytes
  p_score :: u64
  p_nonce :: u64

record game_state =
  gs_seq :: u64
  gs_players :: "player_entry list"

record intent =
  i_hash :: bytes
  i_points :: u64
  i_nonce :: u64
  i_sig :: bytes

section \<open>The rule\<close>

definition apply_intent :: "game_state \<Rightarrow> intent \<Rightarrow> (game_error, unit) result \<times> game_state" where
  "apply_intent s i =
     (if i_points i > MAX_POINTS_PER_MOVE then (Err PointsTooHigh, s)
      else case position (\<lambda>p. p_hash p = i_hash i) (gs_players s) of
        Some k \<Rightarrow>
          (let p = gs_players s ! k in
           case checked_add (p_nonce p) 1 of
             None \<Rightarrow> (Err Overflow, s)
           | Some n \<Rightarrow>
               if i_nonce i \<noteq> n then (Err NonceNotFresh, s)
               else case checked_add (p_score p) (i_points i) of
                 None \<Rightarrow> (Err Overflow, s)
               | Some sc \<Rightarrow>
                   (Ok (), s\<lparr>gs_players := (gs_players s)[k := p\<lparr>p_score := sc, p_nonce := i_nonce i\<rparr>]\<rparr>))
      | None \<Rightarrow>
          if i_nonce i \<noteq> 1 then (Err NonceNotFresh, s)
          else (Ok (), s\<lparr>gs_players := gs_players s @
                  [\<lparr>p_hash = i_hash i, p_score = i_points i, p_nonce = 1\<rparr>]\<rparr>))"

text \<open>The loop of \<open>apply_batch\<close>: a failing intent returns at once, what was applied before it stays.\<close>

fun apply_intents :: "game_state \<Rightarrow> intent list \<Rightarrow> (game_error, unit) result \<times> game_state" where
  "apply_intents s [] = (Ok (), s)"
| "apply_intents s (i # is) =
     (case apply_intent s i of
        (Inl f, s') \<Rightarrow> (Inl f, s')
      | (Inr _, s') \<Rightarrow> apply_intents s' is)"

definition apply_batch :: "game_state \<Rightarrow> intent list \<Rightarrow> (game_error, unit) result \<times> game_state" where
  "apply_batch s is =
     (case apply_intents s is of
        (Inl f, s') \<Rightarrow> (Inl f, s')
      | (Inr _, s') \<Rightarrow>
          (case checked_add (gs_seq s') (of_nat (length is)) of
             None \<Rightarrow> (Err Overflow, s')
           | Some q \<Rightarrow> (Ok (), s'\<lparr>gs_seq := q\<rparr>)))"

definition empty_state :: game_state where
  "empty_state = \<lparr>gs_seq = 0, gs_players = []\<rparr>"

definition equals_unordered :: "game_state \<Rightarrow> game_state \<Rightarrow> bool" where
  "equals_unordered s t =
     (if gs_seq s \<noteq> gs_seq t \<or> length (gs_players s) \<noteq> length (gs_players t) then False
      else list_all (\<lambda>p. list_ex (\<lambda>q. p_hash q = p_hash p \<and> p_score q = p_score p \<and> p_nonce q = p_nonce p)
                          (gs_players t)) (gs_players s))"

section \<open>Wire formats\<close>

definition encode_entry :: "player_entry \<Rightarrow> bytes" where
  "encode_entry p = p_hash p @ u64_le (p_score p) @ u64_le (p_nonce p)"

definition decode_entry :: "bytes \<Rightarrow> (game_error, player_entry) result" where
  "decode_entry e =
     andThen (slice e 0 20) (\<lambda>h.
     andThen (slice e 20 28) (\<lambda>sc.
     andThen (slice e 28 36) (\<lambda>n.
       Ok \<lparr>p_hash = h, p_score = from_le sc, p_nonce = from_le n\<rparr>)))"

definition state_encode :: "game_state \<Rightarrow> bytes" where
  "state_encode s =
     u64_le (gs_seq s) @ to_le 4 (of_nat (length (gs_players s)) :: u32) @
     concat (map encode_entry (gs_players s))"

definition state_decode :: "bytes \<Rightarrow> (game_error, game_state) result" where
  "state_decode data =
     (if data = [] then Ok empty_state
      else if length data < STATE_HEADER_LEN then Err StateMalformed
      else
        andThen (slice data 0 8) (\<lambda>sq.
        andThen (slice data 8 12) (\<lambda>c.
        let count = unat (from_le c :: u32) in
        if length data \<noteq> STATE_HEADER_LEN + count * ENTRY_LEN then Err StateMalformed
        else
          andThen (read_chunks decode_entry ENTRY_LEN STATE_HEADER_LEN count data) (\<lambda>ps.
            Ok \<lparr>gs_seq = from_le sq, gs_players = ps\<rparr>))))"

definition intent_encode :: "intent \<Rightarrow> bytes" where
  "intent_encode i = i_hash i @ u64_le (i_points i) @ u64_le (i_nonce i) @ i_sig i"

definition intent_decode :: "bytes \<Rightarrow> (game_error, intent) result" where
  "intent_decode b =
     (if length b \<noteq> INTENT_LEN then Err BatchMalformed
      else
        andThen (slice b 0 20) (\<lambda>h.
        andThen (slice b 20 28) (\<lambda>p.
        andThen (slice b 28 36) (\<lambda>n.
        andThen (slice b 36 101) (\<lambda>sg.
          Ok \<lparr>i_hash = h, i_points = from_le p, i_nonce = from_le n, i_sig = sg\<rparr>)))))"

definition intent_preimage :: "bytes \<Rightarrow> bytes \<Rightarrow> u64 \<Rightarrow> u64 \<Rightarrow> bytes" where
  "intent_preimage game_id h points nonce =
     INTENT_DOMAIN @ game_id @ h @ u64_le points @ u64_le nonce"

definition intent_message ::
  "(bytes \<Rightarrow> bytes) \<Rightarrow> bytes \<Rightarrow> bytes \<Rightarrow> u64 \<Rightarrow> u64 \<Rightarrow> bytes" where
  "intent_message H game_id h points nonce = H (intent_preimage game_id h points nonce)"

definition encode_batch :: "intent list \<Rightarrow> bytes" where
  "encode_batch intents = to_le 2 (of_nat (length intents) :: u16) @ concat (map intent_encode intents)"

definition decode_batch :: "bytes \<Rightarrow> (game_error, intent list) result" where
  "decode_batch batch =
     (if length batch < 2 then Err BatchMalformed
      else
        andThen (slice batch 0 2) (\<lambda>c.
        let n = unat (from_le c :: u16) in
        if length batch \<noteq> 2 + n * INTENT_LEN then Err BatchMalformed
        else read_chunks intent_decode INTENT_LEN 2 n batch))"

section \<open>Well-formed values and the codecs\<close>

text \<open>What the fixed-size array types of the Rust structs say: \<open>[u8; 20]\<close> and \<open>[u8; 65]\<close>.\<close>

definition wf_entry :: "player_entry \<Rightarrow> bool" where
  "wf_entry p \<longleftrightarrow> length (p_hash p) = 20"

definition wf_intent :: "intent \<Rightarrow> bool" where
  "wf_intent i \<longleftrightarrow> length (i_hash i) = 20 \<and> length (i_sig i) = SIGNATURE_LEN"

definition wf_state :: "game_state \<Rightarrow> bool" where
  "wf_state s \<longleftrightarrow> list_all wf_entry (gs_players s) \<and> length (gs_players s) < 2 ^ 32"

definition wf_batch :: "intent list \<Rightarrow> bool" where
  "wf_batch is \<longleftrightarrow> list_all wf_intent is \<and> length is < 2 ^ 16"

text \<open>Entries and intents are fixed-width codecs.\<close>

interpretation entry: fixed_codec encode_entry decode_entry wf_entry ENTRY_LEN
proof
  fix p :: player_entry
  assume "wf_entry p"
  then show "decode_entry (encode_entry p) = Ok p" and "length (encode_entry p) = ENTRY_LEN"
    by (simp_all add: decode_entry_def encode_entry_def wf_entry_def game_lens)
next
  fix b p
  assume "length b = ENTRY_LEN" and "decode_entry b = Ok p"
  then show "wf_entry p \<and> encode_entry p = b"
    by (auto simp: decode_entry_def encode_entry_def wf_entry_def game_lens glue_append)
next
  fix b :: bytes
  assume "length b = ENTRY_LEN"
  then show "\<exists>p. decode_entry b = Ok p"
    by (simp add: decode_entry_def game_lens)
qed

interpretation intent: fixed_codec intent_encode intent_decode wf_intent INTENT_LEN
proof
  fix i :: intent
  assume "wf_intent i"
  then show "intent_decode (intent_encode i) = Ok i" and "length (intent_encode i) = INTENT_LEN"
    by (simp_all add: intent_decode_def intent_encode_def wf_intent_def game_lens)
next
  fix b i
  assume "length b = INTENT_LEN" and "intent_decode b = Ok i"
  then show "wf_intent i \<and> intent_encode i = b"
    by (auto simp: intent_decode_def intent_encode_def wf_intent_def game_lens glue_append)
next
  fix b :: bytes
  assume "length b = INTENT_LEN"
  then show "\<exists>i. intent_decode b = Ok i"
    by (simp add: intent_decode_def game_lens)
qed

text \<open>
  The length test of \<open>decode\<close> cannot overflow a 64-bit \<open>usize\<close>: a count is below \<open>2 ^ 32\<close>.
\<close>

lemma decode_len_fits_usize:
  "STATE_HEADER_LEN + unat (c :: u32) * ENTRY_LEN < usize_limit"
proof -
  have "unat c < 2 ^ 32" using unat_less_2p[of c] by simp
  then show ?thesis by (simp add: game_lens usize_limit_def)
qed

lemma state_encode_nonempty: "state_encode s \<noteq> []"
proof -
  have "0 < length (state_encode s)" by (simp add: state_encode_def)
  then show ?thesis by blast
qed

lemma state_decode_encode:
  assumes wf: "wf_state s"
  shows "state_decode (state_encode s) = Ok s"
proof -
  let ?n = "length (gs_players s)"
  let ?h = "u64_le (gs_seq s) @ to_le 4 (of_nat ?n :: u32)"
  let ?es = "concat (map encode_entry (gs_players s))"
  have enc: "state_encode s = ?h @ ?es" by (simp add: state_encode_def)
  have n: "unat (from_le (to_le 4 (of_nat ?n :: u32)) :: u32) = ?n"
    using wf by (simp add: from_to_le wf_state_def unat_of_nat_small)
  have r: "read_chunks decode_entry ENTRY_LEN STATE_HEADER_LEN ?n (?h @ ?es) = Ok (gs_players s)"
    using wf by (intro entry.read_chunks_enc) (auto simp: wf_state_def list_all_iff game_lens)
  have l: "length (?h @ ?es) = STATE_HEADER_LEN + ?n * ENTRY_LEN"
    using wf entry.concat_length[of "gs_players s"] by (simp add: wf_state_def list_all_iff game_lens)
  have c: "take 8 (?h @ ?es) = u64_le (gs_seq s)" "take 4 (drop 8 (?h @ ?es)) = to_le 4 (of_nat ?n :: u32)"
    by simp_all
  have "\<not> length (?h @ ?es) < STATE_HEADER_LEN" "12 \<le> length (?h @ ?es)"
    using l by (simp_all add: game_lens)
  then show ?thesis
    using state_encode_nonempty[of s] r l c n unfolding enc
    by (simp only: state_decode_def if_False slice_in_range Let_def andThen.simps game_lens)
       simp
qed

lemma state_decode_long:
  assumes "STATE_HEADER_LEN \<le> length b" and c: "c = (from_le (take 4 (drop 8 b)) :: u32)"
  shows "state_decode b =
    (if length b \<noteq> STATE_HEADER_LEN + unat c * ENTRY_LEN then Err StateMalformed
     else andThen (read_chunks decode_entry ENTRY_LEN STATE_HEADER_LEN (unat c) b)
            (\<lambda>ps. Ok \<lparr>gs_seq = from_le (take 8 b), gs_players = ps\<rparr>))"
proof -
  have "b \<noteq> []" "\<not> length b < STATE_HEADER_LEN" "12 \<le> length b"
    using assms(1) by (auto simp: game_lens)
  then have s: "slice b 0 8 = Ok (take 8 b)" "slice b 8 12 = Ok (take 4 (drop 8 b))"
    by simp_all
  show ?thesis
    unfolding state_decode_def s andThen.simps Let_def c
    using \<open>b \<noteq> []\<close> \<open>\<not> length b < STATE_HEADER_LEN\<close> by (simp only: if_False)
qed

lemma state_decode_OkE:
  assumes ne: "b \<noteq> []" and d: "state_decode b = Ok s" and c: "c = (from_le (take 4 (drop 8 b)) :: u32)"
  obtains ps where 
    "length b = STATE_HEADER_LEN + unat c * ENTRY_LEN" 
    "read_chunks decode_entry ENTRY_LEN STATE_HEADER_LEN (unat c) b = Ok ps"
    "s = \<lparr>gs_seq = from_le (take 8 b), gs_players = ps\<rparr>"
proof -
  have l: "STATE_HEADER_LEN \<le> length b" using ne d by (auto simp: state_decode_def split: if_split_asm)
  show ?thesis
    using d that unfolding state_decode_long[OF l c] by (auto simp: result_simps split: if_split_asm)
qed
lemma state_decode_sound:
  assumes ne: "b \<noteq> []" and d: "state_decode b = Ok s"
  shows "wf_state s \<and> state_encode s = b"
proof -
  define c where "c = (from_le (take 4 (drop 8 b)) :: u32)"
  obtain ps where
    l: "length b = STATE_HEADER_LEN + unat c * ENTRY_LEN" and
    r: "read_chunks decode_entry ENTRY_LEN STATE_HEADER_LEN (unat c) b = Ok ps" and
    s: "s = \<lparr>gs_seq = from_le (take 8 b), gs_players = ps\<rparr>"
    using state_decode_OkE[OF ne d c_def] .
  from entry.read_chunks_sound[OF l r]
  have ps: "length ps = unat c" "\<forall>p \<in> set ps. wf_entry p"
      "take STATE_HEADER_LEN b @ concat (map encode_entry ps) = b"
    by auto
  have "length (take 4 (drop 8 b)) = 4" "length (take 8 b) = 8"
    using l by (simp_all add: game_lens)
  then have "to_le 4 c = take 4 (drop 8 b)" "u64_le (from_le (take 8 b)) = take 8 b"
    unfolding c_def by (auto intro: u32_le_from_le u64_le_from_le)
  then have "state_encode s = take 8 b @ take 4 (drop 8 b) @ concat (map encode_entry ps)"
    by (simp add: state_encode_def s ps(1))
  also have "\<dots> = b"
    using ps(3) by (simp add: glue_append game_lens)
  finally show ?thesis
    using ps unat_less_2p[of c] by (simp add: wf_state_def s list_all_iff)
qed

interpretation state: codec state_encode state_decode wf_state "\<lambda>b. b \<noteq> []"
  by unfold_locales (use state_encode_nonempty state_decode_encode state_decode_sound in auto)

lemma decode_batch_encode:
  assumes wf: "wf_batch xs"
  shows "decode_batch (encode_batch xs) = Ok xs"
proof -
  let ?h = "to_le 2 (of_nat (length xs) :: u16)"
  have n: "unat (from_le ?h :: u16) = length xs"
    using wf by (simp add: from_to_le wf_batch_def unat_of_nat_small)
  have r: "read_chunks intent_decode INTENT_LEN 2 (length xs) (?h @ concat (map intent_encode xs)) = Ok xs"
    using wf by (intro intent.read_chunks_enc) (auto simp: wf_batch_def list_all_iff)
  have l: "length (concat (map intent_encode xs)) = length xs * INTENT_LEN"
    using wf by (intro intent.concat_length) (auto simp: wf_batch_def list_all_iff)
  show ?thesis
    using n r l by (simp add: decode_batch_def encode_batch_def Let_def)
qed

lemma decode_batch_sound:
  assumes d: "decode_batch b = Ok xs"
  shows "wf_batch xs \<and> encode_batch xs = b"
proof -
  define c where "c = (from_le (take 2 b) :: u16)"
  from d have l: "length b = 2 + unat c * INTENT_LEN"
    and r: "read_chunks intent_decode INTENT_LEN 2 (unat c) b = Ok xs"
    by (auto simp: decode_batch_def c_def result_simps Let_def split: if_splits)
  from intent.read_chunks_sound[OF l r]
  have xs: "length xs = unat c" "\<forall>i \<in> set xs. wf_intent i"
      "take 2 b @ concat (map intent_encode xs) = b"
    by auto
  have "to_le 2 c = take 2 b"
    using l unfolding c_def by (intro u16_le_from_le) simp
  then show ?thesis
    using xs unat_less_2p[of c] by (simp add: encode_batch_def wf_batch_def list_all_iff)
qed

interpretation batch: codec encode_batch decode_batch wf_batch "\<lambda>_. True"
  by unfold_locales (use decode_batch_encode decode_batch_sound in auto)

end
