(* ===== verification/Game_Board.thy ===== *)
theory Game_Board
  imports Game_Rules
begin

text \<open>
  The abstract board behind a game state: what each player's score and last nonce are, as
  unbounded numbers.  The transition function of game-rules refines one partial map update per
  intent; batches depend only on the sequence of moves of each player; the state invariant ties
  nonces, scores and the sequence number together.
\<close>

section \<open>The abstract board\<close>

text \<open>A player's standing is \<open>(score, nonce)\<close>; a player who never moved stands at \<open>(0, 0)\<close>.\<close>

type_synonym standing = "(nat \<times> nat) option"
type_synonym board = "bytes \<Rightarrow> standing"

definition board_of_list :: "player_entry list \<Rightarrow> board" where
  "board_of_list ps = map_of (map (\<lambda>p. (p_hash p, (unat (p_score p), unat (p_nonce p)))) ps)"

definition board_of :: "game_state \<Rightarrow> board" where
  "board_of s = board_of_list (gs_players s)"

definition score_of :: "standing \<Rightarrow> nat" where
  "score_of m = (case m of None \<Rightarrow> 0 | Some (sc, _) \<Rightarrow> sc)"

definition nonce_of :: "standing \<Rightarrow> nat" where
  "nonce_of m = (case m of None \<Rightarrow> 0 | Some (_, n) \<Rightarrow> n)"

lemma standing_simps [simp]:
  "score_of None = 0" "nonce_of None = 0" "score_of (Some (a, b)) = a" "nonce_of (Some (a, b)) = b"
  by (simp_all add: score_of_def nonce_of_def)

text \<open>The rule, per player: the points are capped, the nonce is the next one, the score fits.\<close>

definition spec_move :: "standing \<Rightarrow> intent \<Rightarrow> (nat \<times> nat) option" where
  "spec_move m i =
     (if unat (i_points i) \<le> 1000 \<and> unat (i_nonce i) = nonce_of m + 1
         \<and> score_of m + unat (i_points i) < 2 ^ 64
      then Some (score_of m + unat (i_points i), nonce_of m + 1) else None)"

definition spec_intent :: "board \<Rightarrow> intent \<Rightarrow> board option" where
  "spec_intent b i = map_option (\<lambda>x. b(i_hash i \<mapsto> x)) (spec_move (b (i_hash i)) i)"

fun spec_run :: "board \<Rightarrow> intent list \<Rightarrow> board option" where
  "spec_run b [] = Some b"
| "spec_run b (i # is) = Option.bind (spec_intent b i) (\<lambda>b'. spec_run b' is)"

text \<open>What a result and the state it leaves say about the board.\<close>

definition outcome :: "(game_error, unit) result \<times> game_state \<Rightarrow> board option" where
  "outcome r = (case r of (Inr _, s) \<Rightarrow> Some (board_of s) | (Inl _, _) \<Rightarrow> None)"

lemma outcome_simps [simp]: "outcome (Inr u, s) = Some (board_of s)" "outcome (Inl f, s) = None"
  by (simp_all add: outcome_def)

section \<open>Refinement of one intent\<close>

lemma board_lookup_None:
  "position (\<lambda>p. p_hash p = h) ps = None \<Longrightarrow> board_of_list ps h = None"
  by (induction ps) (auto simp: board_of_list_def split: if_splits)

lemma board_lookup_Some:
  "position (\<lambda>p. p_hash p = h) ps = Some k \<Longrightarrow>
   board_of_list ps h = Some (unat (p_score (ps ! k)), unat (p_nonce (ps ! k)))"
  by (induction ps arbitrary: k) (auto simp: board_of_list_def split: if_splits)

lemma board_update:
  "position (\<lambda>p. p_hash p = h) ps = Some k \<Longrightarrow> p_hash q = h \<Longrightarrow>
   board_of_list (ps[k := q]) = (board_of_list ps)(h \<mapsto> (unat (p_score q), unat (p_nonce q)))"
  by (induction ps arbitrary: k) (auto simp: board_of_list_def fun_upd_twist split: if_splits)

lemma board_push:
  "position (\<lambda>p. p_hash p = h) ps = None \<Longrightarrow> p_hash q = h \<Longrightarrow>
   board_of_list (ps @ [q]) = (board_of_list ps)(h \<mapsto> (unat (p_score q), unat (p_nonce q)))"
  by (induction ps) (auto simp: board_of_list_def fun_upd_twist split: if_splits)

lemma unat_eq_1_iff: "unat (w :: u64) = 1 \<longleftrightarrow> w = 1"
  by (metis unat_1 word_unat_eq_iff)

lemma points_cap: "i_points i \<le> MAX_POINTS_PER_MOVE \<longleftrightarrow> unat (i_points i) \<le> 1000"
  by (simp add: MAX_POINTS_PER_MOVE_def word_le_nat_alt)

lemma checked_add_None: "checked_add (a :: u64) b = None \<longleftrightarrow> \<not> unat a + unat b < 2 ^ 64"
  by (simp add: checked_add_def)

lemma next_nonce:
  "checked_add (a :: u64) 1 = Some n \<Longrightarrow> m = n \<longleftrightarrow> unat m = unat a + 1"
  by (auto simp: checked_add_Some word_unat_eq_iff)

lemma apply_intent_refines: "outcome (apply_intent s i) = spec_intent (board_of s) i"
proof (cases "i_points i \<le> MAX_POINTS_PER_MOVE")
  case False
  then show ?thesis
    by (simp add: apply_intent_def spec_intent_def spec_move_def points_cap[symmetric] not_le)
next
  case pts: True
  show ?thesis
  proof (cases "position (\<lambda>p. p_hash p = i_hash i) (gs_players s)")
    case None
    from pts have "unat (i_points i) \<le> 1000" "\<not> i_points i > MAX_POINTS_PER_MOVE"
      using points_cap[of i] by auto
    with None show ?thesis
      by (simp add: apply_intent_def spec_intent_def spec_move_def board_of_def board_lookup_None
          board_push[OF None] unat_eq_1_iff[simplified])
  next
    case (Some k)
    let ?p = "gs_players s ! k"
    have look: "board_of s (i_hash i) = Some (unat (p_score ?p), unat (p_nonce ?p))"
      by (simp add: board_of_def board_lookup_Some[OF Some])
    show ?thesis
    proof (cases "checked_add (p_nonce ?p) 1")
      case None
      then have "unat (i_nonce i) \<noteq> unat (p_nonce ?p) + 1"
        using unat_less_2p[of "i_nonce i"] by (simp add: checked_add_None)
      with pts Some None look show ?thesis
        by (simp add: apply_intent_def spec_intent_def spec_move_def)
    next
      case n: (Some n)
      have hash: "p_hash ?p = i_hash i" using position_SomeD[OF Some] by simp
      have capped: "unat (i_points i) \<le> 1000" "\<not> i_points i > MAX_POINTS_PER_MOVE"
        using pts points_cap[of i] by auto
      note nonce = next_nonce[OF n, of "i_nonce i"]
      show ?thesis
      proof (cases "checked_add (p_score ?p) (i_points i)")
        case None
        then have "\<not> unat (p_score ?p) + unat (i_points i) < 2 ^ 64"
          by (simp only: checked_add_None not_False_eq_True)
        with capped Some n None look nonce show ?thesis
          by (simp add: apply_intent_def spec_intent_def spec_move_def Let_def)
      next
        case sc: (Some sc)
        then have sum: "unat sc = unat (p_score ?p) + unat (i_points i)"
          unfolding checked_add_Some by blast
        with unat_less_2p[of sc] capped Some n sc look nonce hash show ?thesis
          by (simp add: apply_intent_def spec_intent_def spec_move_def Let_def board_of_def
              board_update[OF Some])
      qed
    qed
  qed
qed

text \<open>On every error path the state is the one the call started with; a panic is impossible.\<close>

lemma apply_intent_error_keeps: "apply_intent s i = (Inl f, s') \<Longrightarrow> s' = s \<and> f \<noteq> Panic"
  by (auto simp: apply_intent_def Let_def split: if_splits option.splits)

lemma apply_intent_seq: "gs_seq (snd (apply_intent s i)) = gs_seq s"
  by (auto simp: apply_intent_def Let_def split: if_splits option.splits)

lemma apply_intent_okD:
  "apply_intent s i = (Inr u, s') \<Longrightarrow> spec_intent (board_of s) i = Some (board_of s')"
  using apply_intent_refines[of s i] by simp

section \<open>Refinement of a run of intents\<close>

lemma apply_intents_refines: "outcome (apply_intents s xs) = spec_run (board_of s) xs"
proof (induction xs arbitrary: s)
  case (Cons i xs)
  obtain r s' where a: "apply_intent s i = (r, s')" by fastforce
  show ?case
  proof (cases r)
    case (Inl f)
    with a apply_intent_refines[of s i] show ?thesis by simp
  next
    case (Inr u)
    with a apply_intent_refines[of s i] Cons.IH[of s'] show ?thesis by (simp flip: apply_intent_refines)
  qed
qed simp

lemma apply_intents_seq: "gs_seq (snd (apply_intents s xs)) = gs_seq s"
proof (induction xs arbitrary: s)
  case (Cons i xs)
  obtain r s' where a: "apply_intent s i = (r, s')" by fastforce
  with apply_intent_seq[of s i] Cons[of s'] show ?case by (cases r) auto
qed simp

text \<open>A failing run stops at the first failing intent, with the effect of those before it.\<close>

lemma apply_intents_error:
  assumes "apply_intents s xs = (Inl f, s')"
  shows "\<exists>pre i post. xs = pre @ i # post \<and> apply_intents s pre = (Ok (), s')
           \<and> apply_intent s' i = (Inl f, s')"
  using assms
proof (induction xs arbitrary: s)
  case (Cons i xs)
  obtain r t where a: "apply_intent s i = (r, t)" by fastforce
  show ?case
  proof (cases r)
    case (Inl g)
    with a Cons.prems apply_intent_error_keeps[of s i g t]
    have "i # xs = [] @ i # xs \<and> apply_intents s [] = (Ok (), s') \<and> apply_intent s' i = (Inl f, s')"
      by simp
    then show ?thesis by blast
  next
    case (Inr u)
    with a Cons.prems have "apply_intents t xs = (Inl f, s')" by simp
    from Cons.IH[OF this] obtain pre j post where
      "xs = pre @ j # post" "apply_intents t pre = (Ok (), s')" "apply_intent s' j = (Inl f, s')"
      by blast
    with a Inr have "i # xs = (i # pre) @ j # post \<and> apply_intents s (i # pre) = (Ok (), s')
        \<and> apply_intent s' j = (Inl f, s')"
      by simp
    then show ?thesis by blast
  qed
qed simp

lemma apply_intents_append:
  "apply_intents s (xs @ ys) =
     (case apply_intents s xs of (Inl f, s') \<Rightarrow> (Inl f, s') | (Inr _, s') \<Rightarrow> apply_intents s' ys)"
  by (induction xs arbitrary: s) (auto split: prod.splits sum.splits)

lemma apply_batch_ok_iff:
  "apply_batch s xs = (Ok (), s') \<longleftrightarrow>
     (\<exists>t q. apply_intents s xs = (Ok (), t) \<and>
          checked_add (gs_seq s) (of_nat (length xs)) = Some q \<and> s' = t\<lparr>gs_seq := q\<rparr>)"
proof -
  obtain r t where a: "apply_intents s xs = (r, t)" by fastforce
  have "gs_seq t = gs_seq s" using apply_intents_seq[of s xs] a by simp
  with a show ?thesis
    by (cases r) (auto simp: apply_batch_def split: option.splits)
qed

lemma apply_batch_okE:
  assumes "apply_batch s xs = (Ok (), s')"
  obtains t q where "apply_intents s xs = (Ok (), t)"
    "checked_add (gs_seq s) (of_nat (length xs)) = Some q" "s' = t\<lparr>gs_seq := q\<rparr>"
  using assms unfolding apply_batch_ok_iff by blast

lemma apply_batch_board:
  assumes "apply_batch s xs = (Ok (), s')"
  shows "spec_run (board_of s) xs = Some (board_of s')"
  using assms
proof (rule apply_batch_okE)
  fix t q
  assume "apply_intents s xs = (Ok (), t)" "s' = t\<lparr>gs_seq := q\<rparr>"
  then show ?thesis using apply_intents_refines[of s xs] by (simp add: board_of_def)
qed

lemma apply_batch_seq:
  assumes "apply_batch s xs = (Ok (), s')" and "length xs < 2 ^ 64"
  shows "unat (gs_seq s') = unat (gs_seq s) + length xs"
  using assms(1)
proof (rule apply_batch_okE)
  fix t q
  assume "checked_add (gs_seq s) (of_nat (length xs)) = Some q" and s': "s' = t\<lparr>gs_seq := q\<rparr>"
  then have "unat q = unat (gs_seq s) + unat (of_nat (length xs) :: u64)"
    unfolding checked_add_Some by blast
  then show ?thesis using assms(2) by (simp add: s' unat_of_nat_small)
qed

text \<open>Conversely a run the rule allows succeeds, as long as the sequence number fits.\<close>

lemma apply_batch_succeeds:
  assumes "spec_run (board_of s) xs = Some b" and "unat (gs_seq s) + length xs < 2 ^ 64"
  shows "\<exists>s'. apply_batch s xs = (Ok (), s') \<and> board_of s' = b"
proof -
  obtain r t where a: "apply_intents s xs = (r, t)" by fastforce
  with assms(1) apply_intents_refines[of s xs] obtain u where r: "r = Inr u" "board_of t = b"
    by (cases r) auto
  have "gs_seq t = gs_seq s" using apply_intents_seq[of s xs] a by simp
  with a r assms(2) show ?thesis
    by (simp add: apply_batch_def checked_add_def unat_of_nat_small board_of_def)
qed

section \<open>A batch is the moves of each player\<close>

definition moves_of :: "bytes \<Rightarrow> intent list \<Rightarrow> intent list" where
  "moves_of h xs = filter (\<lambda>i. i_hash i = h) xs"

definition points_of :: "intent list \<Rightarrow> nat" where
  "points_of xs = sum_list (map (\<lambda>i. unat (i_points i)) xs)"

lemma moves_of_simps [simp]:
  "moves_of h [] = []"
  "moves_of h (i # xs) = (if i_hash i = h then i # moves_of h xs else moves_of h xs)"
  "moves_of h (xs @ ys) = moves_of h xs @ moves_of h ys"
  by (simp_all add: moves_of_def)

lemma points_of_simps [simp]:
  "points_of [] = 0" "points_of (i # xs) = unat (i_points i) + points_of xs"
  by (simp_all add: points_of_def)

fun player_run :: "standing \<Rightarrow> intent list \<Rightarrow> standing option" where
  "player_run m [] = Some m"
| "player_run m (i # is) = Option.bind (spec_move m i) (\<lambda>x. player_run (Some x) is)"

lemma spec_run_pointwise:
  "spec_run b xs = Some b' \<longleftrightarrow> (\<forall>h. player_run (b h) (moves_of h xs) = Some (b' h))"
proof (induction xs arbitrary: b)
  case Nil
  show ?case by (auto simp: fun_eq_iff)
next
  case (Cons i xs)
  show ?case
  proof (cases "spec_move (b (i_hash i)) i")
    case None
    then have "player_run (b (i_hash i)) (moves_of (i_hash i) (i # xs)) \<noteq> Some (b' (i_hash i))"
      by simp
    then have "\<not> (\<forall>h. player_run (b h) (moves_of h (i # xs)) = Some (b' h))" by blast
    with None show ?thesis by (simp add: spec_intent_def)
  next
    case (Some x)
    then show ?thesis by (auto simp: spec_intent_def Cons.IH)
  qed
qed

lemma spec_run_depends_on_moves:
  assumes "\<And>h. moves_of h xs = moves_of h ys"
  shows "spec_run b xs = spec_run b ys"
proof -
  have "spec_run b xs = Some b' \<longleftrightarrow> spec_run b ys = Some b'" for b'
    by (simp add: spec_run_pointwise assms)
  then show ?thesis by (metis option.exhaust)
qed

text \<open>What a run of one player's moves adds up to, and which nonces it must carry.\<close>

lemma spec_move_Some:
  "spec_move m i = Some x \<Longrightarrow>
     fst x = score_of m + unat (i_points i) \<and> snd x = nonce_of m + 1 \<and>
     unat (i_nonce i) = nonce_of m + 1 \<and> unat (i_points i) \<le> 1000"
  by (auto simp: spec_move_def split: if_splits)

lemma player_run_totals:
  "player_run m xs = Some m' \<Longrightarrow>
     score_of m' = score_of m + points_of xs \<and> nonce_of m' = nonce_of m + length xs"
proof (induction xs arbitrary: m)
  case (Cons i xs)
  then obtain x where x: "spec_move m i = Some x" "player_run (Some x) xs = Some m'"
    by (auto simp: bind_eq_Some_conv)
  obtain a n where [simp]: "x = (a, n)" by fastforce
  from Cons.IH[OF x(2)] spec_move_Some[OF x(1)] show ?case by simp
qed simp

lemma player_run_nonces:
  "player_run m xs = Some m' \<Longrightarrow> j < length xs \<Longrightarrow> unat (i_nonce (xs ! j)) = nonce_of m + 1 + j"
proof (induction xs arbitrary: m j)
  case (Cons i xs)
  then obtain x where x: "spec_move m i = Some x" "player_run (Some x) xs = Some m'"
    by (auto simp: bind_eq_Some_conv)
  obtain a n where [simp]: "x = (a, n)" by fastforce
  show ?case
  proof (cases j)
    case 0
    with spec_move_Some[OF x(1)] show ?thesis by simp
  next
    case (Suc k)
    with Cons.IH[OF x(2), of k] Cons.prems(2) spec_move_Some[OF x(1)] show ?thesis by simp
  qed
qed simp

lemma player_run_capped: "player_run m xs = Some m' \<Longrightarrow> i \<in> set xs \<Longrightarrow> unat (i_points i) \<le> 1000"
proof (induction xs arbitrary: m)
  case (Cons j xs)
  then obtain x where "spec_move m j = Some x" "player_run (Some x) xs = Some m'"
    by (auto simp: bind_eq_Some_conv)
  with Cons.IH[of "Some x"] Cons.prems(2) spec_move_Some[of m j x] show ?case by auto
qed simp

lemma player_run_bound:
  assumes "player_run m xs = Some m'" "i \<in> set xs"
  shows "unat (i_nonce i) \<le> nonce_of m'"
proof -
  from assms(2) obtain j where "j < length xs" "xs ! j = i" by (auto simp: in_set_conv_nth)
  with player_run_nonces[OF assms(1)] player_run_totals[OF assms(1)] show ?thesis by force
qed

lemma spec_run_moves:
  "spec_run b xs = Some b' \<Longrightarrow> player_run (b h) (moves_of h xs) = Some (b' h)"
  by (simp add: spec_run_pointwise)

lemma spec_run_nonce_mono: "spec_run b xs = Some b' \<Longrightarrow> nonce_of (b h) \<le> nonce_of (b' h)"
  using player_run_totals[OF spec_run_moves] by fastforce

lemma spec_run_nonce_bound:
  "spec_run b xs = Some b' \<Longrightarrow> i \<in> set xs \<Longrightarrow> unat (i_nonce i) \<le> nonce_of (b' (i_hash i))"
  by (rule player_run_bound[OF spec_run_moves]) (auto simp: moves_of_def)

lemma stale_intent_rejected:
  assumes "unat (i_nonce i) \<le> nonce_of (board_of s (i_hash i))"
  shows "\<exists>e. apply_intent s i = (Err e, s)"
proof -
  have "spec_intent (board_of s) i = None" using assms by (simp add: spec_intent_def spec_move_def)
  with apply_intent_refines[of s i] obtain f t where a: "apply_intent s i = (Inl f, t)"
    by (cases "apply_intent s i"; cases "fst (apply_intent s i)") auto
  with apply_intent_error_keeps[OF a] show ?thesis by (cases f) auto
qed

section \<open>The state invariant\<close>

text \<open>
  Distinct players with 20-byte hashes, every listed player has moved, at most 1000 points per
  move, and the sequence number counts all moves ever made.
\<close>

definition entry_inv :: "player_entry \<Rightarrow> bool" where
  "entry_inv p \<longleftrightarrow> wf_entry p \<and> 1 \<le> unat (p_nonce p) \<and> unat (p_score p) \<le> 1000 * unat (p_nonce p)"

definition total_moves :: "game_state \<Rightarrow> nat" where
  "total_moves s = sum_list (map (\<lambda>p. unat (p_nonce p)) (gs_players s))"

definition game_inv :: "game_state \<Rightarrow> bool" where
  "game_inv s \<longleftrightarrow> distinct (map p_hash (gs_players s)) \<and> list_all entry_inv (gs_players s)
     \<and> total_moves s = unat (gs_seq s)"

lemma game_inv_empty [simp]: "game_inv empty_state"
  by (simp add: game_inv_def empty_state_def total_moves_def)

text \<open>The part of the invariant one intent keeps, and what it does to the number of moves.\<close>

definition players_inv :: "game_state \<Rightarrow> bool" where
  "players_inv s \<longleftrightarrow> distinct (map p_hash (gs_players s)) \<and> list_all entry_inv (gs_players s)"

lemma apply_intent_ok_cases:
  assumes "apply_intent s i = (Ok (), s')"
  obtains (old) k q where
      "position (\<lambda>p. p_hash p = i_hash i) (gs_players s) = Some k"
      "q = (gs_players s ! k)\<lparr>p_score := p_score (gs_players s ! k) + i_points i, p_nonce := i_nonce i\<rparr>"
      "unat (i_nonce i) = unat (p_nonce (gs_players s ! k)) + 1"
      "unat (p_score q) = unat (p_score (gs_players s ! k)) + unat (i_points i)"
      "unat (i_points i) \<le> 1000"
      "s' = s\<lparr>gs_players := (gs_players s)[k := q]\<rparr>"
    | (new) "position (\<lambda>p. p_hash p = i_hash i) (gs_players s) = None" "unat (i_points i) \<le> 1000"
      "i_nonce i = 1"
      "s' = s\<lparr>gs_players := gs_players s @ [\<lparr>p_hash = i_hash i, p_score = i_points i, p_nonce = 1\<rparr>]\<rparr>"
proof (cases "position (\<lambda>p. p_hash p = i_hash i) (gs_players s)")
  case None
  with assms new show ?thesis
    by (auto simp: apply_intent_def points_cap[symmetric] not_less split: if_splits)
next
  case (Some k)
  with assms have pts: "unat (i_points i) \<le> 1000"
    by (auto simp: apply_intent_def points_cap[symmetric] not_less split: if_splits)
  from Some assms obtain n sc where
    n: "checked_add (p_nonce (gs_players s ! k)) 1 = Some n" "i_nonce i = n" and
    sc: "checked_add (p_score (gs_players s ! k)) (i_points i) = Some sc" and
    s': "s' = s\<lparr>gs_players := (gs_players s)[k := (gs_players s ! k)\<lparr>p_score := sc, p_nonce := i_nonce i\<rparr>]\<rparr>"
    by (auto simp: apply_intent_def Let_def split: if_splits option.splits)
  have "unat (i_nonce i) = unat (p_nonce (gs_players s ! k)) + 1"
    using next_nonce[OF n(1), of "i_nonce i"] n(2) by simp
  moreover have "sc = p_score (gs_players s ! k) + i_points i"
    and "unat sc = unat (p_score (gs_players s ! k)) + unat (i_points i)"
    using sc unfolding checked_add_Some by auto
  ultimately show ?thesis using old[OF Some refl] pts s' by simp
qed

lemma players_inv_step:
  assumes inv: "players_inv s" and run: "apply_intent s i = (Ok (), s')" and wf: "wf_intent i"
  shows "players_inv s' \<and> total_moves s' = total_moves s + 1"
  using run
proof (cases rule: apply_intent_ok_cases)
  case (old k q)
  let ?ps = "gs_players s"
  from position_SomeD[OF old(1)] have k: "k < length ?ps" by simp
  have names: "map p_hash (?ps[k := q]) = map p_hash ?ps"
    using k old(2) by (simp add: map_update list_update_same_conv)
  have "entry_inv (?ps ! k)" using inv k by (simp add: players_inv_def list_all_length)
  then have "entry_inv q" using old(2-5) by (simp add: entry_inv_def wf_entry_def)
  then have "list_all entry_inv (?ps[k := q])"
    using inv set_update_subset_insert[of ?ps k q] by (auto simp: players_inv_def list_all_iff)
  moreover have "total_moves s' = total_moves s + 1"
    using k old(2,3,6) by (simp add: total_moves_def map_update sum_list_update elem_le_sum_list)
  ultimately show ?thesis using inv old(6) names by (simp add: players_inv_def)
next
  case new
  from new(1) have "i_hash i \<notin> p_hash ` set (gs_players s)"
    by (auto simp: position_None_iff)
  with inv new wf show ?thesis
    by (simp add: players_inv_def total_moves_def entry_inv_def wf_entry_def wf_intent_def)
qed

lemma players_inv_run:
  assumes "players_inv s" "apply_intents s xs = (Ok (), s')" "list_all wf_intent xs"
  shows "players_inv s' \<and> total_moves s' = total_moves s + length xs"
  using assms
proof (induction xs arbitrary: s)
  case (Cons i xs)
  from Cons.prems(2) obtain t where "apply_intent s i = (Ok (), t)" "apply_intents t xs = (Ok (), s')"
    by (auto split: prod.splits sum.splits)
  with Cons.IH[of t] players_inv_step[OF Cons.prems(1), of i t] Cons.prems(3) show ?case by simp
qed simp

lemma apply_batch_inv:
  assumes inv: "game_inv s" and run: "apply_batch s xs = (Ok (), s')" and wf: "wf_batch xs"
  shows "game_inv s'"
  using run
proof (rule apply_batch_okE)
  fix t q
  assume t: "apply_intents s xs = (Ok (), t)" and q: "checked_add (gs_seq s) (of_nat (length xs)) = Some q"
    and s': "s' = t\<lparr>gs_seq := q\<rparr>"
  from inv wf players_inv_run[OF _ t] have "players_inv t" "total_moves t = unat (gs_seq s) + length xs"
    by (simp_all add: game_inv_def players_inv_def wf_batch_def)
  moreover have "unat (gs_seq s') = unat (gs_seq s) + length xs"
    using apply_batch_seq[OF run] wf by (simp add: wf_batch_def)
  ultimately show ?thesis
    by (simp add: game_inv_def players_inv_def s' total_moves_def)
qed

section \<open>Equality up to the order of players\<close>

text \<open>Entries of the code's records carry nothing beyond the three compared fields.\<close>

lemma entry_eq_iff:
  "(p :: player_entry) = q \<longleftrightarrow> p_hash p = p_hash q \<and> p_score p = p_score q \<and> p_nonce p = p_nonce q"
  by (cases p; cases q) auto

lemma equals_unordered_iff:
  "equals_unordered s t \<longleftrightarrow> gs_seq s = gs_seq t \<and> length (gs_players s) = length (gs_players t)
     \<and> set (gs_players s) \<subseteq> set (gs_players t)"
proof -
  have "list_ex (\<lambda>q. p_hash q = p_hash p \<and> p_score q = p_score p \<and> p_nonce q = p_nonce p) ps \<longleftrightarrow> p \<in> set ps"
    for p :: player_entry and ps
    using entry_eq_iff by (auto simp: list_ex_iff) metis
  then show ?thesis by (auto simp: equals_unordered_def list_all_iff)
qed

lemma distinct_subset_mset:
  assumes "distinct xs" "set xs \<subseteq> set ys" "length xs = length ys"
  shows "mset xs = mset ys"
proof -
  have "mset xs \<subseteq># mset ys"
    using assms(1,2) by (auto simp: subseteq_mset_def distinct_count_atmost_1 Suc_le_eq count_greater_zero_iff)
  then show ?thesis
    using assms(3) by (metis mset_subset_size size_mset subset_mset.le_neq_trans less_irrefl)
qed

lemma equals_unordered_mset:
  assumes "distinct (map p_hash (gs_players s))"
  shows "equals_unordered s t \<longleftrightarrow> gs_seq s = gs_seq t \<and> mset (gs_players s) = mset (gs_players t)"
proof -
  have "distinct (gs_players s)" using assms by (simp add: distinct_map)
  then show ?thesis
    unfolding equals_unordered_iff
    using distinct_subset_mset[of "gs_players s" "gs_players t"]
    by (metis mset_eq_setD order_refl size_mset)
qed

text \<open>The invariant and the board depend on the players as a multiset only.\<close>

lemma distinct_map_mset:
  assumes "mset xs = mset ys" and "distinct (map f xs)"
  shows "distinct (map f ys)"
proof -
  have "mset (map f xs) = mset (map f ys)" using assms(1) by simp
  then show ?thesis using assms(2) mset_eq_imp_distinct_iff by blast
qed

definition standing_entry :: "player_entry \<Rightarrow> bytes \<times> nat \<times> nat" where
  "standing_entry p = (p_hash p, (unat (p_score p), unat (p_nonce p)))"

lemma board_of_map: "board_of s = map_of (map standing_entry (gs_players s))"
  by (simp add: board_of_def board_of_list_def standing_entry_def [abs_def])

lemma fst_standing_entry: "map fst (map standing_entry ps) = map p_hash ps"
  by (simp add: standing_entry_def comp_def)

lemma board_of_mset:
  assumes "mset (gs_players s) = mset (gs_players t)" "distinct (map p_hash (gs_players s))"
  shows "board_of s = board_of t"
proof -
  have "set (map standing_entry (gs_players s)) = set (map standing_entry (gs_players t))"
    using mset_eq_setD[OF assms(1)] by simp
  with assms(2) distinct_map_mset[OF assms] show ?thesis
    unfolding board_of_map by (metis fst_standing_entry map_of_inject_set)
qed

lemma game_inv_unordered:
  assumes inv: "game_inv s" and eq: "equals_unordered s t"
  shows "game_inv t" and "board_of t = board_of s"
proof -
  have d: "distinct (map p_hash (gs_players s))" using inv by (simp add: game_inv_def)
  with eq have m: "mset (gs_players s) = mset (gs_players t)" and sq: "gs_seq s = gs_seq t"
    by (simp_all only: equals_unordered_mset)
  have "mset (map (\<lambda>p. unat (p_nonce p)) (gs_players s)) = mset (map (\<lambda>p. unat (p_nonce p)) (gs_players t))"
    using m by simp
  then have "total_moves s = total_moves t"
    unfolding total_moves_def by (metis sum_mset_sum_list)
  moreover have "set (gs_players s) = set (gs_players t)" using m by (rule mset_eq_setD)
  moreover have "distinct (map p_hash (gs_players t))" using m d by (rule distinct_map_mset)
  ultimately show "game_inv t"
    using inv sq by (simp add: game_inv_def list_all_iff)
  show "board_of t = board_of s" using board_of_mset[OF m d] by simp
qed

lemma standing_entry_inj: "inj standing_entry"
  by (auto intro!: injI simp: standing_entry_def entry_eq_iff word_unat_eq_iff)

lemma equals_unordered_of_board:
  assumes "distinct (map p_hash (gs_players s))" "distinct (map p_hash (gs_players t))"
    and "board_of s = board_of t" "gs_seq s = gs_seq t"
  shows "equals_unordered s t"
proof -
  have "set (map standing_entry (gs_players s)) = set (map standing_entry (gs_players t))"
    using assms(1-3) unfolding board_of_map by (metis fst_standing_entry map_of_inject_set)
  then have "set (gs_players s) = set (gs_players t)"
    using standing_entry_inj by (simp add: inj_image_eq_iff)
  moreover have "distinct (gs_players s)" "distinct (gs_players t)"
    using assms(1,2) by (simp_all add: distinct_map)
  ultimately show ?thesis
    using assms(4) by (auto simp: equals_unordered_iff dest!: distinct_card)
qed

end
