(* ===== verification/Game_Cell.thy ===== *)
theory Game_Cell
  imports Game_Board Ckb
begin

text \<open>
  The game cell's type script, contracts/controller-game-cell/src/main.rs: one definition per
  function, over the crate Game_Rules and the syscalls of Ckb.  The second half states what the
  script promises over the transaction it guards and shows that the code implements it.
\<close>

section \<open>Errors\<close>

definition AUTH_ID :: byte where "AUTH_ID = 0"

datatype cell_error =
    Cell_IndexOutOfBound | Cell_ItemMissing | Cell_LengthNotEnough | Cell_Encoding
  | Cell_BadTxShape | Cell_ArgsLenError | Cell_GenesisNotEmpty | Cell_StateMalformed
  | Cell_BatchMissing | Cell_BatchMalformed | Cell_NonceNotFresh | Cell_PointsTooHigh
  | Cell_Overflow | Cell_StateMismatch | Cell_AuthError

primrec cell_error_code :: "cell_error \<Rightarrow> int" where
  "cell_error_code Cell_IndexOutOfBound = 1"
| "cell_error_code Cell_ItemMissing = 2"
| "cell_error_code Cell_LengthNotEnough = 3"
| "cell_error_code Cell_Encoding = 4"
| "cell_error_code Cell_BadTxShape = 5"
| "cell_error_code Cell_ArgsLenError = 6"
| "cell_error_code Cell_GenesisNotEmpty = 7"
| "cell_error_code Cell_StateMalformed = 8"
| "cell_error_code Cell_BatchMissing = 9"
| "cell_error_code Cell_BatchMalformed = 10"
| "cell_error_code Cell_NonceNotFresh = 11"
| "cell_error_code Cell_PointsTooHigh = 12"
| "cell_error_code Cell_Overflow = 13"
| "cell_error_code Cell_StateMismatch = 14"
| "cell_error_code Cell_AuthError = 15"

text \<open>The errors in the order of their exit codes; different errors exit with different codes.\<close>

lemma cell_error_code_inj [simp]: "cell_error_code a = cell_error_code b \<longleftrightarrow> a = b"
  by (cases a; cases b) simp_all

instantiation cell_error :: linorder
begin

definition less_eq_cell_error :: "cell_error \<Rightarrow> cell_error \<Rightarrow> bool" where
  "less_eq_cell_error a b \<longleftrightarrow> cell_error_code a \<le> cell_error_code b"

definition less_cell_error :: "cell_error \<Rightarrow> cell_error \<Rightarrow> bool" where
  "less_cell_error a b \<longleftrightarrow> cell_error_code a < cell_error_code b"

instance
  by standard (auto simp: less_eq_cell_error_def less_cell_error_def)

end

fun cell_from_sys :: "sys_error \<Rightarrow> cell_error fault" where
  "cell_from_sys SysIndexOutOfBound = Fail Cell_IndexOutOfBound"
| "cell_from_sys SysItemMissing = Fail Cell_ItemMissing"
| "cell_from_sys (SysLengthNotEnough n) = Fail Cell_LengthNotEnough"
| "cell_from_sys SysEncoding = Fail Cell_Encoding"
| "cell_from_sys (SysUnknown c) = Panic"
| "cell_from_sys SysOther = Panic"

primrec cell_from_game :: "game_error \<Rightarrow> cell_error" where
  "cell_from_game StateMalformed = Cell_StateMalformed"
| "cell_from_game BatchMalformed = Cell_BatchMalformed"
| "cell_from_game NonceNotFresh = Cell_NonceNotFresh"
| "cell_from_game PointsTooHigh = Cell_PointsTooHigh"
| "cell_from_game Overflow = Cell_Overflow"

definition cell_sys :: "sys_error + 'a \<Rightarrow> (cell_error, 'a) result" where
  "cell_sys m = map_sum cell_from_sys id m"

lemma cell_sys_simps [simp]: "cell_sys (Inr x) = Ok x" "cell_sys (Inl e) = Inl (cell_from_sys e)"
  by (simp_all add: cell_sys_def)

lemma cell_sys_Ok_iff [result_simps]: "cell_sys m = Ok x \<longleftrightarrow> m = Inr x"
  by (cases m) auto

section \<open>Helpers\<close>

definition game_verify_signature ::
  "externals \<Rightarrow> vm \<Rightarrow> byte \<Rightarrow> bytes \<Rightarrow> bytes \<Rightarrow> bytes \<Rightarrow> (cell_error, unit) result" where
  "game_verify_signature X V algorithm_id signature message pubkey_hash =
     andThen (cstring (hex_encode X [algorithm_id])) (\<lambda>a.
     andThen (cstring (hex_encode X signature)) (\<lambda>s.
     andThen (cstring (hex_encode X message)) (\<lambda>m.
     andThen (cstring (hex_encode X pubkey_hash)) (\<lambda>p.
       case spawn_cell V (auth_code_hash X) HashData1 [a, s, m, p] of
         Inl _ \<Rightarrow> Err Cell_AuthError
       | Inr pid \<Rightarrow>
           (case wait_exit V pid of
              Inl _ \<Rightarrow> Err Cell_AuthError
            | Inr r \<Rightarrow> if r \<noteq> 0 then Err Cell_AuthError else Ok ())))))"

definition verify_intent_sig :: "externals \<Rightarrow> vm \<Rightarrow> bytes \<Rightarrow> intent \<Rightarrow> (cell_error, unit) result" where
  "verify_intent_sig X V game_id i =
     (let message = intent_message (blake2b_256 X) game_id (i_hash i) (i_points i) (i_nonce i)
      in game_verify_signature X V AUTH_ID (i_sig i) message (i_hash i))"

function count_group_cells_from :: "vm \<Rightarrow> source \<Rightarrow> nat \<Rightarrow> (cell_error, nat) result" where
  "count_group_cells_from V src i =
     (case load_cell_data V i src of
        Inr _ \<Rightarrow> if i + 1 < usize_limit then count_group_cells_from V src (i + 1) else Panicked
      | Inl SysIndexOutOfBound \<Rightarrow> Ok i
      | Inl e \<Rightarrow> Inl (cell_from_sys e))"
  by pat_completeness auto
termination by (relation "measure (\<lambda>(V, src, i). usize_limit - i)") auto

declare count_group_cells_from.simps [simp del]

definition count_group_cells :: "vm \<Rightarrow> source \<Rightarrow> (cell_error, nat) result" where
  "count_group_cells V src = count_group_cells_from V src 0"

function find_type_from :: "vm \<Rightarrow> bytes \<Rightarrow> nat \<Rightarrow> (cell_error, nat option) result" where
  "find_type_from V me i =
     (case load_cell_type_hash V i SrcInput of
        Inr h \<Rightarrow>
          if h = Some me then Ok (Some i)
          else if i + 1 < usize_limit then find_type_from V me (i + 1) else Panicked
      | Inl SysIndexOutOfBound \<Rightarrow> Ok None
      | Inl e \<Rightarrow> Inl (cell_from_sys e))"
  by pat_completeness auto
termination by (relation "measure (\<lambda>(V, me, i). usize_limit - i)") auto

declare find_type_from.simps [simp del]

definition find_group_input_index :: "vm \<Rightarrow> (cell_error, nat option) result" where
  "find_group_input_index V = andThen (cell_sys (load_script_hash V)) (\<lambda>me. find_type_from V me 0)"

section \<open>The script\<close>

definition verify_genesis :: "vm \<Rightarrow> (cell_error, unit) result" where
  "verify_genesis V =
     andThen (cell_sys (load_cell_data V 0 SrcGroupOutput)) (\<lambda>data.
     andThen (map_err cell_from_game (state_decode data)) (\<lambda>state.
       if gs_seq state \<noteq> 0 \<or> gs_players state \<noteq> [] then Err Cell_GenesisNotEmpty else Ok ()))"

definition verify_transition :: "externals \<Rightarrow> vm \<Rightarrow> bytes \<Rightarrow> (cell_error, unit) result" where
  "verify_transition X V game_id =
     andThen (cell_sys (load_cell_data V 0 SrcGroupInput)) (\<lambda>in_data.
     andThen (cell_sys (load_cell_data V 0 SrcGroupOutput)) (\<lambda>out_data.
     andThen (map_err cell_from_game (state_decode in_data)) (\<lambda>state.
     andThen (map_err cell_from_game (state_decode out_data)) (\<lambda>expected_out.
     andThen (find_group_input_index V) (\<lambda>found.
     andThen (ok_or found Cell_BadTxShape) (\<lambda>gi.
     andThen (cell_sys (load_witness_args V gi SrcInput)) (\<lambda>witness.
     andThen (ok_or (wa_input_type witness) Cell_BatchMissing) (\<lambda>batch.
     andThen (map_err cell_from_game (decode_batch batch)) (\<lambda>intents.
     andThen (traverse (verify_intent_sig X V game_id) intents) (\<lambda>_.
     let (r, state') = apply_batch state intents in
     andThen (map_err cell_from_game r) (\<lambda>_.
       if \<not> equals_unordered state' expected_out then Err Cell_StateMismatch else Ok ())))))))))))"

definition game_verify :: "externals \<Rightarrow> vm \<Rightarrow> (cell_error, unit) result" where
  "game_verify X V =
     andThen (cell_sys (load_script V)) (\<lambda>script.
     let args = s_args script in
     if length args \<noteq> GAME_ID_LEN then Err Cell_ArgsLenError
     else
       andThen (count_group_cells V SrcGroupInput) (\<lambda>in_count.
       andThen (count_group_cells V SrcGroupOutput) (\<lambda>out_count.
         if (in_count, out_count) = (0, 1) then verify_genesis V
         else if (in_count, out_count) = (1, 1) then verify_transition X V args
         else Err Cell_BadTxShape)))"

definition game_program_entry :: "externals \<Rightarrow> vm \<Rightarrow> int option" where
  "game_program_entry X V =
     (case game_verify X V of
        Inr _ \<Rightarrow> Some 0
      | Inl (Fail e) \<Rightarrow> Some (cell_error_code e)
      | Inl Panic \<Rightarrow> None)"

section \<open>The transaction and the specification\<close>

text \<open>
  The script's own view: its script and hash, the data of its group's inputs and outputs, the
  type hash of every input of the transaction and the witness at each input.
\<close>

record game_view =
  gv_script :: script
  gv_script_hash :: bytes
  gv_in :: "bytes list"
  gv_out :: "bytes list"
  gv_input_types :: "bytes option list"
  gv_witness :: "nat \<Rightarrow> sys_error + witness_args"

definition game_runs_on :: "vm \<Rightarrow> game_view \<Rightarrow> bool" where
  "game_runs_on V v \<longleftrightarrow>
     length (gv_in v) < usize_limit \<and> length (gv_out v) < usize_limit \<and>
     length (gv_input_types v) < usize_limit \<and>
     load_script V = Inr (gv_script v) \<and> load_script_hash V = Inr (gv_script_hash v) \<and>
     (\<forall>i. load_cell_data V i SrcGroupInput = item_at (gv_in v) i) \<and>
     (\<forall>i. load_cell_data V i SrcGroupOutput = item_at (gv_out v) i) \<and>
     (\<forall>i. load_cell_type_hash V i SrcInput = item_at (gv_input_types v) i) \<and>
     (\<forall>i. load_witness_args V i SrcInput = gv_witness v i)"

lemma game_runs_onD:
  assumes "game_runs_on V v"
  shows "length (gv_in v) < usize_limit" "length (gv_out v) < usize_limit"
    "length (gv_input_types v) < usize_limit"
    "load_script V = Inr (gv_script v)" "load_script_hash V = Inr (gv_script_hash v)"
    "load_cell_data V i SrcGroupInput = item_at (gv_in v) i"
    "load_cell_data V i SrcGroupOutput = item_at (gv_out v) i"
    "load_cell_type_hash V i SrcInput = item_at (gv_input_types v) i"
    "load_witness_args V i SrcInput = gv_witness v i"
  using assms by (auto simp: game_runs_on_def)

text \<open>
  The machine on which a chain runs the script for a view: the syscalls answer from the view, every
  other call, the one that runs ckb-auth among them, as on \<open>base\<close>.
\<close>

definition script_vm :: "vm \<Rightarrow> game_view \<Rightarrow> vm" where
  "script_vm base v = base\<lparr>load_script := Inr (gv_script v), load_script_hash := Inr (gv_script_hash v),
     load_cell_data := (\<lambda>i src. if src = SrcGroupInput then item_at (gv_in v) i else item_at (gv_out v) i),
     load_cell_type_hash := (\<lambda>i src. item_at (gv_input_types v) i),
     load_witness_args := (\<lambda>i src. gv_witness v i)\<rparr>"

lemma script_vm_runs:
  "length (gv_in v) < usize_limit \<Longrightarrow> length (gv_out v) < usize_limit \<Longrightarrow>
   length (gv_input_types v) < usize_limit \<Longrightarrow> game_runs_on (script_vm base v) v"
  by (simp add: game_runs_on_def script_vm_def)

lemma script_vm_auth [simp]: "ckb_auth_accepts X (script_vm base v) = ckb_auth_accepts X base"
proof -
  have "spawn_cell (script_vm base v) = spawn_cell base" "wait_exit (script_vm base v) = wait_exit base"
    by (simp_all add: script_vm_def)
  then show ?thesis by (intro ext) (simp only: ckb_auth_accepts_def)
qed

text \<open>The batch of a transaction: the \<open>input_type\<close> of the witness at the game cell's own input.\<close>

definition batch_of :: "game_view \<Rightarrow> bytes option" where
  "batch_of v =
     (case position (\<lambda>h. h = Some (gv_script_hash v)) (gv_input_types v) of
        None \<Rightarrow> None
      | Some i \<Rightarrow> (case gv_witness v i of Inl _ \<Rightarrow> None | Inr wa \<Rightarrow> wa_input_type wa))"

definition intent_signed :: "externals \<Rightarrow> vm \<Rightarrow> bytes \<Rightarrow> intent \<Rightarrow> bool" where
  "intent_signed X V game_id i \<longleftrightarrow>
     ckb_auth_accepts X V AUTH_ID (i_sig i)
       (intent_message (blake2b_256 X) game_id (i_hash i) (i_points i) (i_nonce i)) (i_hash i)"

lemma intent_signed_script_vm [simp]: "intent_signed X (script_vm base v) = intent_signed X base"
  by (intro ext) (simp add: intent_signed_def)

definition game_id_of :: "game_view \<Rightarrow> bytes" where
  "game_id_of v = s_args (gv_script v)"

text \<open>One legal step of the game, from a cell's data to the next under a batch of intents.\<close>

definition legal_step :: "externals \<Rightarrow> vm \<Rightarrow> bytes \<Rightarrow> bytes \<Rightarrow> intent list \<Rightarrow> bytes \<Rightarrow> bool" where
  "legal_step X V game_id d xs d' \<longleftrightarrow>
     list_all (intent_signed X V game_id) xs \<and>
     (\<exists>s t u. state_decode d = Ok s \<and> apply_batch s xs = (Ok (), t) \<and>
        state_decode d' = Ok u \<and> equals_unordered t u)"

definition game_accepts :: "externals \<Rightarrow> vm \<Rightarrow> game_view \<Rightarrow> bool" where
  "game_accepts X V v \<longleftrightarrow>
     length (game_id_of v) = GAME_ID_LEN \<and>
     ((\<exists>d. gv_in v = [] \<and> gv_out v = [d] \<and> state_decode d = Ok empty_state) \<or>
      (\<exists>d d' b xs. gv_in v = [d] \<and> gv_out v = [d'] \<and> batch_of v = Some b \<and>
         decode_batch b = Ok xs \<and> legal_step X V (game_id_of v) d xs d'))"

section \<open>The code implements it\<close>

lemma game_verify_signature_eq:
  assumes "hex_is_text X"
  shows "game_verify_signature X V alg sg msg pkh =
     (if ckb_auth_accepts X V alg sg msg pkh then Ok () else Err Cell_AuthError)"
  using assms
  by (auto simp: game_verify_signature_def ckb_auth_accepts_def hex_is_text_def cstring_def split: sum.splits)

lemma verify_intents_eq:
  assumes "hex_is_text X"
  shows "traverse (verify_intent_sig X V g) xs =
     (if list_all (intent_signed X V g) xs then Ok (map (\<lambda>_. ()) xs) else Err Cell_AuthError)"
  using assms
  by (induction xs) (simp_all add: verify_intent_sig_def intent_signed_def game_verify_signature_eq)

lemma count_group_cells_eq:
  assumes V: "\<And>i. load_cell_data V i src = item_at ds i" and len: "length ds < usize_limit"
  shows "count_group_cells V src = Ok (length ds)"
proof -
  have "i \<le> length ds \<Longrightarrow> count_group_cells_from V src i = Ok (length ds)" for i
  proof (induction "length ds - i" arbitrary: i)
    case 0
    then show ?case by (simp add: count_group_cells_from.simps[of V src i] V item_at_def)
  next
    case (Suc n)
    then have "count_group_cells_from V src (i + 1) = Ok (length ds)" by simp
    with Suc len show ?case by (simp add: count_group_cells_from.simps[of V src i] V item_at_def)
  qed
  then show ?thesis by (simp add: count_group_cells_def)
qed

lemma find_type_from_eq:
  assumes V: "\<And>i. load_cell_type_hash V i SrcInput = item_at hs i" and len: "length hs < usize_limit"
  shows "find_type_from V me i = Ok (map_option (\<lambda>k. i + k) (position (\<lambda>h. h = Some me) (drop i hs)))"
proof (induction "length hs - i" arbitrary: i)
  case 0
  then show ?case by (simp add: find_type_from.simps[of V me i] V item_at_def)
next
  case (Suc n)
  then have i: "i < length hs" by simp
  then have "drop i hs = hs ! i # drop (Suc i) hs" by (simp add: Cons_nth_drop_Suc)
  moreover have "find_type_from V me (i + 1) =
      Ok (map_option (\<lambda>k. i + 1 + k) (position (\<lambda>h. h = Some me) (drop (i + 1) hs)))"
  proof (rule Suc.hyps(1))
    show "n = length hs - (i + 1)" using Suc.hyps(2) by simp
  qed
  ultimately show ?case
    using i len by (cases "position (\<lambda>h. h = Some me) (drop (Suc i) hs)")
      (simp_all add: find_type_from.simps[of V me i] V item_at_def)
qed

lemma find_group_input_index_eq:
  assumes "game_runs_on V v"
  shows "find_group_input_index V =
     Ok (position (\<lambda>h. h = Some (gv_script_hash v)) (gv_input_types v))"
  using find_type_from_eq[of V "gv_input_types v" "gv_script_hash v" 0] game_runs_onD[OF assms]
  by (simp add: find_group_input_index_def option.map_ident)

lemma empty_state_iff: "gs_seq s = 0 \<and> gs_players s = [] \<longleftrightarrow> s = empty_state"
  by (cases s) (auto simp: empty_state_def)

lemma verify_genesis_iff:
  assumes V: "game_runs_on V v" and out: "gv_out v = [d]"
  shows "verify_genesis V = Ok () \<longleftrightarrow> state_decode d = Ok empty_state"
  using empty_state_iff by (auto simp: verify_genesis_def game_runs_onD(7)[OF V] out item_at_def result_simps)

lemma judge_iff:
  "(case apply_batch s xs of (r, t) \<Rightarrow>
    andThen (map_err cell_from_game r) (\<lambda>_. if \<not> equals_unordered t u then Err Cell_StateMismatch else Ok ())) = Ok ()
   \<longleftrightarrow> (\<exists>t. apply_batch s xs = (Ok (), t) \<and> equals_unordered t u)"
  by (cases "apply_batch s xs") (auto simp: result_simps)

lemma verify_transition_iff:
  assumes X: "hex_is_text X" and V: "game_runs_on V v" and cells: "gv_in v = [d]" "gv_out v = [d']"
  shows "verify_transition X V g = Ok () \<longleftrightarrow>
     (\<exists>b xs. batch_of v = Some b \<and> decode_batch b = Ok xs \<and> legal_step X V g d xs d')"
  by (auto simp: verify_transition_def game_runs_onD(6,7,9)[OF V] cells item_at_def find_group_input_index_eq[OF V]
      verify_intents_eq[OF X] Let_def judge_iff batch_of_def legal_step_def result_simps
      split: option.splits sum.splits if_splits) blast

lemma game_verify_refines:
  assumes X: "hex_is_text X" and V: "game_runs_on V v"
  shows "game_verify X V = Ok () \<longleftrightarrow> game_accepts X V v"
proof -
  note counts = count_group_cells_eq[OF game_runs_onD(6)[OF V] game_runs_onD(1)[OF V]]
    count_group_cells_eq[OF game_runs_onD(7)[OF V] game_runs_onD(2)[OF V]]
  have one: "length xs = 1 \<longleftrightarrow> (\<exists>x. xs = [x])" for xs :: "bytes list" by (cases xs) auto
  show ?thesis
    using verify_genesis_iff[OF V] verify_transition_iff[OF X V, of _ _ "game_id_of v"]
    by (auto simp: game_verify_def game_runs_onD(4)[OF V] counts Let_def game_accepts_def game_id_of_def one
        simp flip: One_nat_def)
qed

end
