(* ===== verification/Game_Properties.thy ===== *)
theory Game_Properties
  imports Game_Cell Samples
begin

text \<open>
  The properties of the shared rules and of the game cell: wire formats, the rule against its
  specification, the decision of the type script, and what holds of every cell that a chain of
  accepted transactions can produce.
\<close>

section \<open>Wire formats\<close>

text \<open>
  C19: the state format is canonical: a well-formed state encodes to bytes that decode to it, and any
  cell data that decodes, empty data aside, is the encoding of exactly the state it decodes to.
\<close>

theorem state_format_canonical:
  assumes "data \<noteq> []"
  shows "state_decode data = Ok s \<longleftrightarrow> wf_state s \<and> data = state_encode s"
  by (rule state.dec_Ok_iff[OF assms])

definition one_player :: game_state where
  "one_player = \<lparr>gs_seq = 1, gs_players = [\<lparr>p_hash = replicate 20 1, p_score = 5, p_nonce = 1\<rparr>]\<rparr>"

lemma wf_one_player: "wf_state one_player"
  by (simp add: one_player_def wf_state_def wf_entry_def)

lemma state_format_canonical_witness: "state_decode (state_encode one_player) = Ok one_player"
  using state_format_canonical[OF state_encode_nonempty, of one_player one_player] wf_one_player by simp

text \<open>C20: the batch format is canonical in the same sense, for every byte string.\<close>

theorem batch_format_canonical:
  "decode_batch b = Ok xs \<longleftrightarrow> wf_batch xs \<and> b = encode_batch xs"
  by (rule batch.dec_Ok_iff) simp

text \<open>
  The two-byte count of \<open>encode_batch\<close> wraps: a batch of 65536 intents or more is encoded to
  bytes that the script rejects as malformed.
\<close>

theorem oversized_batch_malformed:
  assumes "list_all wf_intent xs" and "2 ^ 16 \<le> length xs"
  shows "decode_batch (encode_batch xs) = Err BatchMalformed"
proof -
  let ?c = "of_nat (length xs) :: u16"
  have "unat ?c < 2 ^ 16" using unat_less_2p[of ?c] by simp
  then have ne: "unat ?c \<noteq> length xs" using assms(2) by simp
  have l: "length (encode_batch xs) = 2 + length xs * INTENT_LEN"
    using intent.concat_length[of xs] assms(1) by (simp add: encode_batch_def list_all_iff)
  have "unat (from_le (take 2 (encode_batch xs)) :: u16) = unat ?c"
    by (simp add: encode_batch_def from_to_le)
  then show ?thesis using l ne by (simp add: decode_batch_def Let_def INTENT_LEN_def)
qed

definition sample_intent :: intent where
  "sample_intent = \<lparr>i_hash = replicate 20 1, i_points = 5, i_nonce = 1, i_sig = replicate 65 0\<rparr>"

lemma oversized_batch_malformed_witness:
  "decode_batch (encode_batch (replicate (2 ^ 16) sample_intent)) = Err BatchMalformed"
proof (rule oversized_batch_malformed)
  show "list_all wf_intent (replicate (2 ^ 16) sample_intent)"
    by (simp only: list_all_iff set_replicate_conv_if)
       (simp add: sample_intent_def wf_intent_def SIGNATURE_LEN_def)
  show "2 ^ 16 \<le> length (replicate (2 ^ 16) sample_intent)"
    by (simp only: length_replicate order_refl)
qed

section \<open>The rule\<close>

text \<open>
  C16: a batch is accepted exactly when every intent, in order, carries at most 1000 points, the next
  nonce of its player and a score that does not overflow, and the sequence number does not overflow;
  the new board is then the specification's board and the sequence number counts the intents.
\<close>

theorem apply_batch_decides:
  assumes "length xs < 2 ^ 64"
  shows "(\<exists>s'. apply_batch s xs = (Ok (), s') \<and> board_of s' = b \<and> unat (gs_seq s') = unat (gs_seq s) + length xs)
    \<longleftrightarrow> spec_run (board_of s) xs = Some b \<and> unat (gs_seq s) + length xs < 2 ^ 64"
proof
  assume "\<exists>s'. apply_batch s xs = (Ok (), s') \<and> board_of s' = b \<and> unat (gs_seq s') = unat (gs_seq s) + length xs"
  then obtain s' where s: "apply_batch s xs = (Ok (), s')" "board_of s' = b"
    and q: "unat (gs_seq s') = unat (gs_seq s) + length xs" by blast
  have "unat (gs_seq s') < 2 ^ 64" using unat_less_2p[of "gs_seq s'"] by simp
  then show "spec_run (board_of s) xs = Some b \<and> unat (gs_seq s) + length xs < 2 ^ 64"
    using apply_batch_board[OF s(1)] s(2) q by simp
next
  assume "spec_run (board_of s) xs = Some b \<and> unat (gs_seq s) + length xs < 2 ^ 64"
  then obtain s' where "apply_batch s xs = (Ok (), s')" "board_of s' = b"
    using apply_batch_succeeds by blast
  then show "\<exists>s'. apply_batch s xs = (Ok (), s') \<and> board_of s' = b \<and> unat (gs_seq s') = unat (gs_seq s) + length xs"
    using apply_batch_seq assms by blast
qed

lemma apply_batch_sample: "apply_batch empty_state [sample_intent] = (Ok (), one_player)"
  by (simp add: apply_batch_def apply_intent_def empty_state_def sample_intent_def one_player_def
      MAX_POINTS_PER_MOVE_def checked_add_def)

lemma apply_batch_decides_witness:
  "spec_run (board_of empty_state) [sample_intent] = Some (board_of one_player)"
  using apply_batch_decides[of "[sample_intent]" empty_state "board_of one_player"] apply_batch_sample
  by (auto simp: one_player_def empty_state_def)

text \<open>
  C40: an accepted batch keeps the board well formed: 20-byte hashes, no player listed twice, every
  listed player has moved, no score above 1000 points a move, and a sequence number that counts
  all moves of all players.
\<close>

theorem batch_keeps_invariant:
  assumes "game_inv s" and "wf_batch xs" and "apply_batch s xs = (Ok (), s')"
  shows "game_inv s'"
  by (rule apply_batch_inv[OF assms(1,3,2)])

lemma batch_keeps_invariant_witness: "game_inv one_player"
proof -
  have "wf_batch [sample_intent]"
    by (simp add: wf_batch_def wf_intent_def sample_intent_def SIGNATURE_LEN_def)
  then show ?thesis using batch_keeps_invariant[OF game_inv_empty _ apply_batch_sample] by simp
qed

text \<open>
  C17: a rejected batch has applied exactly the intents before the offending one, and the state it
  leaves behind is the one those intents lead to: the error value comes with a partial update.
\<close>

theorem apply_batch_error_prefix:
  assumes "apply_batch s xs = (Inl f, s')"
  shows "\<exists>pre post. xs = pre @ post \<and> apply_intents s pre = (Ok (), s') \<and> gs_seq s' = gs_seq s \<and>
           (post = [] \<and> f = Fail Overflow \<or> (\<exists>i tl. post = i # tl \<and> apply_intent s' i = (Inl f, s')))"
proof (cases "apply_intents s xs")
  case (Pair r t)
  have q: "gs_seq t = gs_seq s" using apply_intents_seq[of s xs] Pair by simp
  show ?thesis
  proof (cases r)
    case (Inl g)
    then have "g = f" "t = s'" using assms Pair by (auto simp: apply_batch_def)
    with apply_intents_error[of s xs g t] Inl Pair q show ?thesis by auto
  next
    case (Inr u)
    then have "f = Fail Overflow" "t = s'" using assms Pair by (auto simp: apply_batch_def split: option.splits)
    with Pair Inr q show ?thesis by (intro exI[of _ xs] exI[of _ "[]"]) simp
  qed
qed

lemma apply_batch_error_prefix_witness:
  "apply_intents empty_state [sample_intent] = (Ok (), one_player\<lparr>gs_seq := 0\<rparr>) \<and>
   apply_batch empty_state [sample_intent, sample_intent] = (Err NonceNotFresh, one_player\<lparr>gs_seq := 0\<rparr>)"
proof -
  have run: "apply_batch empty_state [sample_intent, sample_intent] = (Err NonceNotFresh, one_player\<lparr>gs_seq := 0\<rparr>)"
    by (simp add: apply_batch_def apply_intent_def empty_state_def sample_intent_def one_player_def
        MAX_POINTS_PER_MOVE_def checked_add_def)
  have one: "apply_intent empty_state sample_intent = (Ok (), one_player\<lparr>gs_seq := 0\<rparr>)"
    by (simp add: apply_intent_def empty_state_def sample_intent_def one_player_def MAX_POINTS_PER_MOVE_def)
  from apply_batch_error_prefix[OF run] obtain pre post where
      "[sample_intent, sample_intent] = pre @ post" "apply_intents empty_state pre = (Ok (), one_player\<lparr>gs_seq := 0\<rparr>)"
    by blast
  with one run show ?thesis by simp
qed

lemma same_moves_length:
  assumes "\<And>h. moves_of h xs = moves_of h ys"
  shows "length xs = length ys"
proof -
  have "count (mset zs) i = count (mset (moves_of (i_hash i) zs)) i" for zs i
    by (simp add: moves_of_def)
  then have "mset xs = mset ys" using assms by (metis multiset_eqI)
  then show ?thesis by (metis size_mset)
qed

text \<open>
  C18: players do not interfere: two interleavings of the same per-player move sequences are both
  rejected, or both accepted with equal boards.
\<close>

theorem batch_order_across_players:
  assumes "\<And>h. moves_of h xs = moves_of h ys" and "apply_batch s xs = (Ok (), t)"
  shows "\<exists>u. apply_batch s ys = (Ok (), u) \<and> board_of u = board_of t \<and> gs_seq u = gs_seq t"
proof -
  have len: "length xs = length ys" using same_moves_length[OF assms(1)] .
  obtain q where q: "checked_add (gs_seq s) (of_nat (length xs)) = Some q" "gs_seq t = q"
    using assms(2) by (elim apply_batch_okE) auto
  have "spec_run (board_of s) ys = Some (board_of t)"
    using apply_batch_board[OF assms(2)] spec_run_depends_on_moves[OF assms(1)] by simp
  moreover obtain r u where u: "apply_intents s ys = (r, u)" by fastforce
  ultimately have "outcome (r, u) = Some (board_of t)" using apply_intents_refines[of s ys] by simp
  then have "r = Ok ()" "board_of u = board_of t" by (cases r; simp)+
  then have "apply_batch s ys = (Ok (), u\<lparr>gs_seq := q\<rparr>)"
    using u q len apply_batch_ok_iff by auto
  moreover have "board_of (u\<lparr>gs_seq := q\<rparr>) = board_of u" by (simp add: board_of_def)
  ultimately show ?thesis using \<open>board_of u = board_of t\<close> q(2) by auto
qed

definition other_intent :: intent where
  "other_intent = \<lparr>i_hash = replicate 20 2, i_points = 7, i_nonce = 1, i_sig = replicate 65 0\<rparr>"

lemma batch_order_across_players_witness:
  "\<exists>u. apply_batch empty_state [other_intent, sample_intent] = (Ok (), u) \<and> unat (gs_seq u) = 2"
proof -
  have "\<exists>t. apply_batch empty_state [sample_intent, other_intent] = (Ok (), t) \<and> gs_seq t = 2"
    by (simp add: apply_batch_def apply_intent_def empty_state_def sample_intent_def other_intent_def
        MAX_POINTS_PER_MOVE_def checked_add_def)
  then obtain t where t: "apply_batch empty_state [sample_intent, other_intent] = (Ok (), t)" "gs_seq t = 2"
    by blast
  have "replicate 20 (1 :: byte) \<noteq> replicate 20 2" by simp
  then have "moves_of h [sample_intent, other_intent] = moves_of h [other_intent, sample_intent]" for h
    by (auto simp add: sample_intent_def other_intent_def)
  from batch_order_across_players[OF this t(1)] t(2) show ?thesis by auto
qed

end
