(* ===== verification/Game_History.thy ===== *)
theory Game_History
  imports Game_Properties
begin

text \<open>
  The game cell over time: the decision of one transaction, the chains of accepted transactions
  that start at a genesis, the invariant of every cell on such a chain, and what it says about
  replays, scores and the operator.
\<close>

section \<open>Panic freedom\<close>

lemma state_decode_total: "state_decode d \<noteq> Panicked"
proof (cases "d = [] \<or> length d < STATE_HEADER_LEN")
  case True
  then show ?thesis by (auto simp: state_decode_def)
next
  case False
  define c where "c = (from_le (take 4 (drop 8 d)) :: u32)"
  have "STATE_HEADER_LEN \<le> length d" using False by simp
  from state_decode_long[OF this c_def] entry.read_chunks_total[of d STATE_HEADER_LEN "unat c"]
  show ?thesis by auto
qed

lemma decode_batch_total: "decode_batch b \<noteq> Panicked"
proof (cases "length b < 2")
  case True
  then show ?thesis by (simp add: decode_batch_def)
next
  case False
  define c where "c = (from_le (take 2 b) :: u16)"
  from False intent.read_chunks_total[of b 2 "unat c"] show ?thesis
    by (auto simp: decode_batch_def Let_def c_def)
qed

lemma apply_batch_total: "fst (apply_batch s xs) \<noteq> Panicked"
proof -
  obtain r t where a: "apply_intents s xs = (r, t)" by fastforce
  then have "r \<noteq> Panicked" using apply_intents_error[of s xs] apply_intent_error_keeps by fastforce
  then show ?thesis using a by (cases r) (auto simp: apply_batch_def split: option.splits)
qed

lemma game_verify_total:
  assumes X: "hex_is_text X" and V: "game_runs_on V v" and w: "\<And>i. ordinary (gv_witness v i)"
  shows "game_verify X V \<noteq> Panicked"
proof -
  have w': "cell_sys (gv_witness v i) \<noteq> Panicked" for i
    using w[of i] by (auto simp: ordinary_def cell_sys_def split: sum.splits sys_error.splits)
  note counts = count_group_cells_eq[OF game_runs_onD(6)[OF V] game_runs_onD(1)[OF V]]
    count_group_cells_eq[OF game_runs_onD(7)[OF V] game_runs_onD(2)[OF V]]
  have e: "map_err cell_from_game m = Panicked \<longleftrightarrow> m = Panicked" for m :: "(game_error, 'b) result"
    by (rule map_err_Panic_iff)
  have j: "(case apply_batch s xs of (r, t) \<Rightarrow> andThen (map_err cell_from_game r) (k t)) \<noteq> Panicked"
    if "\<And>t u. k t u \<noteq> Panicked" for s xs and k :: "_ \<Rightarrow> unit \<Rightarrow> (cell_error, unit) result"
  proof -
    obtain r t where a: "apply_batch s xs = (r, t)" by fastforce
    then have "r \<noteq> Panicked" using apply_batch_total[of s xs] by simp
    then show ?thesis using that a by (auto simp: andThen_fault_iff map_err_Panic_iff)
  qed
  have "verify_genesis V \<noteq> Panicked" if "length (gv_out v) = 1"
    using that state_decode_total
    by (auto simp: verify_genesis_def game_runs_onD(7)[OF V] item_at_def andThen_fault_iff map_err_Panic_iff)
  moreover have "verify_transition X V g \<noteq> Panicked" if "length (gv_in v) = 1" "length (gv_out v) = 1" for g
    using that state_decode_total decode_batch_total w'
    by (auto simp: verify_transition_def game_runs_onD(6,7,9)[OF V] item_at_def andThen_fault_iff map_err_Panic_iff
        find_group_input_index_eq[OF V] verify_intents_eq[OF X] Let_def j split: if_splits)
  ultimately show ?thesis
    by (auto simp: game_verify_def game_runs_onD(4)[OF V] counts Let_def)
qed

lemma cell_error_code_range: "1 \<le> cell_error_code e \<and> cell_error_code e \<le> 15"
  by (cases e) simp_all

section \<open>The decision\<close>

text \<open>
  C12: the type script accepts exactly the legal transactions: a creation from the empty board, or a
  single step in which every intent is signed and the output board is the input board advanced by
  the batch; anything else, destruction and several game cells included, is refused.
\<close>

theorem game_decision:
  assumes "hex_is_text X" and "game_runs_on V v"
  shows "game_verify X V = Ok () \<longleftrightarrow> game_accepts X V v"
  by (rule game_verify_refines[OF assms])

text \<open>A creation, and a step of the sample player.\<close>

definition game_script :: script where
  "game_script = \<lparr>s_code_hash = replicate 32 4, s_hash_type = 1, s_args = replicate 32 6\<rparr>"

definition signed_intent :: intent where
  "signed_intent = sample_intent\<lparr>i_sig := sample_sign (replicate 20 1)
     (intent_message sample_hash (replicate 32 6) (replicate 20 1) 5 1)\<rparr>"

definition create_view :: game_view where
  "create_view = \<lparr>gv_script = game_script, gv_script_hash = replicate 32 3, gv_in = [], gv_out = [[]],
     gv_input_types = [None], gv_witness = (\<lambda>i. Inl SysItemMissing)\<rparr>"

definition step_view :: game_view where
  "step_view = \<lparr>gv_script = game_script, gv_script_hash = replicate 32 3, gv_in = [[]],
     gv_out = [state_encode one_player], gv_input_types = [None, Some (replicate 32 3)],
     gv_witness = (\<lambda>i. Inr \<lparr>wa_lock = None, wa_input_type = Some (encode_batch [signed_intent]), wa_output_type = None\<rparr>)\<rparr>"

definition game_vm :: "game_view \<Rightarrow> vm" where
  "game_vm v = script_vm (vm_of registered_view) v"

lemma game_vm_runs:
  "length (gv_in v) < usize_limit \<Longrightarrow> length (gv_out v) < usize_limit \<Longrightarrow>
   length (gv_input_types v) < usize_limit \<Longrightarrow> game_runs_on (game_vm v) v"
  by (simp add: game_vm_def script_vm_runs)

lemma sample_game_runs: "game_runs_on (game_vm create_view) create_view" "game_runs_on (game_vm step_view) step_view"
  by (rule game_vm_runs; simp add: create_view_def step_view_def usize_limit_def)+

lemma apply_batch_signed: "apply_batch empty_state [signed_intent] = (Ok (), one_player)"
  by (simp add: apply_batch_def apply_intent_def empty_state_def signed_intent_def sample_intent_def one_player_def
      MAX_POINTS_PER_MOVE_def checked_add_def)

lemma game_vm_signed: "ckb_auth_accepts X (game_vm v) = ckb_auth_accepts X (vm_of registered_view)"
  by (simp add: game_vm_def)

lemma signed_intent_signed: "intent_signed sample_externals (game_vm v) (replicate 32 6) signed_intent"
  using sample_signature_accepted[of registered_view "replicate 20 1"
      "intent_message sample_hash (replicate 32 6) (replicate 20 1) 5 1"]
  by (simp add: intent_signed_def game_vm_signed signed_by_def signed_intent_def sample_intent_def
      AUTH_ID_def AUTH_ID_CKB_SECP256K1_def)

lemma wf_signed_batch: "wf_batch [signed_intent]"
  by (simp add: wf_batch_def wf_intent_def signed_intent_def sample_intent_def SIGNATURE_LEN_def)

lemma game_id_samples [simp]:
  "game_id_of create_view = replicate 32 6" "game_id_of step_view = replicate 32 6"
  by (simp_all add: game_id_of_def create_view_def step_view_def game_script_def)

lemma create_accepts: "game_accepts sample_externals (game_vm create_view) create_view"
  by (simp add: game_accepts_def GAME_ID_LEN_def create_view_def[THEN arg_cong, of gv_in]
      create_view_def[THEN arg_cong, of gv_out] state_decode_def)

lemma step_batch: "batch_of step_view = Some (encode_batch [signed_intent])"
  by (simp add: batch_of_def step_view_def)

lemma step_cells: "gv_in step_view = [[]]" "gv_out step_view = [state_encode one_player]"
  by (simp_all add: step_view_def)

lemma one_player_step:
  "legal_step sample_externals (game_vm v) (replicate 32 6) [] [signed_intent] (state_encode one_player)"
  using apply_batch_signed signed_intent_signed[of v] state_decode_encode[OF wf_one_player]
  by (simp add: legal_step_def state_decode_def equals_unordered_iff)

lemma step_accepts: "game_accepts sample_externals (game_vm step_view) step_view"
  using one_player_step decode_batch_encode[OF wf_signed_batch]
  by (simp add: game_accepts_def GAME_ID_LEN_def step_batch step_cells)

lemma game_decision_witness: "game_verify sample_externals (game_vm step_view) = Ok ()"
  using game_decision[OF sample_hex_is_text sample_game_runs(2)] step_accepts by simp

text \<open>
  The type script always exits, with a code from 0 to 15 that is 0 exactly on acceptance; no cell
  data and no witness can make it panic.
\<close>

theorem game_exit_code:
  assumes "hex_is_text X" and "game_runs_on V v" and "\<And>i. ordinary (gv_witness v i)"
  shows "\<exists>code. game_program_entry X V = Some code \<and> 0 \<le> code \<and> code \<le> 15 \<and>
           (code = 0 \<longleftrightarrow> game_accepts X V v)"
proof (cases "game_verify X V")
  case (Inl f)
  then obtain e where "f = Fail e" using game_verify_total[OF assms] by (cases f) auto
  then show ?thesis
    using Inl game_verify_refines[OF assms(1,2)] cell_error_code_range[of e]
    by (auto simp: game_program_entry_def)
next
  case (Inr u)
  then show ?thesis using game_verify_refines[OF assms(1,2)] by (auto simp: game_program_entry_def)
qed

lemma game_exit_code_witness: "game_program_entry sample_externals (game_vm create_view) = Some 0"
proof -
  have "ordinary (gv_witness create_view i)" for i by (simp add: ordinary_def create_view_def)
  from game_exit_code[OF sample_hex_is_text sample_game_runs(1) this] create_accepts show ?thesis by auto
qed

section \<open>Chains of accepted transactions\<close>

text \<open>
  The cells a game can reach, with the intents applied so far: a creation the script accepted,
  then steps the script accepted, each consuming the cell data of the one before it.
\<close>

inductive game_history :: "externals \<Rightarrow> bytes \<Rightarrow> bytes \<Rightarrow> intent list \<Rightarrow> bool" for X game_id where
  created: "game_history X game_id d []"
    if "game_verify X V = Ok ()" "game_runs_on V v" "game_id_of v = game_id" "gv_in v = []" "gv_out v = [d]"
| advanced: "game_history X game_id d' (log @ xs)"
    if "game_history X game_id d log" "game_verify X V = Ok ()" "game_runs_on V v" "game_id_of v = game_id"
       "gv_in v = [d]" "gv_out v = [d']" "batch_of v = Some b" "decode_batch b = Ok xs"

inductive_cases game_historyE: "game_history X game_id d log"

lemma legal_step_inv:
  assumes step: "legal_step X V g d xs d'" and d: "state_decode d = Ok s" and inv: "game_inv s" and wf: "wf_batch xs"
  shows "\<exists>u. state_decode d' = Ok u \<and> game_inv u \<and> spec_run (board_of s) xs = Some (board_of u) \<and>
           unat (gs_seq u) = unat (gs_seq s) + length xs"
proof -
  obtain t u where t: "apply_batch s xs = (Ok (), t)" and u: "state_decode d' = Ok u" "equals_unordered t u"
    using step d by (auto simp: legal_step_def)
  have "game_inv t" using inv t wf by (rule apply_batch_inv)
  then have "game_inv u" "board_of u = board_of t" using u(2) game_inv_unordered by blast+
  moreover have "gs_seq u = gs_seq t" using u(2) by (simp add: equals_unordered_iff)
  moreover have "length xs < 2 ^ 64" using wf by (simp add: wf_batch_def)
  ultimately show ?thesis using u(1) apply_batch_board[OF t] apply_batch_seq[OF t] by auto
qed

lemma spec_run_append: "spec_run b (xs @ ys) = Option.bind (spec_run b xs) (\<lambda>b'. spec_run b' ys)"
  by (induction xs arbitrary: b) (auto simp: Option.bind_assoc split: bind_splits)

lemma history_invariant:
  assumes X: "hex_is_text X" and h: "game_history X g d log"
  shows "\<exists>s. state_decode d = Ok s \<and> game_inv s \<and> spec_run (\<lambda>_. None) log = Some (board_of s) \<and>
           unat (gs_seq s) = length log \<and> list_all wf_intent log"
  using h
proof (induction rule: game_history.induct)
  case (created V v d)
  then have "state_decode d = Ok empty_state"
    using game_verify_refines[OF X created(2)] by (simp add: game_accepts_def)
  then show ?case by (simp add: board_of_def board_of_list_def empty_state_def game_inv_empty[unfolded empty_state_def])
next
  case (advanced d log V v d' b xs)
  then obtain s where s: "state_decode d = Ok s" "game_inv s" "spec_run (\<lambda>_. None) log = Some (board_of s)"
    "unat (gs_seq s) = length log" "list_all wf_intent log" by blast
  have "legal_step X V g d xs d'"
    using advanced game_verify_refines[OF X advanced(3)] by (auto simp: game_accepts_def)
  moreover have wf: "wf_batch xs" using decode_batch_sound[OF advanced(8)] by simp
  ultimately obtain u where "state_decode d' = Ok u" "game_inv u"
    "spec_run (board_of s) xs = Some (board_of u)" "unat (gs_seq u) = unat (gs_seq s) + length xs"
    using legal_step_inv s(1,2) by blast
  with s wf show ?case by (auto simp: spec_run_append wf_batch_def)
qed

lemma sample_history: "game_history sample_externals (replicate 32 6) (state_encode one_player) ([] @ [signed_intent])"
proof (rule advanced)
  show "game_history sample_externals (replicate 32 6) [] []"
    by (rule created[of _ "game_vm create_view" create_view])
       (use game_verify_refines[OF sample_hex_is_text sample_game_runs(1)] create_accepts sample_game_runs in
        \<open>auto simp: create_view_def[THEN arg_cong, of gv_in] create_view_def[THEN arg_cong, of gv_out]\<close>)
  show "game_verify sample_externals (game_vm step_view) = Ok ()"
    using game_verify_refines[OF sample_hex_is_text sample_game_runs(2)] step_accepts by simp
qed (use sample_game_runs step_batch step_cells decode_batch_encode[OF wf_signed_batch] in auto)

text \<open>
  C9: the state of a live game cell is the specification's board for the intents applied to it since
  its creation; its sequence number counts them, every player appears once, and the stored nonces
  add up to the sequence number.
\<close>

theorem history_is_spec_run:
  assumes "hex_is_text X" and "game_history X g d log"
  shows "\<exists>s. state_decode d = Ok s \<and> spec_run (\<lambda>_. None) log = Some (board_of s) \<and>
           unat (gs_seq s) = length log \<and> distinct (map p_hash (gs_players s)) \<and>
           sum_list (map (\<lambda>p. unat (p_nonce p)) (gs_players s)) = length log"
  using history_invariant[OF assms] by (fastforce simp: game_inv_def total_moves_def)

lemma history_is_spec_run_witness:
  "spec_run (\<lambda>_. None) [signed_intent] = Some (board_of one_player)"
  using history_is_spec_run[OF sample_hex_is_text sample_history] state_decode_encode[OF wf_one_player] by simp

lemma spec_run_nonces:
  assumes "spec_run (\<lambda>_. None) log = Some b" "j < length (moves_of h log)"
  shows "unat (i_nonce (moves_of h log ! j)) = j + 1"
  using player_run_nonces[OF spec_run_moves[OF assms(1)] assms(2)] by simp

lemma spec_run_distinct:
  assumes run: "spec_run (\<lambda>_. None) log = Some b"
  shows "distinct (map (\<lambda>i. (i_hash i, i_nonce i)) log)"
proof (rule ccontr)
  assume "\<not> distinct (map (\<lambda>i. (i_hash i, i_nonce i)) log)"
  then obtain j k where jk: "j < k" "k < length log" and
      eq: "i_hash (log ! j) = i_hash (log ! k)" "i_nonce (log ! j) = i_nonce (log ! k)"
    by (auto simp: distinct_conv_nth) (metis linorder_neqE_nat)
  define as x bs y cs where "as = take j log" and "x = log ! j" and "bs = drop (Suc j) (take k log)"
    and "y = log ! k" and "cs = drop (Suc k) log"
  have "drop j (take k log) = x # bs"
    using jk Cons_nth_drop_Suc[of j "take k log"] by (simp add: x_def bs_def)
  then have "take k log = as @ x # bs"
    using jk(1) append_take_drop_id[of j "take k log"] by (simp add: as_def min_def)
  then have log: "log = as @ x # bs @ y # cs"
    using jk(2) id_take_nth_drop[of k log] by (simp add: y_def cs_def)
  note eq = eq[folded x_def y_def]
  let ?h = "i_hash x" and ?j = "length (moves_of (i_hash x) as)" and ?k = "length (moves_of (i_hash x) (as @ x # bs))"
  have m: "moves_of ?h log = moves_of ?h (as @ x # bs) @ y # moves_of ?h cs"
      "moves_of ?h log = moves_of ?h as @ x # moves_of ?h (bs @ y # cs)"
    by (simp_all add: log eq(1))
  have "moves_of ?h log ! ?j = x" "?j < length (moves_of ?h log)" by (subst m(2), simp)+
  then have "unat (i_nonce x) = ?j + 1" using spec_run_nonces[OF run] by metis
  moreover have "moves_of ?h log ! ?k = y" "?k < length (moves_of ?h log)" by (subst m(1), simp only: nth_append_length length_append; simp)+
  then have "unat (i_nonce y) = ?k + 1" using spec_run_nonces[OF run] by metis
  ultimately show False using eq(2) by simp
qed

text \<open>
  C10: no intent is applied twice in the life of a game cell: the applied intents have distinct pairs
  of player and nonce, and the nonces of each player are 1, 2, 3, ... in the order of application.
\<close>

theorem history_without_replay:
  assumes "hex_is_text X" and "game_history X g d log"
  shows "distinct (map (\<lambda>i. (i_hash i, i_nonce i)) log) \<and>
         (\<forall>h. map (\<lambda>i. unat (i_nonce i)) (moves_of h log) = map Suc [0..<length (moves_of h log)])"
proof -
  obtain b where run: "spec_run (\<lambda>_. None) log = Some b" using history_invariant[OF assms] by blast
  have "map (\<lambda>i. unat (i_nonce i)) (moves_of h log) = map Suc [0..<length (moves_of h log)]" for h
    by (rule nth_equalityI) (simp_all add: spec_run_nonces[OF run])
  with spec_run_distinct[OF run] show ?thesis by blast
qed

lemma history_without_replay_witness:
  "map (\<lambda>i. unat (i_nonce i)) (moves_of (replicate 20 1) [signed_intent]) = [1]"
  using history_without_replay[OF sample_hex_is_text sample_history, THEN conjunct2, THEN spec, of "replicate 20 1"]
  by (simp add: signed_intent_def sample_intent_def)

text \<open>
  C11: nobody's score comes from nowhere: a player's score is the sum of the points of that player's
  own applied intents, the stored nonce is their number, and the score is at most 1000 per move.
\<close>

theorem history_scores:
  assumes "hex_is_text X" and "game_history X g d log"
  shows "\<exists>s. state_decode d = Ok s \<and>
     (\<forall>p \<in> set (gs_players s). unat (p_score p) = points_of (moves_of (p_hash p) log) \<and>
        unat (p_nonce p) = length (moves_of (p_hash p) log) \<and> unat (p_score p) \<le> 1000 * unat (p_nonce p))"
proof -
  obtain s where s: "state_decode d = Ok s" "game_inv s" and run: "spec_run (\<lambda>_. None) log = Some (board_of s)"
    using history_invariant[OF assms] by blast
  have "unat (p_score p) = points_of (moves_of (p_hash p) log) \<and> unat (p_nonce p) = length (moves_of (p_hash p) log)
      \<and> unat (p_score p) \<le> 1000 * unat (p_nonce p)" if p: "p \<in> set (gs_players s)" for p
  proof -
    have "fst \<circ> standing_entry = p_hash" by (auto simp: standing_entry_def)
    then have "board_of s (p_hash p) = Some (unat (p_score p), unat (p_nonce p))"
      using p s(2) unfolding board_of_map
      by (intro map_of_is_SomeI) (auto simp: game_inv_def standing_entry_def image_iff)
    moreover have "unat (p_score p) \<le> 1000 * unat (p_nonce p)"
      using p s(2) by (auto simp: game_inv_def list_all_iff entry_inv_def)
    ultimately show ?thesis using player_run_totals[OF spec_run_moves[OF run, of "p_hash p"]] by simp
  qed
  with s(1) show ?thesis by blast
qed

lemma history_scores_witness: "points_of (moves_of (replicate 20 1) [signed_intent]) = 5"
  using history_scores[OF sample_hex_is_text sample_history] state_decode_encode[OF wf_one_player]
  by (auto simp: one_player_def signed_intent_def sample_intent_def)

section \<open>Creation\<close>

text \<open>
  A creation consumes nothing that names the game: the script accepts an empty board under any
  32-byte id, so the id alone does not make a cell unique.
\<close>

theorem genesis_repeatable:
  assumes "hex_is_text X" and "game_runs_on V v" and "length (game_id_of v) = GAME_ID_LEN"
    and "gv_in v = []" and "gv_out v = [d]" and "state_decode d = Ok empty_state"
  shows "game_verify X V = Ok ()"
  using game_verify_refines[OF assms(1,2)] assms(3-6) by (simp add: game_accepts_def)

end
