(* ===== verification/Channel.thy ===== *)
theory Channel
  imports Sdk
begin

text \<open>
  Session-funded payment channels, sdk/src/channel.rs: the rail interface with its in-memory
  implementation, the builders of the funding and settle transactions, and the channel session that
  ties the two together.  The Rust trait \<open>FiberRail\<close> is a record of functions over the state of a
  rail; what a client may rely on is the locale \<open>fiber_rail\<close>, interpreted on \<open>MockRail\<close>.
\<close>

section \<open>The rail\<close>

type_synonym peer_id = bytes

definition peer_from_str :: "string \<Rightarrow> peer_id" where
  "peer_from_str s = ascii s"

record settlement =
  st_local :: u128
  st_remote :: u128

record ('r, 'c, 'e) rail_ops =
  rail_open :: "'r \<Rightarrow> peer_id \<Rightarrow> u128 \<Rightarrow> out_point \<Rightarrow> ('e, 'c) result \<times> 'r"
  rail_pay :: "'r \<Rightarrow> 'c \<Rightarrow> u128 \<Rightarrow> ('e, unit) result \<times> 'r"
  rail_close :: "'r \<Rightarrow> 'c \<Rightarrow> ('e, settlement) result \<times> 'r"

datatype mock_rail_error = InsufficientBalance | UnknownChannel

record mock_channel =
  mc_local :: u128
  mc_remote :: u128

record mock_rail =
  channels :: "mock_channel list"

definition mock_rail_new :: mock_rail where
  "mock_rail_new = \<lparr>channels = []\<rparr>"

text \<open>The channel \<open>get_mut\<close> finds, as an index into \<open>channels\<close>.\<close>

definition mock_get_mut :: "mock_rail \<Rightarrow> u64 \<Rightarrow> (mock_rail_error, nat) result" where
  "mock_get_mut r ch = (if unat ch < length (channels r) then Ok (unat ch) else Err UnknownChannel)"

definition mock_open :: "mock_rail \<Rightarrow> peer_id \<Rightarrow> u128 \<Rightarrow> out_point \<Rightarrow> (mock_rail_error, u64) result \<times> mock_rail" where
  "mock_open r peer budget funding =
     (Ok (of_nat (length (channels r))), r\<lparr>channels := channels r @ [\<lparr>mc_local = budget, mc_remote = 0\<rparr>]\<rparr>)"

text \<open>
  \<open>ch.remote += amount\<close> panics on overflow; the local balance is already reduced at that point.
\<close>

definition mock_pay :: "mock_rail \<Rightarrow> u64 \<Rightarrow> u128 \<Rightarrow> (mock_rail_error, unit) result \<times> mock_rail" where
  "mock_pay r ch amount =
     (case mock_get_mut r ch of
        Inl f \<Rightarrow> (Inl f, r)
      | Inr k \<Rightarrow>
          (let e = channels r ! k in
           case checked_sub (mc_local e) amount of
             None \<Rightarrow> (Err InsufficientBalance, r)
           | Some l \<Rightarrow>
               (case checked_add (mc_remote e) amount of
                  None \<Rightarrow> (Panicked, r\<lparr>channels := (channels r)[k := e\<lparr>mc_local := l\<rparr>]\<rparr>)
                | Some m \<Rightarrow> (Ok (), r\<lparr>channels := (channels r)[k := \<lparr>mc_local = l, mc_remote = m\<rparr>]\<rparr>))))"

definition mock_close :: "mock_rail \<Rightarrow> u64 \<Rightarrow> (mock_rail_error, settlement) result \<times> mock_rail" where
  "mock_close r ch =
     (case mock_get_mut r ch of
        Inl f \<Rightarrow> (Inl f, r)
      | Inr k \<Rightarrow> (Ok \<lparr>st_local = mc_local (channels r ! k), st_remote = mc_remote (channels r ! k)\<rparr>, r))"

definition mock_ops :: "(mock_rail, u64, mock_rail_error) rail_ops" where
  "mock_ops = \<lparr>rail_open = mock_open, rail_pay = mock_pay, rail_close = mock_close\<rparr>"

section \<open>Transactions\<close>

definition channel_session_params :: "externals \<Rightarrow> bytes \<Rightarrow> u64 \<Rightarrow> script \<Rightarrow> u64 \<Rightarrow> bytes \<Rightarrow> bytes" where
  "channel_session_params X session_hash expires funding_lock budget guardian =
     (let root = policy_leaf_for_script X funding_lock
      in sdk_session_params session_hash expires root (ucast budget) guardian)"

definition channel_proof_region :: bytes where
  "channel_proof_region = proof_region [(sdk_POLICY_KIND_LOCK, [])]"

record channel_config =
  cc_account_lock :: script
  cc_account_input :: out_point
  cc_account_capacity :: u64
  cc_funding_lock :: script
  cc_cell_deps :: "cell_dep list"
  cc_header_dep :: bytes

record channel_tx =
  ct_tx :: transaction
  ct_index :: nat

definition channel_outpoint :: "externals \<Rightarrow> channel_tx \<Rightarrow> out_point" where
  "channel_outpoint X t = \<lparr>op_tx_hash = calc_tx_hash X (tx_raw (ct_tx t)), op_index = of_nat (ct_index t)\<rparr>"

definition account_change :: "script \<Rightarrow> u64 \<Rightarrow> cell_output" where
  "account_change lock capacity = \<lparr>co_capacity = capacity, co_lock = lock, co_type = None\<rparr>"

text \<open>\<open>TransactionBuilder::default()\<close> with the parts the two builders set.\<close>

definition channel_build :: "channel_config \<Rightarrow> out_point \<Rightarrow> cell_output list \<Rightarrow> bytes list \<Rightarrow> transaction" where
  "channel_build cfg input outputs outputs_data =
     \<lparr>tx_raw = \<lparr>rt_version = 0, rt_cell_deps = cc_cell_deps cfg, rt_header_deps = [cc_header_dep cfg],
                rt_inputs = [\<lparr>ci_previous_output = input, ci_since = 0\<rparr>],
                rt_outputs = outputs, rt_outputs_data = outputs_data\<rparr>,
      tx_witnesses = []\<rparr>"

definition build_funding_tx :: "channel_config \<Rightarrow> u64 \<Rightarrow> channel_tx" where
  "build_funding_tx cfg budget =
     (let change = saturating_sub (cc_account_capacity cfg) budget;
          outputs = [account_change (cc_account_lock cfg) change,
                     \<lparr>co_capacity = budget, co_lock = cc_funding_lock cfg, co_type = None\<rparr>]
      in \<lparr>ct_tx = channel_build cfg (cc_account_input cfg) outputs [[], []], ct_index = 1\<rparr>)"

text \<open>\<open>u64::try_from(local).unwrap_or(u64::MAX)\<close>.\<close>

definition u64_or_max :: "u128 \<Rightarrow> u64" where
  "u64_or_max a = (if unat a < 2 ^ 64 then ucast a else - 1)"

definition build_settle_tx :: "channel_config \<Rightarrow> out_point \<Rightarrow> settlement \<Rightarrow> channel_tx" where
  "build_settle_tx cfg funding st =
     (let local = u64_or_max (st_local st)
      in \<lparr>ct_tx = channel_build cfg funding [account_change (cc_account_lock cfg) local] [[]], ct_index = 0\<rparr>)"

section \<open>The channel session\<close>

datatype 'e channel_error = NotOpen | AlreadyOpen | OverBudget u128 u128 | Rail 'e

record ('r, 'c) channel_session =
  cs_cfg :: channel_config
  cs_rail :: 'r
  cs_channel :: "'c option"
  cs_funding :: "out_point option"
  cs_budget :: u128
  cs_spent :: u128

definition channel_new :: "channel_config \<Rightarrow> 'r \<Rightarrow> ('r, 'c) channel_session" where
  "channel_new cfg rail =
     \<lparr>cs_cfg = cfg, cs_rail = rail, cs_channel = None, cs_funding = None, cs_budget = 0, cs_spent = 0\<rparr>"

definition channel_open ::
  "externals \<Rightarrow> ('r, 'c, 'e) rail_ops \<Rightarrow> ('r, 'c) channel_session \<Rightarrow> peer_id \<Rightarrow> u64 \<Rightarrow>
   ('e channel_error, channel_tx) result \<times> ('r, 'c) channel_session" where
  "channel_open X R s peer budget =
     (if cs_channel s \<noteq> None then (Err AlreadyOpen, s)
      else
        (let funding_tx = build_funding_tx (cs_cfg s) budget;
             funding = channel_outpoint X funding_tx
         in case rail_open R (cs_rail s) peer (ucast budget) funding of
              (Inl f, r) \<Rightarrow> (map_err Rail (Inl f), s\<lparr>cs_rail := r\<rparr>)
            | (Inr c, r) \<Rightarrow>
                (Ok funding_tx,
                 s\<lparr>cs_rail := r, cs_channel := Some c, cs_funding := Some funding,
                   cs_budget := ucast budget, cs_spent := 0\<rparr>)))"

definition channel_pay ::
  "('r, 'c, 'e) rail_ops \<Rightarrow> ('r, 'c) channel_session \<Rightarrow> u128 \<Rightarrow>
   ('e channel_error, unit) result \<times> ('r, 'c) channel_session" where
  "channel_pay R s amount =
     (case cs_channel s of
        None \<Rightarrow> (Err NotOpen, s)
      | Some c \<Rightarrow>
          (case checked_sub (cs_budget s) (cs_spent s) of
             None \<Rightarrow> (Panicked, s)
           | Some remaining \<Rightarrow>
               if amount > remaining then (Err (OverBudget remaining amount), s)
               else
                 (case rail_pay R (cs_rail s) c amount of
                    (Inl f, r) \<Rightarrow> (map_err Rail (Inl f), s\<lparr>cs_rail := r\<rparr>)
                  | (Inr _, r) \<Rightarrow>
                      (case checked_add (cs_spent s) amount of
                         None \<Rightarrow> (Panicked, s\<lparr>cs_rail := r\<rparr>)
                       | Some n \<Rightarrow> (Ok (), s\<lparr>cs_rail := r, cs_spent := n\<rparr>)))))"

text \<open>\<open>close\<close> consumes the session; the rail it owned is returned for the record.\<close>

definition channel_close ::
  "('r, 'c, 'e) rail_ops \<Rightarrow> ('r, 'c) channel_session \<Rightarrow>
   ('e channel_error, settlement \<times> channel_tx) result \<times> 'r" where
  "channel_close R s =
     (case cs_channel s of
        None \<Rightarrow> (Err NotOpen, cs_rail s)
      | Some c \<Rightarrow>
          (case cs_funding s of
             None \<Rightarrow> (Err NotOpen, cs_rail s)
           | Some funding \<Rightarrow>
               (case rail_close R (cs_rail s) c of
                  (Inl f, r) \<Rightarrow> (map_err Rail (Inl f), r)
                | (Inr st, r) \<Rightarrow> (Ok (st, build_settle_tx (cs_cfg s) funding st), r))))"

definition channel_budget :: "('r, 'c) channel_session \<Rightarrow> u128" where
  "channel_budget s = cs_budget s"

definition channel_spent :: "('r, 'c) channel_session \<Rightarrow> u128" where
  "channel_spent s = cs_spent s"

definition channel_remaining :: "('r, 'c) channel_session \<Rightarrow> (unit, u128) result" where
  "channel_remaining s = (case checked_sub (cs_budget s) (cs_spent s) of None \<Rightarrow> Panicked | Some r \<Rightarrow> Ok r)"

definition channel_is_open :: "('r, 'c) channel_session \<Rightarrow> bool" where
  "channel_is_open s \<longleftrightarrow> cs_channel s \<noteq> None"

text \<open>A sequence of payments: the amounts that were accepted, and the session after them.\<close>

fun run_pays ::
  "('r, 'c, 'e) rail_ops \<Rightarrow> ('r, 'c) channel_session \<Rightarrow> u128 list \<Rightarrow> u128 list \<times> ('r, 'c) channel_session" where
  "run_pays R s [] = ([], s)"
| "run_pays R s (a # as) =
     (case channel_pay R s a of
        (Inr _, s') \<Rightarrow> (let (ok, t) = run_pays R s' as in (a # ok, t))
      | (Inl _, s') \<Rightarrow> run_pays R s' as)"

section \<open>What a client may rely on\<close>

text \<open>
  The contract of a rail, through the balances it keeps for a channel (local and remote, as natural
  numbers): opening credits the whole budget locally, a payment moves its amount and is refused
  only when it cannot be covered, a refused payment moves nothing, and closing reports the balances.
\<close>

locale fiber_rail =
  fixes R :: "('r, 'c, 'e) rail_ops"
    and balances :: "'r \<Rightarrow> 'c \<Rightarrow> (nat \<times> nat) option"
    and ready :: "'r \<Rightarrow> bool"
  assumes open_balances:
      "ready r \<Longrightarrow> rail_open R r peer b f = (Ok c, r') \<Longrightarrow> balances r' c = Some (unat b, 0)"
    and pay_moves:
      "balances r c = Some (l, m) \<Longrightarrow> l + m < 2 ^ 128 \<Longrightarrow> unat a \<le> l \<Longrightarrow>
       \<exists>r'. rail_pay R r c a = (Ok (), r') \<and> balances r' c = Some (l - unat a, m + unat a)"
    and close_reports:
      "balances r c = Some (l, m) \<Longrightarrow>
       \<exists>st r'. rail_close R r c = (Ok st, r') \<and> unat (st_local st) = l \<and> unat (st_remote st) = m"
begin

text \<open>An open session and its rail agree: what is spent is remote, the rest of the budget is local.\<close>

definition in_step :: "('r, 'c) channel_session \<Rightarrow> nat \<Rightarrow> nat \<Rightarrow> bool" where
  "in_step s budget paid \<longleftrightarrow>
     (\<exists>c. cs_channel s = Some c \<and> balances (cs_rail s) c = Some (budget - paid, paid)) \<and>
     unat (cs_budget s) = budget \<and> unat (cs_spent s) = paid \<and> paid \<le> budget"

lemma open_in_step:
  assumes "ready (cs_rail s)" and "channel_open X R s peer b = (Ok t, s')"
  shows "in_step s' (unat b) 0 \<and> cs_funding s' = Some (channel_outpoint X t) \<and> t = build_funding_tx (cs_cfg s) b
     \<and> cs_cfg s' = cs_cfg s"
proof -
  have "unat b < 2 ^ 128" using unat_less_2p[of b] by simp
  then have "unat (ucast b :: u128) = unat b" by (simp add: unsigned_ucast_eq take_bit_nat_eq_self)
  moreover obtain c r where r: "rail_open R (cs_rail s) peer (ucast b) (channel_outpoint X (build_funding_tx (cs_cfg s) b)) = (Ok c, r)"
    and t: "t = build_funding_tx (cs_cfg s) b"
    and s': "s' = s\<lparr>cs_rail := r, cs_channel := Some c, cs_funding := Some (channel_outpoint X t),
               cs_budget := ucast b, cs_spent := 0\<rparr>"
    using assms(2)
    by (auto simp: channel_open_def Let_def map_err_Ok_iff split: if_splits prod.splits sum.splits)
  ultimately show ?thesis using open_balances[OF assms(1) r] by (simp add: in_step_def)
qed

lemma pay_step:
  assumes "in_step s budget paid"
  shows "channel_pay R s a =
      (if unat a \<le> budget - paid
       then (Ok (), snd (channel_pay R s a))
       else (Err (OverBudget (cs_budget s - cs_spent s) a), s))
    \<and> in_step (snd (channel_pay R s a)) budget (if unat a \<le> budget - paid then paid + unat a else paid)
    \<and> cs_funding (snd (channel_pay R s a)) = cs_funding s \<and> cs_cfg (snd (channel_pay R s a)) = cs_cfg s"
proof -
  obtain c where c: "cs_channel s = Some c" "balances (cs_rail s) c = Some (budget - paid, paid)"
    and n: "unat (cs_budget s) = budget" "unat (cs_spent s) = paid" "paid \<le> budget"
    using assms by (auto simp: in_step_def)
  have le: "cs_spent s \<le> cs_budget s" using n by (simp add: word_le_nat_alt)
  then have sub: "checked_sub (cs_budget s) (cs_spent s) = Some (cs_budget s - cs_spent s)"
    by (simp add: checked_sub_def)
  have rem: "unat (cs_budget s - cs_spent s) = budget - paid"
    using le n by (simp add: unat_sub_if' word_le_nat_alt)
  have lt: "budget < 2 ^ 128" using unat_less_2p[of "cs_budget s"] n by simp
  show ?thesis
  proof (cases "unat a \<le> budget - paid")
    case True
    then obtain r' where r: "rail_pay R (cs_rail s) c a = (Ok (), r')"
      and b: "balances r' c = Some (budget - paid - unat a, paid + unat a)"
      using pay_moves[OF c(2)] lt n(3) by auto
    have "paid + unat a < 2 ^ 128" using True n(3) lt by linarith
    then obtain q where q: "checked_add (cs_spent s) a = Some q" "unat q = paid + unat a"
      using n(2) by (simp add: checked_add_def unat_word_ariths)
    have pay: "channel_pay R s a = (Ok (), s\<lparr>cs_rail := r', cs_spent := q\<rparr>)"
      using c(1) sub True rem r q(1) by (simp add: channel_pay_def word_less_nat_alt)
    show ?thesis using True n b c q by (simp add: pay in_step_def)
  next
    case False
    then have "channel_pay R s a = (Err (OverBudget (cs_budget s - cs_spent s) a), s)"
      using c(1) sub rem by (simp add: channel_pay_def word_less_nat_alt)
    with False assms show ?thesis by simp
  qed
qed

lemmas pay_decides = pay_step[THEN conjunct1] pay_step[THEN conjunct2, THEN conjunct1]
  pay_step[THEN conjunct2, THEN conjunct2]

lemma run_pays_in_step:
  "in_step s budget paid \<Longrightarrow> run_pays R s as = (ok, t) \<Longrightarrow>
   in_step t budget (paid + sum_list (map unat ok)) \<and> cs_funding t = cs_funding s \<and> cs_cfg t = cs_cfg s"
proof (induction as arbitrary: s paid ok t)
  case (Cons a as)
  note d = pay_decides[OF Cons.prems(1), of a]
  show ?case
  proof (cases "unat a \<le> budget - paid")
    case True
    obtain ok' where "run_pays R (snd (channel_pay R s a)) as = (ok', t)" "ok = a # ok'"
      using Cons.prems(2) d(1) True by (auto split: prod.splits)
    with Cons.IH[of "snd (channel_pay R s a)" "paid + unat a" ok' t] d(2,3) True show ?thesis
      by (simp add: add.assoc)
  next
    case False
    then have p: "channel_pay R s a = (Err (OverBudget (cs_budget s - cs_spent s) a), s)"
      using d(1) by simp
    with Cons.prems Cons.IH[of s paid ok t] show ?thesis by simp
  qed
qed simp

lemma close_settles:
  assumes s: "in_step s budget paid" and f: "cs_funding s = Some funding" and b: "budget < 2 ^ 64"
  shows "\<exists>st r. channel_close R s = (Ok (st, build_settle_tx (cs_cfg s) funding st), r) \<and>
     unat (st_local st) = budget - paid \<and> unat (st_remote st) = paid \<and>
     rt_outputs (tx_raw (ct_tx (build_settle_tx (cs_cfg s) funding st))) =
       [account_change (cc_account_lock (cs_cfg s)) (of_nat (budget - paid))]"
proof -
  obtain c where c: "cs_channel s = Some c" "balances (cs_rail s) c = Some (budget - paid, paid)"
    using s by (auto simp: in_step_def)
  obtain st r where st: "rail_close R (cs_rail s) c = (Ok st, r)" "unat (st_local st) = budget - paid"
    "unat (st_remote st) = paid" using close_reports[OF c(2)] by blast
  have "unat (st_local st) < 2 ^ 64" using st(2) b by linarith
  then have "u64_or_max (st_local st) = of_nat (budget - paid)"
    using st(2) by (simp add: u64_or_max_def word_unat_eq_iff unsigned_ucast_eq unat_of_nat take_bit_eq_mod)
  with c f st show ?thesis by (simp add: channel_close_def build_settle_tx_def channel_build_def)
qed

end

section \<open>The in-memory rail keeps the contract\<close>

definition mock_balances :: "mock_rail \<Rightarrow> u64 \<Rightarrow> (nat \<times> nat) option" where
  "mock_balances r ch =
     (if unat ch < length (channels r)
      then Some (unat (mc_local (channels r ! unat ch)), unat (mc_remote (channels r ! unat ch))) else None)"

definition mock_ready :: "mock_rail \<Rightarrow> bool" where
  "mock_ready r \<longleftrightarrow> length (channels r) < 2 ^ 64"

lemma mock_open_balances:
  assumes "mock_ready r" "mock_open r peer b f = (Ok c, r')"
  shows "mock_balances r' c = Some (unat b, 0)"
proof -
  have c: "c = of_nat (length (channels r))"
    and r': "r' = r\<lparr>channels := channels r @ [\<lparr>mc_local = b, mc_remote = 0\<rparr>]\<rparr>"
    using assms(2) by (simp_all add: mock_open_def)
  have "unat c = length (channels r)" using assms(1) unfolding c by (intro unat_of_nat_small) (simp add: mock_ready_def)
  then show ?thesis by (simp add: mock_balances_def r')
qed

lemma mock_pay_moves:
  assumes b: "mock_balances r c = Some (l, m)" and fits: "l + m < 2 ^ 128" and a: "unat a \<le> l"
  shows "\<exists>r'. mock_pay r c a = (Ok (), r') \<and> mock_balances r' c = Some (l - unat a, m + unat a)"
proof -
  let ?k = "unat c" and ?e = "channels r ! unat c"
  have k: "?k < length (channels r)" and lm: "unat (mc_local ?e) = l" "unat (mc_remote ?e) = m"
    using b by (auto simp: mock_balances_def split: if_splits)
  have s: "checked_sub (mc_local ?e) a = Some (mc_local ?e - a)" "unat (mc_local ?e - a) = l - unat a"
    using a lm by (simp_all add: checked_sub_def word_le_nat_alt unat_sub_if')
  have "m + unat a < 2 ^ 128" using fits a by linarith
  then have p: "checked_add (mc_remote ?e) a = Some (mc_remote ?e + a)" "unat (mc_remote ?e + a) = m + unat a"
    using lm by (simp_all add: checked_add_def unat_word_ariths)
  show ?thesis
    using k by (simp add: mock_pay_def mock_get_mut_def Let_def s p mock_balances_def)
qed

lemma mock_close_reports:
  "mock_balances r c = Some (l, m) \<Longrightarrow>
   \<exists>st r'. mock_close r c = (Ok st, r') \<and> unat (st_local st) = l \<and> unat (st_remote st) = m"
  by (auto simp: mock_balances_def mock_close_def mock_get_mut_def split: if_splits)

interpretation mock: fiber_rail mock_ops mock_balances mock_ready
  by unfold_locales
     (use mock_open_balances mock_pay_moves mock_close_reports in \<open>auto simp: mock_ops_def\<close>)

end
