(* ===== verification/Channel_Properties.thy ===== *)
theory Channel_Properties
  imports Channel Sdk_Properties
begin

text \<open>
  The payment channel end to end: conservation of the budget over any run of payments, the
  transactions the builders emit, and what the session lock makes of them.
\<close>

section \<open>The off-chain ledger\<close>

text \<open>
  C29: over the in-memory rail, whatever payments are attempted, the budget is conserved: closing
  always succeeds and reports what the accepted payments add up to as the counterparty's share and
  the rest of the budget as the account's, and the settle transaction pays exactly that rest back.
\<close>

theorem channel_conserves_budget:
  assumes "mock_ready (cs_rail s)" and "channel_open X mock_ops s peer b = (Ok t, s1)"
    and "run_pays mock_ops s1 amounts = (accepted, s2)"
  shows "\<exists>st tx r. channel_close mock_ops s2 = (Ok (st, tx), r) \<and>
     unat (st_remote st) = sum_list (map unat accepted) \<and>
     unat (st_local st) + unat (st_remote st) = unat b \<and>
     map (\<lambda>i. ci_previous_output i) (rt_inputs (tx_raw (ct_tx tx))) = [channel_outpoint X t] \<and>
     map (\<lambda>c. (co_lock c, unat (co_capacity c))) (rt_outputs (tx_raw (ct_tx tx)))
       = [(cc_account_lock (cs_cfg s), unat (st_local st))]"
proof -
  have o: "mock.in_step s1 (unat b) 0" "cs_funding s1 = Some (channel_outpoint X t)" "cs_cfg s1 = cs_cfg s"
    using mock.open_in_step[OF assms(1,2)] by auto
  define paid where "paid = sum_list (map unat accepted)"
  have r: "mock.in_step s2 (unat b) paid" "cs_funding s2 = Some (channel_outpoint X t)" "cs_cfg s2 = cs_cfg s"
    using mock.run_pays_in_step[OF o(1) assms(3)] o by (auto simp: paid_def)
  have le: "paid \<le> unat b" using r(1) by (simp add: mock.in_step_def)
  have "unat b < 2 ^ 64" using unat_less_2p[of b] by simp
  from mock.close_settles[OF r(1,2) this] r(3) obtain st z where
    "channel_close mock_ops s2 = (Ok (st, build_settle_tx (cs_cfg s) (channel_outpoint X t) st), z)"
    "unat (st_local st) = unat b - paid" "unat (st_remote st) = paid"
    "rt_outputs (tx_raw (ct_tx (build_settle_tx (cs_cfg s) (channel_outpoint X t) st))) =
       [account_change (cc_account_lock (cs_cfg s)) (of_nat (unat b - paid))]"
    by auto
  moreover have "map (\<lambda>i. ci_previous_output i)
      (rt_inputs (tx_raw (ct_tx (build_settle_tx (cs_cfg s) (channel_outpoint X t) st)))) = [channel_outpoint X t]" for st
    by (simp add: build_settle_tx_def channel_build_def)
  moreover have "unat (of_nat (unat b - paid) :: u64) = unat b - paid"
    using unat_less_2p[of b] by (intro unat_of_nat_small) simp
  ultimately show ?thesis using le unfolding paid_def[symmetric]
    by (intro exI conjI) (assumption | simp add: account_change_def)+
qed

definition sample_point :: out_point where
  "sample_point = \<lparr>op_tx_hash = replicate 32 5, op_index = 0\<rparr>"

text \<open>An account of 100 shannons, for the samples of this theory.\<close>

definition channel_owner_args :: bytes where
  "channel_owner_args = replicate 20 1"

definition channel_args :: bytes where
  "channel_args = registered_args channel_owner_args
     (channel_session_params sample_externals (replicate 20 2) NO_EXPIRY other_script 30 (replicate 20 0))"

definition channel_lock :: script where
  "channel_lock = sample_script\<lparr>s_args := channel_args\<rparr>"

definition sample_config :: channel_config where
  "sample_config = \<lparr>cc_account_lock = channel_lock, cc_account_input = sample_point, cc_account_capacity = 100,
     cc_funding_lock = other_script, cc_cell_deps = [], cc_header_dep = replicate 32 8\<rparr>"

definition sample_session :: "(mock_rail, u64) channel_session" where
  "sample_session = channel_new sample_config mock_rail_new"

lemma sample_open:
  "\<exists>s1. channel_open sample_externals mock_ops sample_session [] 30 = (Ok (build_funding_tx sample_config 30), s1)"
  by (simp add: channel_open_def sample_session_def channel_new_def mock_ops_def mock_open_def Let_def)

lemma sample_ready: "mock_ready (cs_rail sample_session)"
  by (simp add: mock_ready_def sample_session_def channel_new_def mock_rail_new_def)

lemma channel_conserves_budget_witness:
  "\<exists>s1 accepted s2 st tx r.
     channel_open sample_externals mock_ops sample_session [] 30 = (Ok (build_funding_tx sample_config 30), s1) \<and>
     run_pays mock_ops s1 [10, 25, 15] = (accepted, s2) \<and> channel_close mock_ops s2 = (Ok (st, tx), r) \<and>
     unat (st_local st) + unat (st_remote st) = 30"
proof -
  obtain s1 where o: "channel_open sample_externals mock_ops sample_session [] 30 = (Ok (build_funding_tx sample_config 30), s1)"
    using sample_open by blast
  obtain accepted s2 where p: "run_pays mock_ops s1 [10, 25, 15] = (accepted, s2)" by fastforce
  from channel_conserves_budget[OF sample_ready o p] obtain st tx r where
    "channel_close mock_ops s2 = (Ok (st, tx), r)" "unat (st_local st) + unat (st_remote st) = unat (30 :: u64)" by blast
  with o p show ?thesis by auto
qed

text \<open>
  A payment on an open channel is accepted exactly when it does not exceed what is left of the
  budget; a refused one leaves the session as it was and names what is left.
\<close>

theorem channel_pay_decides:
  assumes "mock_ready (cs_rail s)" and "channel_open X mock_ops s peer b = (Ok t, s1)"
    and "run_pays mock_ops s1 amounts = (accepted, s2)"
  shows "if sum_list (map unat accepted) + unat a \<le> unat b
     then fst (channel_pay mock_ops s2 a) = Ok () \<and>
          unat (cs_spent (snd (channel_pay mock_ops s2 a))) = sum_list (map unat accepted) + unat a
     else channel_pay mock_ops s2 a = (Err (OverBudget (cs_budget s2 - cs_spent s2) a), s2)"
proof -
  have i: "mock.in_step s2 (unat b) (sum_list (map unat accepted))"
    using mock.run_pays_in_step[OF conjunct1[OF mock.open_in_step[OF assms(1,2)]] assms(3)] by simp
  then have "sum_list (map unat accepted) \<le> unat b" by (simp add: mock.in_step_def)
  then have e: "unat a \<le> unat b - sum_list (map unat accepted) \<longleftrightarrow> sum_list (map unat accepted) + unat a \<le> unat b"
    by linarith
  note d = mock.pay_decides(1,2)[OF i, of a, unfolded e]
  show ?thesis
  proof (cases "sum_list (map unat accepted) + unat a \<le> unat b")
    case True
    then have "fst (channel_pay mock_ops s2 a) = Ok ()" by (subst d(1)) simp
    moreover have "unat (cs_spent (snd (channel_pay mock_ops s2 a))) = sum_list (map unat accepted) + unat a"
      using d(2) True by (simp add: mock.in_step_def)
    ultimately show ?thesis using True by simp
  next
    case False
    with d(1) show ?thesis by simp
  qed
qed

lemma channel_pay_decides_witness:
  "\<exists>s1. channel_open sample_externals mock_ops sample_session [] 30 = (Ok (build_funding_tx sample_config 30), s1) \<and>
     channel_pay mock_ops s1 31 = (Err (OverBudget (cs_budget s1 - cs_spent s1) 31), s1)"
proof -
  obtain s1 where o: "channel_open sample_externals mock_ops sample_session [] 30 = (Ok (build_funding_tx sample_config 30), s1)"
    using sample_open by blast
  have "run_pays mock_ops s1 [] = ([], s1)" by simp
  from channel_pay_decides[OF sample_ready o this, of 31] o show ?thesis by simp
qed

section \<open>The funding transaction and the lock\<close>

text \<open>The view of a funding transaction that spends an account cell with data \<open>d\<close>.\<close>

definition funds_channel :: "lock_view \<Rightarrow> channel_config \<Rightarrow> u64 \<Rightarrow> bytes \<Rightarrow> bool" where
  "funds_channel v cfg budget d \<longleftrightarrow>
     lv_script v = cc_account_lock cfg \<and>
     tx_raw (lv_tx v) = tx_raw (ct_tx (build_funding_tx cfg budget)) \<and>
     lv_outputs v = zip (rt_outputs (tx_raw (lv_tx v))) (rt_outputs_data (tx_raw (lv_tx v))) \<and>
     (\<exists>ty. lv_group v = [(\<lparr>co_capacity = cc_account_capacity cfg, co_lock = cc_account_lock cfg, co_type = ty\<rparr>, d)])"

lemma funds_channel_cells:
  assumes "funds_channel v cfg budget d"
  shows "lv_outputs v =
      [(account_change (cc_account_lock cfg) (saturating_sub (cc_account_capacity cfg) budget), []),
       (\<lparr>co_capacity = budget, co_lock = cc_funding_lock cfg, co_type = None\<rparr>, [])]"
    and "account_data v = d" and "capacity_sum (lv_group v) = unat (cc_account_capacity cfg)"
    and "lv_script v = cc_account_lock cfg" and "length (lv_group v) = 1"
  using assms by (auto simp: funds_channel_def build_funding_tx_def channel_build_def Let_def account_data_def)

lemma single_policy:
  "merkle_root H [l] = Ok l" "merkle_proof H [l] 0 = Ok []"
  by (simp_all add: merkle_root_def merkle_proof_def merkle_loop.simps[of H "[l]"] merkle_proof_loop.simps[of H "[l]"])

lemma funding_accepted:
  assumes "hex_is_text X" and "digests_32 X" and "lock_runs_on V v" and "funds_channel v cfg budget []"
    and "length owner = 20" and "length sh = 20" and "length g = 20"
    and "s_args (lv_script v) = registered_args owner (channel_session_params X sh ex (cc_funding_lock cfg) budget g)"
    and "\<not> same_code (cc_funding_lock cfg) (cc_account_lock cfg)"
    and "lv_witness v = Inr wa" and "wa_lock wa = Some (MODE_SESSION # ss @ opt_bytes gs @ channel_proof_region)"
    and "sh \<noteq> replicate 20 0" and "signed_by X V sh (sdk_tx_message X (lv_tx v)) ss"
    and "case gs of None \<Rightarrow> g = replicate 20 0
         | Some s \<Rightarrow> g \<noteq> replicate 20 0 \<and> signed_by X V g (sdk_tx_message X (lv_tx v)) s"
    and "unexpired v (params_of (channel_session_params X sh ex (cc_funding_lock cfg) budget g))"
  shows "auth X V = Ok ()"
proof -
  let ?leaf = "policy_leaf_for_script X (cc_funding_lock cfg)" and ?h = "calc_script_hash X (cc_funding_lock cfg)"
  let ?change = "saturating_sub (cc_account_capacity cfg) budget"
  note cells = funds_channel_cells[OF assms(4)]
  have p: "channel_session_params X sh ex (cc_funding_lock cfg) budget g = sdk_session_params sh ex ?leaf (ucast budget) g"
    by (simp add: channel_session_params_def)
  have leaf: "length ?leaf = 32" using assms(2) by (simp add: policy_leaf_for_script_def policy_leaf_def digests_32_def)
  have own: "same_code (cc_account_lock cfg) (cc_account_lock cfg)" by (simp add: same_code_def)
  have "policy_entry X [?h] (POLICY_KIND_LOCK, []) (\<lparr>co_capacity = budget, co_lock = cc_funding_lock cfg, co_type = None\<rparr>, [])"
    by (simp add: policy_entry_def single_policy)
  then have scope: "list_all2 (policy_entry X [?h]) [(POLICY_KIND_LOCK, [])] (foreign_cells (lv_script v) (lv_outputs v))"
    using own assms(9) by (simp add: foreign_cells_def cells account_change_def)
  have root: "merkle_root (blake2b_256 X) (map (policy_leaf X) [?h]) = Ok ?leaf"
    by (simp add: single_policy policy_leaf_for_script_def)
  have intact: "account_intact v"
    using own assms(9) by (simp add: account_intact_def cells account_kept_def account_change_def)
  have "unat (ucast budget :: u128) = unat budget" by simp
  moreover have "capacity_sum (own_cells (lv_script v) (lv_outputs v)) = unat ?change"
    using own assms(9) by (simp add: cells account_change_def)
  ultimately have cap: "within_cap v (params_of (sdk_session_params sh ex ?leaf (ucast budget) g))"
    using leaf assms(6) le_diff_conv[of "unat (cc_account_capacity cfg)" "unat budget" "unat (cc_account_capacity cfg) - unat budget"]
    by (simp add: within_cap_def cells(3) add.commute unat_saturating_sub params_of_def sdk_session_params_def)
  show ?thesis
    by (rule built_session_accepted[OF assms(1-3) cells(5) assms(5,6) leaf assms(7) assms(8)[unfolded p] assms(10)
          assms(11)[unfolded channel_proof_region_def] assms(12-14) _ assms(15)[unfolded p] intact cap, of "[?h]"])
       (use scope root in auto)
qed

text \<open>
  C31: the channel opens: for an account with empty data whose registered session was made by
  \<open>channel_session_params\<close>, the funding transaction of the SDK, session-signed and carrying
  \<open>channel_proof_region\<close>, is accepted by the lock, whatever the budget.
\<close>

theorem channel_funding_accepted:
  assumes "hex_is_text X" and "digests_32 X" and "lock_runs_on V v" and "funds_channel v cfg budget []"
    and "length owner = 20" and "length sh = 20" and "length g = 20"
    and "s_args (lv_script v) = registered_args owner (channel_session_params X sh ex (cc_funding_lock cfg) budget g)"
    and "\<not> same_code (cc_funding_lock cfg) (cc_account_lock cfg)"
    and "lv_witness v = Inr wa" and "wa_lock wa = Some (MODE_SESSION # ss @ opt_bytes gs @ channel_proof_region)"
    and "sh \<noteq> replicate 20 0" and "signed_by X V sh (sdk_tx_message X (lv_tx v)) ss"
    and "case gs of None \<Rightarrow> g = replicate 20 0
         | Some s \<Rightarrow> g \<noteq> replicate 20 0 \<and> signed_by X V g (sdk_tx_message X (lv_tx v)) s"
    and "unexpired v (params_of (channel_session_params X sh ex (cc_funding_lock cfg) budget g))"
  shows "auth X V = Ok ()"
  by (rule funding_accepted[OF assms])

text \<open>
  C32: and it does not open on an account whose owner ever revoked: the builder writes empty data
  into the account's continuation, so with a nonempty epoch in the account's data the lock rejects
  the funding transaction in session mode, whoever signed what.
\<close>

theorem channel_funding_rejected_after_revocation:
  assumes "hex_is_text X" and "lock_runs_on V v" and "funds_channel v cfg budget (epoch_data e)" and "e \<noteq> 0"
    and "session_witness v rest"
  shows "auth X V \<noteq> Ok ()"
proof
  assume ok: "auth X V = Ok ()"
  note cells = funds_channel_cells[OF assms(3)]
  let ?c = "(account_change (cc_account_lock cfg) (saturating_sub (cc_account_capacity cfg) budget), []) :: cell"
  have "?c \<in> set (lv_outputs v)" by (simp add: cells)
  moreover have "same_code (co_lock (fst ?c)) (lv_script v)" by (simp add: cells(4) account_change_def same_code_def)
  ultimately have "snd ?c = account_data v"
    using account_kept_by_session[OF assms(1,2,5) ok] by blast
  then have "epoch_data e = []" by (simp add: cells)
  moreover have "length (epoch_data e) = 8" using assms(4) by (simp add: epoch_data_def)
  ultimately show False by simp
qed


text \<open>
  The outputs of the funding transaction add up to the account's capacity when the budget fits;
  a budget beyond it is not refused: the change saturates at zero and the outputs exceed the input.
\<close>

theorem funding_tx_balance:
  "sum_list (map (\<lambda>c. unat (co_capacity c)) (rt_outputs (tx_raw (ct_tx (build_funding_tx cfg budget)))))
     = max (unat (cc_account_capacity cfg)) (unat budget)"
  by (simp add: build_funding_tx_def channel_build_def Let_def account_change_def unat_saturating_sub max_def)

section \<open>Samples\<close>

definition channel_view :: "bytes \<Rightarrow> lock_view" where
  "channel_view d =
     \<lparr>lv_script = channel_lock, lv_script_hash = sample_hash (flat_script channel_lock),
      lv_witness = Inr \<lparr>wa_lock = Some (MODE_SESSION # sample_sign (replicate 20 2) (sample_hash []) @ channel_proof_region),
                       wa_input_type = None, wa_output_type = None\<rparr>,
      lv_tx = ct_tx (build_funding_tx sample_config 30),
      lv_group = [(\<lparr>co_capacity = 100, co_lock = channel_lock, co_type = None\<rparr>, d)],
      lv_outputs = zip (rt_outputs (tx_raw (ct_tx (build_funding_tx sample_config 30))))
                       (rt_outputs_data (tx_raw (ct_tx (build_funding_tx sample_config 30)))),
      lv_headers = []\<rparr>"

lemma channel_view_funds: "funds_channel (channel_view d) sample_config 30 d"
  by (simp add: funds_channel_def channel_view_def sample_config_def)

lemma channel_view_runs: "lock_runs_on (vm_of (channel_view d)) (channel_view d)"
  by (rule lock_runs_on_vm_of)
     (simp_all add: channel_view_def usize_limit_def build_funding_tx_def channel_build_def Let_def)

lemma channel_view_session: "session_witness (channel_view d) (sample_sign (replicate 20 2) (sample_hash []) @ channel_proof_region)"
  by (simp add: session_witness_def channel_view_def)

lemma channel_view_args:
  "s_args (lv_script (channel_view d)) = registered_args channel_owner_args
     (channel_session_params sample_externals (replicate 20 2) NO_EXPIRY (cc_funding_lock sample_config) 30 (replicate 20 0))"
  by (simp add: channel_view_def channel_lock_def channel_args_def sample_config_def)

lemma channel_view_message: "sdk_tx_message sample_externals (lv_tx (channel_view d)) = sample_hash []"
  by (simp add: sdk_tx_message_def channel_view_def build_funding_tx_def channel_build_def Let_def)

lemma channel_view_witness:
  "lv_witness (channel_view d) = Inr \<lparr>wa_lock = Some (MODE_SESSION # sample_sign (replicate 20 2) (sample_hash []) @ channel_proof_region),
     wa_input_type = None, wa_output_type = None\<rparr>"
  "wa_lock \<lparr>wa_lock = Some (MODE_SESSION # sample_sign (replicate 20 2) (sample_hash []) @ channel_proof_region),
     wa_input_type = None, wa_output_type = None\<rparr> =
   Some (MODE_SESSION # sample_sign (replicate 20 2) (sample_hash []) @ opt_bytes None @ channel_proof_region)"
  by (simp_all add: channel_view_def opt_bytes_def)

lemma channel_view_foreign: "\<not> same_code (cc_funding_lock sample_config) (cc_account_lock sample_config)"
  by (simp add: sample_config_def same_code_def channel_lock_def sample_script_def other_script_def)

lemma channel_view_signed:
  "signed_by sample_externals (vm_of (channel_view d)) (replicate 20 2) (sdk_tx_message sample_externals (lv_tx (channel_view d)))
     (sample_sign (replicate 20 2) (sample_hash []))"
  unfolding channel_view_message by (rule sample_signature_accepted)

lemma channel_view_unexpired:
  "unexpired (channel_view d) (params_of (channel_session_params sample_externals (replicate 20 2) NO_EXPIRY
      (cc_funding_lock sample_config) 30 (replicate 20 0)))"
  by (simp add: unexpired_def params_of_def channel_session_params_def sdk_session_params_def)


lemma channel_funding_accepted_witness:
  "auth sample_externals (vm_of (channel_view [])) = Ok () \<and> length (lv_outputs (channel_view [])) = 2"
proof
  show "auth sample_externals (vm_of (channel_view [])) = Ok ()"
    by (rule channel_funding_accepted[OF sample_hex_is_text sample_digests_32 channel_view_runs channel_view_funds _ _ _
          channel_view_args channel_view_foreign channel_view_witness _ channel_view_signed _ channel_view_unexpired])
       (simp_all add: channel_owner_args_def)
  show "length (lv_outputs (channel_view [])) = 2"
    by (simp add: channel_view_def build_funding_tx_def channel_build_def Let_def)
qed


lemma channel_funding_rejected_after_revocation_witness:
  "auth sample_externals (vm_of (channel_view (epoch_data 3))) \<noteq> Ok ()"
  by (rule channel_funding_rejected_after_revocation[OF sample_hex_is_text channel_view_runs channel_view_funds _ channel_view_session])
     simp

end
