(* ===== verification/Paymaster.thy ===== *)
theory Paymaster
  imports Ckb
begin

text \<open>
  The paymaster core, paymaster/src: the capability tokens and the Ed25519 gate (authz.rs), fee
  balancing (assemble.rs) and the paymaster that puts a gate in front of it (lib.rs); the biscuit
  gate has a theory of its own.  The Rust trait \<open>Gate\<close> is the locale \<open>gate\<close>.  The signature
  scheme is a record of functions.
\<close>

section \<open>Strings\<close>

text \<open>
  A Rust \<open>String\<close> is its UTF-8 bytes; \<open>String::from_utf8\<close> accepts exactly the well-formed
  sequences: no overlong forms, no surrogates, nothing above U+10FFFF.
\<close>

definition continuation :: "byte \<Rightarrow> bool" where
  "continuation b \<longleftrightarrow> 0x80 \<le> b \<and> b \<le> 0xBF"

fun utf8_valid :: "bytes \<Rightarrow> bool" where
  "utf8_valid [] = True"
| "utf8_valid (a # r) =
     (if a \<le> 0x7F then utf8_valid r
      else if 0xC2 \<le> a \<and> a \<le> 0xDF then
        (case r of b # r' \<Rightarrow> continuation b \<and> utf8_valid r' | _ \<Rightarrow> False)
      else if 0xE0 \<le> a \<and> a \<le> 0xEF then
        (case r of b # c # r' \<Rightarrow>
           continuation b \<and> continuation c \<and> (a = 0xE0 \<longrightarrow> 0xA0 \<le> b) \<and> (a = 0xED \<longrightarrow> b \<le> 0x9F) \<and> utf8_valid r'
         | _ \<Rightarrow> False)
      else if 0xF0 \<le> a \<and> a \<le> 0xF4 then
        (case r of b # c # d # r' \<Rightarrow>
           continuation b \<and> continuation c \<and> continuation d \<and> (a = 0xF0 \<longrightarrow> 0x90 \<le> b) \<and>
           (a = 0xF4 \<longrightarrow> b \<le> 0x8F) \<and> utf8_valid r'
         | _ \<Rightarrow> False)
      else False)"

section \<open>Capabilities\<close>

definition TOKEN_SIG_LEN :: nat where "TOKEN_SIG_LEN = 64"

record capability =
  cap_scope :: bytes
  cap_subject :: bytes
  cap_not_after :: u64

datatype authz_error = Malformed | BadSignature | WrongScope | Expired | Denied

definition canonical :: "capability \<Rightarrow> bytes" where
  "canonical c =
     to_le 2 (of_nat (length (cap_scope c)) :: u16) @ cap_scope c @
     to_le 2 (of_nat (length (cap_subject c)) :: u16) @ cap_subject c @ u64_le (cap_not_after c)"

text \<open>The closures \<open>take\<close> and \<open>read_u16\<close>: the new cursor, and the value read.\<close>

definition parse_take :: "bytes \<Rightarrow> nat \<Rightarrow> nat \<Rightarrow> (authz_error, nat) result" where
  "parse_take buf i n = (if i + n > length buf then Err Malformed else Ok (i + n))"

definition read_u16 :: "bytes \<Rightarrow> nat \<Rightarrow> (authz_error, nat \<times> nat) result" where
  "read_u16 buf i =
     (if i + 2 > length buf then Err Malformed
      else
        andThen (index_at buf i) (\<lambda>a. andThen (index_at buf (i + 1)) (\<lambda>b.
          Ok (unat (from_le [a, b] :: u16), i + 2))))"

definition from_utf8 :: "bytes \<Rightarrow> (authz_error, bytes) result" where
  "from_utf8 b = (if utf8_valid b then Ok b else Err Malformed)"

text \<open>One length-prefixed string of \<open>parse\<close>: its length, its bytes, their validity.\<close>

definition parse_string :: "bytes \<Rightarrow> nat \<Rightarrow> (authz_error, bytes \<times> nat) result" where
  "parse_string token i =
     andThen (read_u16 token i) (\<lambda>(len, start).
     andThen (parse_take token start len) (\<lambda>i.
     andThen (slice token start i) (\<lambda>s.
     andThen (from_utf8 s) (\<lambda>text. Ok (text, i)))))"

definition capability_parse :: "bytes \<Rightarrow> (authz_error, capability \<times> nat) result" where
  "capability_parse token =
     andThen (parse_string token 0) (\<lambda>(scope, i).
     andThen (parse_string token i) (\<lambda>(subject, i).
       if i + 8 > length token then Err Malformed
       else
         andThen (slice token i (i + 8)) (\<lambda>n.
           Ok (\<lparr>cap_scope = scope, cap_subject = subject, cap_not_after = from_le n\<rparr>, i + 8))))"

section \<open>The Ed25519 gate\<close>

text \<open>The crate ed25519-dalek; signatures are 64 bytes.\<close>

record ed25519 =
  ed_public :: "bytes \<Rightarrow> bytes"
  ed_sign :: "bytes \<Rightarrow> bytes \<Rightarrow> bytes"
  ed_verify :: "bytes \<Rightarrow> bytes \<Rightarrow> bytes \<Rightarrow> bool"
  ed_key_ok :: "bytes \<Rightarrow> bool"

text \<open>Documented: a signature made with a seed verifies under its public key.\<close>

definition ed_correct :: "ed25519 \<Rightarrow> bool" where
  "ed_correct E \<longleftrightarrow> (\<forall>seed m. ed_verify E (ed_public E seed) m (ed_sign E seed m) \<and>
     length (ed_sign E seed m) = TOKEN_SIG_LEN \<and> ed_key_ok E (ed_public E seed))"

definition ed25519_issue :: "ed25519 \<Rightarrow> bytes \<Rightarrow> capability \<Rightarrow> bytes" where
  "ed25519_issue E seed cap = (let c = canonical cap in c @ ed_sign E seed c)"

definition ed25519_gate_new :: "ed25519 \<Rightarrow> bytes \<Rightarrow> (authz_error, bytes) result" where
  "ed25519_gate_new E public_key = (if ed_key_ok E public_key then Ok public_key else Err BadSignature)"

definition ed25519_authorize ::
  "ed25519 \<Rightarrow> bytes \<Rightarrow> bytes \<Rightarrow> u64 \<Rightarrow> bytes \<Rightarrow> (authz_error, capability) result" where
  "ed25519_authorize E public_key token now required_scope =
     andThen (capability_parse token) (\<lambda>(cap, sig_start).
     if sig_start + TOKEN_SIG_LEN > length token then Err Malformed
     else
       andThen (slice token sig_start (sig_start + TOKEN_SIG_LEN)) (\<lambda>sg.
       andThen (slice token 0 sig_start) (\<lambda>body.
         if \<not> ed_verify E public_key body sg then Err BadSignature
         else if cap_scope cap \<noteq> required_scope then Err WrongScope
         else if now > cap_not_after cap then Err Expired
         else Ok cap)))"

section \<open>Hex text\<close>

text \<open>The value of a hex digit of either case.\<close>

fun hex_value :: "char \<Rightarrow> nat option" where
  "hex_value c =
     (let n = of_char c :: nat in
      if 48 \<le> n \<and> n \<le> 57 then Some (n - 48)
      else if 97 \<le> n \<and> n \<le> 102 then Some (n - 87)
      else if 65 \<le> n \<and> n \<le> 70 then Some (n - 55)
      else None)"

text \<open>\<open>trim_start_matches("0x")\<close> drops the prefix as often as it occurs.\<close>

fun trim_0x :: "string \<Rightarrow> string" where
  "trim_0x (a # b # r) = (if a = CHR ''0'' \<and> b = CHR ''x'' then trim_0x r else a # b # r)"
| "trim_0x s = s"

section \<open>Assembling\<close>

datatype assemble_error = InsufficientFee

definition min_fee :: "externals \<Rightarrow> transaction \<Rightarrow> u64 \<Rightarrow> u64" where
  "min_fee X tx fee_rate =
     (let size = of_nat (length (molecule_transaction X tx)) :: u64;
          n = saturating_mul size fee_rate
      in if n mod 1000 > 0 then n div 1000 + 1 else n div 1000)"

definition balance ::
  "transaction \<Rightarrow> out_point \<Rightarrow> u64 \<Rightarrow> u64 \<Rightarrow> script \<Rightarrow> cell_dep list \<Rightarrow> (assemble_error, transaction) result" where
  "balance partial fee_input fee_input_capacity fee_shannons change_lock fee_cell_deps =
     andThen (ok_or (checked_sub fee_input_capacity fee_shannons) InsufficientFee) (\<lambda>change.
     let raw = tx_raw partial;
         change_output = \<lparr>co_capacity = change, co_lock = change_lock, co_type = None\<rparr>;
         existing = rt_cell_deps raw
     in Ok (partial\<lparr>tx_raw := raw\<lparr>
          rt_inputs := rt_inputs raw @ [\<lparr>ci_previous_output = fee_input, ci_since = 0\<rparr>],
          rt_outputs := rt_outputs raw @ [change_output],
          rt_outputs_data := rt_outputs_data raw @ [[]],
          rt_cell_deps := rt_cell_deps raw @ filter (\<lambda>d. d \<notin> set existing) fee_cell_deps\<rparr>\<rparr>))"

datatype paymaster_error = Unauthorized authz_error | Assemble assemble_error

type_synonym authorize = "bytes \<Rightarrow> u64 \<Rightarrow> bytes \<Rightarrow> (authz_error, capability) result"

definition paymaster_sponsor ::
  "authorize \<Rightarrow> bytes \<Rightarrow> u64 \<Rightarrow> bytes \<Rightarrow> transaction \<Rightarrow> out_point \<Rightarrow> u64 \<Rightarrow> u64 \<Rightarrow> script \<Rightarrow> cell_dep list \<Rightarrow>
   (paymaster_error, transaction) result" where
  "paymaster_sponsor authorize token now required_scope partial fee_input fee_input_capacity fee_shannons
     change_lock fee_cell_deps =
     andThen (map_err Unauthorized (authorize token now required_scope)) (\<lambda>_.
       map_err Assemble (balance partial fee_input fee_input_capacity fee_shannons change_lock fee_cell_deps))"

section \<open>Facts about parsing\<close>

definition wf_capability :: "capability \<Rightarrow> bool" where
  "wf_capability c \<longleftrightarrow> utf8_valid (cap_scope c) \<and> utf8_valid (cap_subject c) \<and>
     length (cap_scope c) < 2 ^ 16 \<and> length (cap_subject c) < 2 ^ 16"

lemma read_u16_iff:
  "read_u16 buf i = Ok (v, j) \<longleftrightarrow>
   j = i + 2 \<and> j \<le> length buf \<and> v = unat (from_le (take 2 (drop i buf)) :: u16)"
proof (cases "i + 2 \<le> length buf")
  case True
  then have "take 2 (drop i buf) = [buf ! i, buf ! Suc i]"
    by (simp add: numeral_2_eq_2 take_Suc_conv_app_nth)
  with True show ?thesis by (auto simp: read_u16_def)
qed (auto simp: read_u16_def)

definition string_field :: "bytes \<Rightarrow> bytes" where
  "string_field s = to_le 2 (of_nat (length s) :: u16) @ s"

lemma length_string_field [simp]: "length (string_field s) = 2 + length s"
  by (simp add: string_field_def)

lemma parse_string_iff:
  "parse_string token i = Ok (s, j) \<longleftrightarrow>
   utf8_valid s \<and> length s < 2 ^ 16 \<and> j = i + 2 + length s \<and> (\<exists>r. drop i token = string_field s @ r)"
proof
  assume "parse_string token i = Ok (s, j)"
  then obtain n where n: "n = unat (from_le (take 2 (drop i token)) :: u16)" and len: "i + 2 + n \<le> length token"
    and j: "j = i + 2 + n" and s: "s = take n (drop (i + 2) token)" "utf8_valid s"
    by (auto simp: parse_string_def result_simps read_u16_iff parse_take_def from_utf8_def split: if_splits)
  have l: "length s = n" using len s(1) by simp
  have "to_le 2 (of_nat n :: u16) = take 2 (drop i token)"
    using n u16_le_from_le[of "take 2 (drop i token)"] len by simp
  moreover have "drop i token = take 2 (drop i token) @ take n (drop (i + 2) token) @ drop (i + 2 + n) token"
    by (metis append_take_drop_id add.commute drop_drop)
  ultimately have "drop i token = string_field s @ drop (i + 2 + n) token"
    using s(1) l by (simp add: string_field_def)
  moreover have "n < 2 ^ 16" using n unat_less_2p[of "from_le (take 2 (drop i token)) :: u16"] by simp
  ultimately show "utf8_valid s \<and> length s < 2 ^ 16 \<and> j = i + 2 + length s \<and> (\<exists>r. drop i token = string_field s @ r)"
    using s(2) j l by blast
next
  assume "utf8_valid s \<and> length s < 2 ^ 16 \<and> j = i + 2 + length s \<and> (\<exists>r. drop i token = string_field s @ r)"
  then obtain r where v: "utf8_valid s" "length s < 2 ^ 16" "j = i + 2 + length s" and d: "drop i token = string_field s @ r"
    by blast
  have "length (drop i token) = 2 + length s + length r" by (simp add: d)
  then have len: "i + 2 + length s \<le> length token" by simp
  have two: "take 2 (drop i token) = to_le 2 (of_nat (length s) :: u16)" by (simp add: d string_field_def)
  have n: "unat (from_le (take 2 (drop i token)) :: u16) = length s"
    using v(2) unfolding two by (simp add: from_to_le unat_of_nat_small)
  have "drop (i + 2) token = drop 2 (drop i token)" by (simp add: add.commute)
  then have "take (length s) (drop (i + 2) token) = s" by (simp add: d string_field_def)
  with len v n show "parse_string token i = Ok (s, j)"
    by (simp add: parse_string_def read_u16_iff[THEN iffD2, of "i + 2" i token "length s"] parse_take_def from_utf8_def)
qed

lemma canonical_fields: "canonical c = string_field (cap_scope c) @ string_field (cap_subject c) @ u64_le (cap_not_after c)"
  by (simp add: canonical_def string_field_def)

lemma capability_parse_iff:
  "capability_parse token = Ok (c, n) \<longleftrightarrow>
   wf_capability c \<and> n = length (canonical c) \<and> (\<exists>rest. token = canonical c @ rest)"
proof
  assume "capability_parse token = Ok (c, n)"
  then obtain s i u j where s: "parse_string token 0 = Ok (s, i)" and u: "parse_string token i = Ok (u, j)"
    and e: "j + 8 \<le> length token" "n = j + 8"
    and c: "c = \<lparr>cap_scope = s, cap_subject = u, cap_not_after = from_le (take 8 (drop j token))\<rparr>"
    by (auto simp: capability_parse_def result_simps split: if_splits)
  from s u obtain r r' where
    s': "utf8_valid s" "length s < 2 ^ 16" "i = 2 + length s" "token = string_field s @ r" and
    u': "utf8_valid u" "length u < 2 ^ 16" "j = i + 2 + length u" "drop i token = string_field u @ r'"
    by (auto simp: parse_string_iff)
  have "r = string_field u @ r'" using u'(4) s'(3,4) by simp
  then have t: "token = string_field s @ string_field u @ r'" using s'(4) by simp
  then have "drop j token = r'" using s'(3) u'(3) by simp
  moreover have "length r' \<ge> 8" using e(1) t s'(3) u'(3) by simp
  ultimately have "r' = u64_le (cap_not_after c) @ drop 8 r'" by (simp add: c)
  then have "token = canonical c @ drop 8 r'" using t by (simp add: canonical_fields c)
  moreover have "wf_capability c" "n = length (canonical c)"
    using s' u' e by (simp_all add: wf_capability_def c canonical_fields)
  ultimately show "wf_capability c \<and> n = length (canonical c) \<and> (\<exists>rest. token = canonical c @ rest)"
    by blast
next
  assume "wf_capability c \<and> n = length (canonical c) \<and> (\<exists>rest. token = canonical c @ rest)"
  then obtain rest where wf: "wf_capability c" and n: "n = length (canonical c)" and t: "token = canonical c @ rest" by blast
  have s: "parse_string token 0 = Ok (cap_scope c, 2 + length (cap_scope c))"
    using wf t by (simp add: parse_string_iff wf_capability_def canonical_fields)
  have u: "parse_string token (2 + length (cap_scope c)) = Ok (cap_subject c, 2 + length (cap_scope c) + 2 + length (cap_subject c))"
    using wf t by (simp only: parse_string_iff wf_capability_def canonical_fields append_assoc) simp
  show "capability_parse token = Ok (c, n)"
    unfolding capability_parse_def n by (simp only: s u andThen.simps prod.case) (simp add: t canonical_fields)
qed

lemma read_u16_no_panic: "read_u16 buf i \<noteq> Panicked"
  by (auto simp: read_u16_def andThen_fault_iff index_at_def)

lemma parse_string_no_panic: "parse_string token i \<noteq> Panicked"
  by (auto simp: parse_string_def andThen_fault_iff read_u16_no_panic parse_take_def from_utf8_def split: if_splits)

lemma capability_parse_no_panic: "capability_parse token \<noteq> Panicked"
  by (auto simp: capability_parse_def andThen_fault_iff parse_string_no_panic split: if_splits)

section \<open>What a client of a gate may rely on\<close>

text \<open>
  The contract of \<open>Gate\<close>: a granted capability carries the required scope and has not expired.
  The paymaster and the service use a gate through it only.
\<close>

locale gate =
  fixes authorize :: authorize
  assumes grants_scope: "authorize token now scope = Ok c \<Longrightarrow> cap_scope c = scope"
    and grants_unexpired: "authorize token now scope = Ok c \<Longrightarrow> now \<le> cap_not_after c"
begin

lemma sponsor_needs_capability:
  assumes "paymaster_sponsor authorize token now scope partial fi cap fee lock deps = Ok tx"
  shows "\<exists>c. authorize token now scope = Ok c \<and> cap_scope c = scope \<and> now \<le> cap_not_after c \<and>
           balance partial fi cap fee lock deps = Ok tx"
  using assms by (auto simp: paymaster_sponsor_def result_simps dest: grants_scope grants_unexpired)

lemma denied_means_nothing_built:
  "authorize token now scope = Err e \<Longrightarrow>
   paymaster_sponsor authorize token now scope partial fi cap fee lock deps = Err (Unauthorized e)"
  by (simp add: paymaster_sponsor_def)

end

lemma ed25519_authorize_iff:
  "ed25519_authorize E pk token now scope = Ok c \<longleftrightarrow>
   wf_capability c \<and> cap_scope c = scope \<and> now \<le> cap_not_after c \<and>
   (\<exists>sg rest. token = canonical c @ sg @ rest \<and> length sg = TOKEN_SIG_LEN \<and> ed_verify E pk (canonical c) sg)"
proof
  assume "ed25519_authorize E pk token now scope = Ok c"
  then obtain n where p: "capability_parse token = Ok (c, n)" and l: "n + TOKEN_SIG_LEN \<le> length token"
    and v: "ed_verify E pk (take n token) (take TOKEN_SIG_LEN (drop n token))"
    and g: "cap_scope c = scope" "now \<le> cap_not_after c"
    by (auto simp: ed25519_authorize_def result_simps split: if_splits)
  from p obtain r where r: "wf_capability c" "n = length (canonical c)" "token = canonical c @ r"
    by (auto simp: capability_parse_iff)
  have "token = canonical c @ take TOKEN_SIG_LEN r @ drop TOKEN_SIG_LEN r" "length (take TOKEN_SIG_LEN r) = TOKEN_SIG_LEN"
    using r l by simp_all
  moreover have "ed_verify E pk (canonical c) (take TOKEN_SIG_LEN r)" using v r by simp
  ultimately show "wf_capability c \<and> cap_scope c = scope \<and> now \<le> cap_not_after c \<and>
     (\<exists>sg rest. token = canonical c @ sg @ rest \<and> length sg = TOKEN_SIG_LEN \<and> ed_verify E pk (canonical c) sg)"
    using r(1) g by blast
next
  assume "wf_capability c \<and> cap_scope c = scope \<and> now \<le> cap_not_after c \<and>
     (\<exists>sg rest. token = canonical c @ sg @ rest \<and> length sg = TOKEN_SIG_LEN \<and> ed_verify E pk (canonical c) sg)"
  then obtain sg rest where t: "token = canonical c @ sg @ rest" "length sg = TOKEN_SIG_LEN" "ed_verify E pk (canonical c) sg"
    and c: "wf_capability c" "cap_scope c = scope" "now \<le> cap_not_after c" by blast
  have "capability_parse token = Ok (c, length (canonical c))" using c t by (auto simp: capability_parse_iff)
  then show "ed25519_authorize E pk token now scope = Ok c"
    using t c by (simp add: ed25519_authorize_def)
qed

interpretation ed25519: gate "ed25519_authorize E public_key" for E public_key
  by unfold_locales (simp_all add: ed25519_authorize_iff)

end
