(* ===== verification/Service.thy ===== *)
theory Service
  imports Paymaster
begin

text \<open>
  The sponsored relay, paymaster-service/src: the node interface and its JSON-RPC implementation
  (rpc.rs), the orchestration of a sponsored transaction (service.rs), and the status codes of the
  HTTP front (main.rs).  The Rust trait \<open>CkbRpc\<close> is a record of functions; what the service needs
  of it is the locale \<open>fee_source\<close>, interpreted on the JSON-RPC client.  The HTTP transport and the
  JSON conversions of ckb-jsonrpc-types are parameters; error texts are kept as the data they are
  formatted from.
\<close>

section \<open>JSON\<close>

datatype json = JNull | JBool bool | JInt int | JFloat | JStr string | JArr "json list" | JObj "(string \<times> json) list"

fun json_get :: "json \<Rightarrow> string \<Rightarrow> json option" where
  "json_get (JObj kvs) k = map_of kvs k"
| "json_get _ k = None"

text \<open>Indexing with \<open>v["key"]\<close>: \<open>Null\<close> when the key is absent or \<open>v\<close> is no object.\<close>

definition json_at :: "json \<Rightarrow> string \<Rightarrow> json" where
  "json_at v k = (case json_get v k of None \<Rightarrow> JNull | Some x \<Rightarrow> x)"

fun as_str :: "json \<Rightarrow> string option" where
  "as_str (JStr s) = Some s"
| "as_str _ = None"

fun as_array :: "json \<Rightarrow> json list option" where
  "as_array (JArr xs) = Some xs"
| "as_array _ = None"

fun as_u64 :: "json \<Rightarrow> u64 option" where
  "as_u64 (JInt n) = (if 0 \<le> n \<and> n < 2 ^ 64 then Some (of_int n) else None)"
| "as_u64 _ = None"

definition objects_of :: "json \<Rightarrow> json list" where
  "objects_of res = (case as_array (json_at res ''objects'') of None \<Rightarrow> [] | Some xs \<Rightarrow> xs)"

section \<open>The node\<close>

datatype rpc_error =
  Transport string | NodeError string json | ExpectedHex json | BadNumber string | NoField string | BadHash string | BadHex string | BadShape json

record fee_cell =
  fc_out_point :: out_point
  fc_capacity :: u64

record ckb_rpc =
  rpc_tip_header_hash :: "(rpc_error, bytes) result"
  rpc_collect_fee_cell :: "script \<Rightarrow> u64 \<Rightarrow> (rpc_error, fee_cell option) result"
  rpc_send_transaction :: "transaction \<Rightarrow> (rpc_error, bytes) result"

text \<open>What the JSON-RPC client calls of its crates: the HTTP round trip and the conversions.\<close>

record http_crates =
  http_post :: "string \<Rightarrow> json \<Rightarrow> (rpc_error, json) result"
  script_to_json :: "script \<Rightarrow> json"
  tx_to_json :: "transaction \<Rightarrow> json"
  output_from_json :: "json \<Rightarrow> cell_output option"
  h256_from_str :: "string \<Rightarrow> bytes option"
  hex_decode :: "string \<Rightarrow> bytes option"

definition http_call :: "http_crates \<Rightarrow> string \<Rightarrow> json \<Rightarrow> (rpc_error, json) result" where
  "http_call C mthd params =
     andThen (http_post C mthd params) (\<lambda>resp.
       case json_get resp ''error'' of
         Some err \<Rightarrow>
           if err \<noteq> JNull then Err (NodeError mthd err)
           else Ok (case json_get resp ''result'' of None \<Rightarrow> JNull | Some r \<Rightarrow> r)
       | None \<Rightarrow> Ok (case json_get resp ''result'' of None \<Rightarrow> JNull | Some r \<Rightarrow> r))"

text \<open>
  \<open>from_str_radix\<close> and \<open>parse\<close> of the unsigned integers: a leading plus sign is allowed; an empty
  string, another character or a value beyond the type is an error.
\<close>

fun digits_value :: "(char \<Rightarrow> nat option) \<Rightarrow> nat \<Rightarrow> string \<Rightarrow> nat \<Rightarrow> nat option" where
  "digits_value digit radix [] n = Some n"
| "digits_value digit radix (c # cs) n =
     (case digit c of None \<Rightarrow> None | Some d \<Rightarrow> digits_value digit radix cs (radix * n + d))"

definition parse_unsigned :: "(char \<Rightarrow> nat option) \<Rightarrow> nat \<Rightarrow> nat \<Rightarrow> string \<Rightarrow> nat option" where
  "parse_unsigned digit radix limit s =
     (let digits = (case s of c # cs \<Rightarrow> if c = CHR ''+'' then cs else s | [] \<Rightarrow> []) in
      if digits = [] then None
      else case digits_value digit radix digits 0 of
        None \<Rightarrow> None
      | Some n \<Rightarrow> if n < limit then Some n else None)"

definition u64_from_hex :: "string \<Rightarrow> u64 option" where
  "u64_from_hex s = map_option of_nat (parse_unsigned hex_value 16 (2 ^ 64) s)"

definition parse_hex_u64 :: "json \<Rightarrow> (rpc_error, u64) result" where
  "parse_hex_u64 v =
     andThen (ok_or (as_str v) (ExpectedHex v)) (\<lambda>s. ok_or (u64_from_hex (trim_0x s)) (BadNumber s))"

definition parse_h256 :: "http_crates \<Rightarrow> string \<Rightarrow> (rpc_error, bytes) result" where
  "parse_h256 C s = ok_or (h256_from_str C (trim_0x s)) (BadHash s)"

definition http_tip_header_hash :: "http_crates \<Rightarrow> (rpc_error, bytes) result" where
  "http_tip_header_hash C =
     andThen (http_call C ''get_tip_header'' (JArr [])) (\<lambda>tip.
     andThen (ok_or (as_str (json_at tip ''hash'')) (NoField ''hash'')) (\<lambda>hash. parse_h256 C hash))"

text \<open>The loop over the collector's objects.\<close>

fun pick_fee_cell :: "http_crates \<Rightarrow> u64 \<Rightarrow> json list \<Rightarrow> (rpc_error, fee_cell option) result" where
  "pick_fee_cell C min_capacity [] = Ok None"
| "pick_fee_cell C min_capacity (obj # objs) =
     (if json_at (json_at obj ''output'') ''type'' \<noteq> JNull then pick_fee_cell C min_capacity objs
      else
        andThen (parse_hex_u64 (json_at (json_at obj ''output'') ''capacity'')) (\<lambda>capacity.
        if capacity < min_capacity then pick_fee_cell C min_capacity objs
        else
          andThen (ok_or (as_str (json_at (json_at obj ''out_point'') ''tx_hash'')) (NoField ''tx_hash'')) (\<lambda>tx_hash.
          andThen (parse_hex_u64 (json_at (json_at obj ''out_point'') ''index'')) (\<lambda>index.
          andThen (parse_h256 C tx_hash) (\<lambda>h.
            Ok (Some \<lparr>fc_out_point = \<lparr>op_tx_hash = h, op_index = ucast index\<rparr>, fc_capacity = capacity\<rparr>))))))"

definition http_collect_fee_cell :: "http_crates \<Rightarrow> script \<Rightarrow> u64 \<Rightarrow> (rpc_error, fee_cell option) result" where
  "http_collect_fee_cell C lock min_capacity =
     (let search_key = JObj [(''script'', script_to_json C lock), (''script_type'', JStr ''lock''),
            (''filter'', JObj [(''script_len_range'', JArr [JStr ''0x0'', JStr ''0x1'']),
                               (''output_data_len_range'', JArr [JStr ''0x0'', JStr ''0x1''])])]
      in andThen (http_call C ''get_cells'' (JArr [search_key, JStr ''asc'', JStr ''0x64'', JNull])) (\<lambda>res.
           pick_fee_cell C min_capacity (objects_of res)))"

definition http_send_transaction :: "http_crates \<Rightarrow> transaction \<Rightarrow> (rpc_error, bytes) result" where
  "http_send_transaction C tx =
     andThen (http_call C ''send_transaction'' (JArr [tx_to_json C tx, JStr ''passthrough''])) (\<lambda>hash.
     andThen (ok_or (as_str hash) (NoField ''send_transaction'')) (\<lambda>h. parse_h256 C h))"

definition find_cell_by_type ::
  "http_crates \<Rightarrow> script \<Rightarrow> (rpc_error, (out_point \<times> cell_output \<times> bytes) option) result" where
  "find_cell_by_type C type_script =
     (let search_key = JObj [(''script'', script_to_json C type_script), (''script_type'', JStr ''type''),
                             (''with_data'', JBool True)]
      in andThen (http_call C ''get_cells'' (JArr [search_key, JStr ''asc'', JStr ''0x1'', JNull])) (\<lambda>res.
           case objects_of res of
             [] \<Rightarrow> Ok None
           | obj # _ \<Rightarrow>
               andThen (ok_or (output_from_json C (json_at obj ''output'')) (BadShape (json_at obj ''output''))) (\<lambda>output.
               andThen (ok_or (as_str (json_at (json_at obj ''out_point'') ''tx_hash'')) (NoField ''tx_hash'')) (\<lambda>tx_hash.
               andThen (parse_hex_u64 (json_at (json_at obj ''out_point'') ''index'')) (\<lambda>index.
               andThen (ok_or (as_str (json_at obj ''output_data'')) (NoField ''output_data'')) (\<lambda>data_hex.
               andThen (ok_or (hex_decode C (trim_0x data_hex)) (BadHex data_hex)) (\<lambda>data.
               andThen (parse_h256 C tx_hash) (\<lambda>h.
                 Ok (Some (\<lparr>op_tx_hash = h, op_index = ucast index\<rparr>, output, data))))))))))"

definition http_rpc :: "http_crates \<Rightarrow> ckb_rpc" where
  "http_rpc C = \<lparr>rpc_tip_header_hash = http_tip_header_hash C, rpc_collect_fee_cell = http_collect_fee_cell C,
                 rpc_send_transaction = http_send_transaction C\<rparr>"

section \<open>The service\<close>

definition MIN_FEE_SHANNONS :: u64 where "MIN_FEE_SHANNONS = 1000"

datatype service_error =
  ServiceUnauthorized authz_error | ServiceAssemble assemble_error | NoFeeCell | ServiceRpc rpc_error | BadRequest string

record sponsored =
  sp_tx :: transaction
  sp_fee :: u64
  sp_fee_input :: out_point
  sp_subject :: bytes

record sponsor_service =
  ss_gate :: authorize
  ss_rpc :: ckb_rpc
  ss_fee_lock :: script
  ss_fee_cell_deps :: "cell_dep list"
  ss_fee_rate :: u64
  ss_scope :: bytes

definition service_new :: "authorize \<Rightarrow> ckb_rpc \<Rightarrow> script \<Rightarrow> cell_dep list \<Rightarrow> u64 \<Rightarrow> bytes \<Rightarrow> sponsor_service" where
  "service_new authorize rpc lock fee_cell_deps fee_rate scope =
     \<lparr>ss_gate = authorize, ss_rpc = rpc, ss_fee_lock = lock, ss_fee_cell_deps = fee_cell_deps, ss_fee_rate = fee_rate,
      ss_scope = scope\<rparr>"

text \<open>\<open>occupied\<close> is ckb-types' occupied capacity; \<open>None\<close> is the overflow the code expects not to happen.\<close>

definition min_change :: "(cell_output \<Rightarrow> u64 option) \<Rightarrow> sponsor_service \<Rightarrow> (service_error, u64) result" where
  "min_change occupied s =
     (case occupied \<lparr>co_capacity = 0, co_lock = ss_fee_lock s, co_type = None\<rparr> of
        None \<Rightarrow> Panicked
      | Some c \<Rightarrow> Ok c)"

text \<open>The dry balancing: a null input of \<open>u64::MAX / 2\<close> that pays no fee.\<close>

definition dry_balance :: "sponsor_service \<Rightarrow> transaction \<Rightarrow> (assemble_error, transaction) result" where
  "dry_balance s partial =
     balance partial \<lparr>op_tx_hash = replicate 32 0, op_index = 0\<rparr> ((- 1) div 2) 0 (ss_fee_lock s) (ss_fee_cell_deps s)"

definition service_sponsor ::
  "externals \<Rightarrow> (cell_output \<Rightarrow> u64 option) \<Rightarrow> sponsor_service \<Rightarrow> bytes \<Rightarrow> transaction \<Rightarrow> u64 \<Rightarrow>
   (service_error, sponsored) result" where
  "service_sponsor X occupied s token partial now =
     andThen (map_err ServiceUnauthorized (ss_gate s token now (ss_scope s))) (\<lambda>cap.
     andThen (map_err ServiceAssemble (dry_balance s partial)) (\<lambda>dry.
     let fee = max (min_fee X dry (ss_fee_rate s)) MIN_FEE_SHANNONS in
     andThen (min_change occupied s) (\<lambda>mc.
     andThen (ok_or (checked_add fee mc) (ServiceAssemble InsufficientFee)) (\<lambda>needed.
     andThen (map_err ServiceRpc (rpc_collect_fee_cell (ss_rpc s) (ss_fee_lock s) needed)) (\<lambda>found.
     andThen (ok_or found NoFeeCell) (\<lambda>fee_cell.
     andThen (map_err ServiceAssemble
       (balance partial (fc_out_point fee_cell) (fc_capacity fee_cell) fee (ss_fee_lock s) (ss_fee_cell_deps s))) (\<lambda>tx.
       Ok \<lparr>sp_tx = tx, sp_fee = fee, sp_fee_input = fc_out_point fee_cell, sp_subject = cap_subject cap\<rparr>)))))))"

definition service_broadcast :: "sponsor_service \<Rightarrow> transaction \<Rightarrow> (service_error, bytes) result" where
  "service_broadcast s signed_tx = map_err ServiceRpc (rpc_send_transaction (ss_rpc s) signed_tx)"

definition service_tip_header_hash :: "sponsor_service \<Rightarrow> (service_error, bytes) result" where
  "service_tip_header_hash s = map_err ServiceRpc (rpc_tip_header_hash (ss_rpc s))"

primrec status_for :: "service_error \<Rightarrow> u16" where
  "status_for (ServiceUnauthorized e) = 401"
| "status_for (BadRequest m) = 400"
| "status_for NoFeeCell = 503"
| "status_for (ServiceAssemble e) = 422"
| "status_for (ServiceRpc e) = 502"

section \<open>What the service needs of a node\<close>

locale fee_source =
  fixes collect :: "script \<Rightarrow> u64 \<Rightarrow> (rpc_error, fee_cell option) result"
  assumes collected_covers: "collect lock least = Ok (Some c) \<Longrightarrow> least \<le> fc_capacity c"

lemma pick_fee_cell_covers:
  "pick_fee_cell C least objs = Ok (Some c) \<Longrightarrow> least \<le> fc_capacity c"
  by (induction objs) (auto simp: result_simps split: if_splits)

interpretation http: fee_source "http_collect_fee_cell C" for C
  by unfold_locales
     (auto simp: http_collect_fee_cell_def Let_def result_simps dest: pick_fee_cell_covers)

text \<open>A gate and a node together: the sponsoring service over them.\<close>

locale relay = gate authorize + fee_source collect
  for authorize :: authorize and collect :: "script \<Rightarrow> u64 \<Rightarrow> (rpc_error, fee_cell option) result"
begin

lemma service_sponsor_okE:
  assumes run: "service_sponsor X occupied s token partial now = Ok out"
    and s: "ss_gate s = authorize" "rpc_collect_fee_cell (ss_rpc s) = collect"
  obtains c dry cell least where
    "authorize token now (ss_scope s) = Ok c" "cap_scope c = ss_scope s" "now \<le> cap_not_after c" "sp_subject out = cap_subject c"
    "collect (ss_fee_lock s) least = Ok (Some cell)"
    "occupied \<lparr>co_capacity = 0, co_lock = ss_fee_lock s, co_type = None\<rparr> = Some (least - sp_fee out)"
    "unat least = unat (sp_fee out) + unat (least - sp_fee out)" "least \<le> fc_capacity cell"
    "sp_fee_input out = fc_out_point cell" "MIN_FEE_SHANNONS \<le> sp_fee out"
    "dry_balance s partial = Ok dry" "sp_fee out = max (min_fee X dry (ss_fee_rate s)) MIN_FEE_SHANNONS"
    "balance partial (fc_out_point cell) (fc_capacity cell) (sp_fee out) (ss_fee_lock s) (ss_fee_cell_deps s) = Ok (sp_tx out)"
proof -
  from run s obtain c dry mc least cell tx where
    c: "authorize token now (ss_scope s) = Ok c" and
    dry: "dry_balance s partial = Ok dry" and
    mc: "occupied \<lparr>co_capacity = 0, co_lock = ss_fee_lock s, co_type = None\<rparr> = Some mc" and
    sum: "checked_add (max (min_fee X dry (ss_fee_rate s)) MIN_FEE_SHANNONS) mc = Some least" and
    cell: "collect (ss_fee_lock s) least = Ok (Some cell)" and
    bal: "balance partial (fc_out_point cell) (fc_capacity cell) (max (min_fee X dry (ss_fee_rate s)) MIN_FEE_SHANNONS)
       (ss_fee_lock s) (ss_fee_cell_deps s) = Ok tx" and
    out: "out = \<lparr>sp_tx = tx, sp_fee = max (min_fee X dry (ss_fee_rate s)) MIN_FEE_SHANNONS,
       sp_fee_input = fc_out_point cell, sp_subject = cap_subject c\<rparr>"
    by (auto simp: service_sponsor_def Let_def result_simps min_change_def split: option.splits simp del: max.bounded_iff)
  define fee where "fee = max (min_fee X dry (ss_fee_rate s)) MIN_FEE_SHANNONS"
  have least: "least = fee + mc" "unat least = unat fee + unat mc"
    using sum unfolding fee_def checked_add_Some by blast+
  then have "mc = least - fee" by simp
  moreover have "sp_fee out = fee" "MIN_FEE_SHANNONS \<le> fee" by (simp_all add: out fee_def)
  ultimately show ?thesis
    using that[OF c grants_scope[OF c] grants_unexpired[OF c] _ cell _ _ collected_covers[OF cell] _ _ dry]
      mc bal least out unfolding fee_def[symmetric] by simp
qed

end

text \<open>The relay the binaries run: a gate over the JSON-RPC client.\<close>

interpretation ed25519_http: relay "ed25519_authorize E public_key" "http_collect_fee_cell C" for E public_key C
  by unfold_locales

end
