(* ===== verification/Relay_Properties.thy ===== *)
theory Relay_Properties
  imports Service Samples
begin

text \<open>
  What the sponsored relay promises: which sponsor tokens are honoured, that a token the operator
  issues is honoured until it expires, what a sponsored transaction adds to the client's, and that
  the fee it pays is the one its own size calls for.
\<close>

section \<open>Issued tokens\<close>

lemma issued_token_parts:
  "ed25519_issue E seed c = canonical c @ ed_sign E seed (canonical c)"
  by (simp add: ed25519_issue_def Let_def)

lemma issued_grants:
  assumes E: "ed_correct E" and c: "wf_capability c" and now: "now \<le> cap_not_after c"
  shows "ed25519_authorize E (ed_public E seed) (ed25519_issue E seed c @ rest) now (cap_scope c) = Ok c"
  using assms by (auto simp: ed25519_authorize_iff issued_token_parts ed_correct_def)

section \<open>Balancing\<close>

text \<open>What the relayer's part of a transaction is: one input, one change output, its cell deps.\<close>

record fee_part =
  fp_input :: out_point
  fp_change :: u64
  fp_lock :: script
  fp_deps :: "cell_dep list"

definition extends_tx :: "transaction \<Rightarrow> fee_part \<Rightarrow> transaction \<Rightarrow> bool" where
  "extends_tx partial p tx \<longleftrightarrow>
     tx_witnesses tx = tx_witnesses partial \<and>
     rt_version (tx_raw tx) = rt_version (tx_raw partial) \<and>
     rt_header_deps (tx_raw tx) = rt_header_deps (tx_raw partial) \<and>
     rt_inputs (tx_raw tx) = rt_inputs (tx_raw partial) @ [\<lparr>ci_previous_output = fp_input p, ci_since = 0\<rparr>] \<and>
     rt_outputs (tx_raw tx) = rt_outputs (tx_raw partial) @ [\<lparr>co_capacity = fp_change p, co_lock = fp_lock p, co_type = None\<rparr>] \<and>
     rt_outputs_data (tx_raw tx) = rt_outputs_data (tx_raw partial) @ [[]] \<and>
     (\<exists>added. rt_cell_deps (tx_raw tx) = rt_cell_deps (tx_raw partial) @ added \<and>
        set added = set (fp_deps p) - set (rt_cell_deps (tx_raw partial)))"

lemma balance_extends:
  assumes "balance partial fi cap fee lock deps = Ok tx"
  shows "fee \<le> cap" "extends_tx partial \<lparr>fp_input = fi, fp_change = cap - fee, fp_lock = lock, fp_deps = deps\<rparr> tx"
  using assms by (auto simp: balance_def Let_def result_simps checked_sub_Some extends_tx_def)

text \<open>
  Molecule stores a capacity and an out-point in a fixed number of bytes, so two transactions that
  differ in those only have one size.
\<close>

definition same_layout :: "transaction \<Rightarrow> transaction \<Rightarrow> bool" where
  "same_layout t u \<longleftrightarrow>
     tx_witnesses t = tx_witnesses u \<and> rt_cell_deps (tx_raw t) = rt_cell_deps (tx_raw u) \<and>
     rt_header_deps (tx_raw t) = rt_header_deps (tx_raw u) \<and>
     length (rt_inputs (tx_raw t)) = length (rt_inputs (tx_raw u)) \<and>
     map (\<lambda>c. (co_lock c, co_type c)) (rt_outputs (tx_raw t)) = map (\<lambda>c. (co_lock c, co_type c)) (rt_outputs (tx_raw u)) \<and>
     rt_outputs_data (tx_raw t) = rt_outputs_data (tx_raw u)"

definition molecule_layout :: "externals \<Rightarrow> bool" where
  "molecule_layout X \<longleftrightarrow>
     (\<forall>t u. same_layout t u \<longrightarrow> length (molecule_transaction X t) = length (molecule_transaction X u))"

lemma balance_same_layout:
  assumes "balance partial fi cap fee lock deps = Ok t" "balance partial fi' cap' fee' lock deps = Ok u"
  shows "same_layout t u"
  using assms by (auto simp: balance_def Let_def result_simps same_layout_def)

lemma min_fee_layout: "molecule_layout X \<Longrightarrow> same_layout t u \<Longrightarrow> min_fee X t rate = min_fee X u rate"
proof -
  assume "molecule_layout X" "same_layout t u"
  then have "length (molecule_transaction X t) = length (molecule_transaction X u)" unfolding molecule_layout_def by blast
  then show ?thesis unfolding min_fee_def by (simp only:)
qed

section \<open>A sponsored transaction\<close>

lemma ceiling_div: "(m + k) div Suc k = (if 0 < m mod Suc k then m div Suc k + 1 else m div Suc k)"
proof -
  define q r where "q = m div Suc k" and "r = m mod Suc k"
  have m: "m = q * Suc k + r" "r < Suc k" unfolding q_def r_def by (simp_all only: div_mult_mod_eq mod_less_divisor zero_less_Suc)
  have "(m + k) div Suc k = q + (r + k) div Suc k" unfolding m(1) add.assoc by (rule div_mult_self3) simp
  moreover have "(r + k) div Suc k = (if 0 < r then 1 else 0)"
    using m(2) by (simp add: div_nat_eqI)
  ultimately show ?thesis unfolding q_def[symmetric] r_def[symmetric] by simp
qed

lemma unat_mod_1000: "unat ((n :: u64) mod 1000) = unat n mod 1000" "unat (n div 1000) = unat n div 1000"
  by (simp_all add: unat_mod unat_div)

lemma min_fee_ceiling:
  "unat (min_fee X tx rate) =
     (min (unat (of_nat (length (molecule_transaction X tx)) :: u64) * unat rate) (2 ^ 64 - 1) + 999) div 1000"
proof -
  define n where "n = saturating_mul (of_nat (length (molecule_transaction X tx)) :: u64) rate"
  have pos: "n mod 1000 > 0 \<longleftrightarrow> unat n mod 1000 > 0"
    by (simp only: word_less_nat_alt unat_mod_1000) simp
  have "unat n < 2 ^ 64" using unat_less_2p[of n] by simp
  then have small: "unat n div 1000 + 1 < 2 ^ 64" by simp
  have "unat (n div 1000 + 1) = unat n div 1000 + 1"
    using small by (simp add: unat_word_ariths unat_mod_1000)
  then have "unat (min_fee X tx rate) = (if 0 < unat n mod 1000 then unat n div 1000 + 1 else unat n div 1000)"
    unfolding min_fee_def n_def[symmetric] Let_def using pos by (simp add: unat_mod_1000)
  also have "\<dots> = (unat n + 999) div 1000" using ceiling_div[of "unat n" 999] by simp
  finally show ?thesis by (simp add: n_def unat_saturating_mul)
qed

section \<open>Properties\<close>

text \<open>
  The Ed25519 gate grants a capability exactly when the token is that capability's canonical
  bytes followed by 64 bytes that verify over them under the operator's key, the capability
  carries the scope the endpoint asks for and has not expired.
\<close>

theorem sponsor_token_decision:
  "ed25519_authorize E pk token now scope = Ok c \<longleftrightarrow>
   wf_capability c \<and> cap_scope c = scope \<and> now \<le> cap_not_after c \<and>
   (\<exists>sg rest. token = canonical c @ sg @ rest \<and> length sg = TOKEN_SIG_LEN \<and> ed_verify E pk (canonical c) sg)"
  by (rule ed25519_authorize_iff)

text \<open>
  A token issued with the operator's seed is honoured under the operator's public key, for the
  capability it was issued for, until that capability expires; bytes after the signature are
  ignored.
\<close>

theorem issued_token_honoured:
  assumes "ed_correct E" and "wf_capability c" and "now \<le> cap_not_after c"
  shows "ed25519_authorize E (ed_public E seed) (ed25519_issue E seed c @ rest) now (cap_scope c) = Ok c"
  by (rule issued_grants[OF assms])

definition sample_ed25519 :: ed25519 where
  "sample_ed25519 =
     \<lparr>ed_public = (\<lambda>seed. seed), ed_sign = (\<lambda>seed m. take 64 (seed @ m @ replicate 64 0)),
      ed_verify = (\<lambda>pk m sg. sg = take 64 (pk @ m @ replicate 64 0)), ed_key_ok = (\<lambda>_. True)\<rparr>"

definition sample_capability :: capability where
  "sample_capability = \<lparr>cap_scope = [112, 108, 97, 121], cap_subject = [97], cap_not_after = 100\<rparr>"

lemma sample_ed25519_correct: "ed_correct sample_ed25519"
  by (simp add: ed_correct_def sample_ed25519_def TOKEN_SIG_LEN_def min_def)

lemma sample_capability_wf: "wf_capability sample_capability"
  by (simp add: wf_capability_def sample_capability_def)

lemma issued_token_honoured_witness:
  "ed25519_authorize sample_ed25519 [1] (ed25519_issue sample_ed25519 [1] sample_capability) 99 [112, 108, 97, 121] =
   Ok sample_capability"
  using issued_token_honoured[OF sample_ed25519_correct sample_capability_wf, of 99 "[1]" "[]"]
  by (simp add: sample_capability_def) (simp add: sample_ed25519_def)

text \<open>
  C26: a transaction the deployed relay sponsors was paid for by a valid sponsor token of the
  relay's scope; it is the client's transaction, untouched, with one input, one change output and
  the missing cell deps of the relay added; the input is a cell the node reported, its capacity
  is the fee and the change, the fee is at least the floor and the change is at least what a
  change cell occupies.
\<close>

theorem sponsored_transaction:
  assumes "service_sponsor X occupied s token partial now = Ok out"
    and "ss_gate s = ed25519_authorize E pk" and "ss_rpc s = http_rpc C"
  shows "\<exists>c cell change least.
     ed25519_authorize E pk token now (ss_scope s) = Ok c \<and> cap_scope c = ss_scope s \<and> now \<le> cap_not_after c \<and>
     sp_subject out = cap_subject c \<and>
     extends_tx partial \<lparr>fp_input = sp_fee_input out, fp_change = change, fp_lock = ss_fee_lock s, fp_deps = ss_fee_cell_deps s\<rparr> (sp_tx out) \<and>
     http_collect_fee_cell C (ss_fee_lock s) (sp_fee out + least) = Ok (Some cell) \<and> sp_fee_input out = fc_out_point cell \<and>
     unat (fc_capacity cell) = unat (sp_fee out) + unat change \<and> MIN_FEE_SHANNONS \<le> sp_fee out \<and>
     occupied \<lparr>co_capacity = 0, co_lock = ss_fee_lock s, co_type = None\<rparr> = Some least \<and> least \<le> change"
proof (rule ed25519_http.service_sponsor_okE[OF assms(1,2)])
  show "rpc_collect_fee_cell (ss_rpc s) = http_collect_fee_cell C" by (simp add: assms(3) http_rpc_def)
next
  fix c dry cell least
  assume c: "ed25519_authorize E pk token now (ss_scope s) = Ok c" "cap_scope c = ss_scope s" "now \<le> cap_not_after c" "sp_subject out = cap_subject c"
    and cell: "http_collect_fee_cell C (ss_fee_lock s) least = Ok (Some cell)" "sp_fee_input out = fc_out_point cell"
    and occ: "occupied \<lparr>co_capacity = 0, co_lock = ss_fee_lock s, co_type = None\<rparr> = Some (least - sp_fee out)"
    and sum: "unat least = unat (sp_fee out) + unat (least - sp_fee out)" and cap: "least \<le> fc_capacity cell"
    and fee: "MIN_FEE_SHANNONS \<le> sp_fee out"
    and bal: "balance partial (fc_out_point cell) (fc_capacity cell) (sp_fee out) (ss_fee_lock s) (ss_fee_cell_deps s) = Ok (sp_tx out)"
  have le: "sp_fee out \<le> fc_capacity cell" by (rule balance_extends(1)[OF bal])
  then have total: "unat (fc_capacity cell) = unat (sp_fee out) + unat (fc_capacity cell - sp_fee out)"
    by (simp add: unat_sub_if' word_le_nat_alt)
  then have "least - sp_fee out \<le> fc_capacity cell - sp_fee out"
    using sum cap by (simp add: word_le_nat_alt)
  then show ?thesis
    using c cell(1) cell(2)[symmetric] occ total fee balance_extends(2)[OF bal]
    by (intro exI[of _ c] exI[of _ cell] exI[of _ "fc_capacity cell - sp_fee out"] exI[of _ "least - sp_fee out"]) simp
qed

text \<open>A node with one plain cell of 0x4000 shannons, and a relay over it.\<close>

definition sample_http :: http_crates where
  "sample_http =
     \<lparr>http_post = (\<lambda>m ps. Ok (JObj [(''result'', JObj [(''objects'', JArr [JObj
          [(''output'', JObj [(''capacity'', JStr ''0x4000'')]),
           (''out_point'', JObj [(''tx_hash'', JStr ''0x''), (''index'', JStr ''0x1'')])]])])])),
      script_to_json = (\<lambda>s. JNull), tx_to_json = (\<lambda>t. JNull), output_from_json = (\<lambda>j. None),
      h256_from_str = (\<lambda>s. Some (replicate 32 4)), hex_decode = (\<lambda>s. None)\<rparr>"

definition sample_fee_cell :: fee_cell where
  "sample_fee_cell = \<lparr>fc_out_point = \<lparr>op_tx_hash = replicate 32 4, op_index = 1\<rparr>, fc_capacity = 0x4000\<rparr>"

definition sample_fee_lock :: script where
  "sample_fee_lock = \<lparr>s_code_hash = replicate 32 2, s_hash_type = 1, s_args = []\<rparr>"

definition sample_service :: sponsor_service where
  "sample_service =
     \<lparr>ss_gate = ed25519_authorize sample_ed25519 [1], ss_rpc = http_rpc sample_http, ss_fee_lock = sample_fee_lock,
      ss_fee_cell_deps = [], ss_fee_rate = 1000, ss_scope = [112, 108, 97, 121]\<rparr>"

definition sample_token :: bytes where
  "sample_token = ed25519_issue sample_ed25519 [1] sample_capability"

definition sample_partial :: transaction where
  "sample_partial =
     \<lparr>tx_raw = \<lparr>rt_version = 0, rt_cell_deps = [], rt_header_deps = [], rt_inputs = [], rt_outputs = [], rt_outputs_data = []\<rparr>,
      tx_witnesses = []\<rparr>"

lemma sample_token_granted:
  "ed25519_authorize sample_ed25519 [1] sample_token 99 [112, 108, 97, 121] = Ok sample_capability"
  using issued_grants[OF sample_ed25519_correct sample_capability_wf, of 99 "[1]" "[]"]
  by (simp add: sample_capability_def sample_token_def) (simp add: sample_ed25519_def)

lemma sample_collects: "http_collect_fee_cell sample_http lock 2000 = Ok (Some sample_fee_cell)"
  by (simp add: http_collect_fee_cell_def http_call_def sample_http_def objects_of_def json_at_def parse_hex_u64_def
      u64_from_hex_def parse_unsigned_def Let_def parse_h256_def sample_fee_cell_def)

definition sample_sponsored :: sponsored where
  "sample_sponsored =
     \<lparr>sp_tx = sample_partial\<lparr>tx_raw := (tx_raw sample_partial)\<lparr>
        rt_inputs := [\<lparr>ci_previous_output = fc_out_point sample_fee_cell, ci_since = 0\<rparr>],
        rt_outputs := [\<lparr>co_capacity = 0x4000 - 1000, co_lock = sample_fee_lock, co_type = None\<rparr>],
        rt_outputs_data := [[]]\<rparr>\<rparr>,
      sp_fee = 1000, sp_fee_input = fc_out_point sample_fee_cell, sp_subject = [97]\<rparr>"

lemma sample_balance:
  "balance sample_partial fi cap fee lock [] =
     (if fee \<le> cap then Ok (sample_partial\<lparr>tx_raw := (tx_raw sample_partial)\<lparr>
        rt_inputs := [\<lparr>ci_previous_output = fi, ci_since = 0\<rparr>],
        rt_outputs := [\<lparr>co_capacity = cap - fee, co_lock = lock, co_type = None\<rparr>],
        rt_outputs_data := [[]]\<rparr>\<rparr>) else Err InsufficientFee)"
  by (simp add: balance_def sample_partial_def checked_sub_def Let_def)

lemma sample_sponsor_run:
  "service_sponsor sample_externals (\<lambda>_. Some 1000) sample_service sample_token sample_partial 99 = Ok sample_sponsored"
proof -
  have gate: "ss_gate sample_service sample_token 99 (ss_scope sample_service) = Ok sample_capability"
    by (simp add: sample_service_def sample_token_granted)
  have node: "rpc_collect_fee_cell (ss_rpc sample_service) lock 2000 = Ok (Some sample_fee_cell)" for lock
    by (simp add: sample_service_def http_rpc_def sample_collects)
  obtain dry where dry: "dry_balance sample_service sample_partial = Ok dry" "molecule_transaction sample_externals dry = []"
    by (simp add: dry_balance_def sample_service_def sample_balance) (simp add: sample_externals_def sample_partial_def)
  have fee: "max (min_fee sample_externals dry (ss_fee_rate sample_service)) MIN_FEE_SHANNONS = 1000"
    by (simp add: min_fee_def dry saturating_mul_def MIN_FEE_SHANNONS_def)
  have needed: "checked_add (1000 :: u64) 1000 = Some 2000" by (simp add: checked_add_def)
  have deps: "ss_fee_cell_deps sample_service = []" "ss_fee_lock sample_service = sample_fee_lock"
    by (simp_all add: sample_service_def)
  show ?thesis
    unfolding service_sponsor_def gate dry andThen.simps map_err.simps Let_def fee
    by (simp add: min_change_def needed node sample_balance deps)
       (simp add: sample_fee_cell_def sample_sponsored_def sample_capability_def)
qed

lemma sponsored_transaction_witness:
  "extends_tx sample_partial \<lparr>fp_input = \<lparr>op_tx_hash = replicate 32 4, op_index = 1\<rparr>, fp_change = 0x4000 - 1000,
     fp_lock = sample_fee_lock, fp_deps = []\<rparr> (sp_tx sample_sponsored)"
  using sponsored_transaction[OF sample_sponsor_run, of sample_ed25519 "[1]" sample_http]
  by (auto simp: sample_service_def extends_tx_def sample_sponsored_def sample_fee_cell_def)

text \<open>
  C27: when molecule's size depends on a transaction's layout only, as its fixed-width capacities
  and out-points make it, the fee of a sponsored transaction is at least the fee its own
  serialized size calls for at the relay's rate, rounded up to a shannon, although it was computed
  before the fee cell was known.
\<close>

theorem sponsored_fee_sufficient:
  assumes "service_sponsor X occupied s token partial now = Ok out"
    and "ss_gate s = ed25519_authorize E pk" and "ss_rpc s = http_rpc C" and "molecule_layout X"
  shows "(min (unat (of_nat (length (molecule_transaction X (sp_tx out))) :: u64) * unat (ss_fee_rate s)) (2 ^ 64 - 1) + 999) div 1000
     \<le> unat (sp_fee out)"
proof (rule ed25519_http.service_sponsor_okE[OF assms(1,2)])
  show "rpc_collect_fee_cell (ss_rpc s) = http_collect_fee_cell C" by (simp add: assms(3) http_rpc_def)
next
  fix dry cell
  assume dry: "dry_balance s partial = Ok dry" and fee: "sp_fee out = max (min_fee X dry (ss_fee_rate s)) MIN_FEE_SHANNONS"
    and bal: "balance partial (fc_out_point cell) (fc_capacity cell) (sp_fee out) (ss_fee_lock s) (ss_fee_cell_deps s) = Ok (sp_tx out)"
  have "min_fee X (sp_tx out) (ss_fee_rate s) = min_fee X dry (ss_fee_rate s)"
    by (rule min_fee_layout[OF assms(4) balance_same_layout[OF bal dry[unfolded dry_balance_def]]])
  then have "min_fee X (sp_tx out) (ss_fee_rate s) \<le> sp_fee out" by (simp add: fee)
  then show ?thesis by (simp only: min_fee_ceiling word_le_nat_alt)
qed

lemma sample_molecule_layout: "molecule_layout sample_externals"
  by (auto simp: molecule_layout_def same_layout_def sample_externals_def)

lemma sponsored_fee_sufficient_witness: "sp_fee sample_sponsored = 1000 \<and>
   (min (unat (of_nat (length (molecule_transaction sample_externals (sp_tx sample_sponsored))) :: u64) * 1000) (2 ^ 64 - 1) + 999) div 1000 \<le> 1000"
  using sponsored_fee_sufficient[OF sample_sponsor_run, of sample_ed25519 "[1]" sample_http, OF _ _ sample_molecule_layout]
  by (simp add: sample_service_def sample_sponsored_def)

end
