(* ===== verification/Operator.thy ===== *)
theory Operator
  imports Service Game_Cell
begin

text \<open>
  The game operator, paymaster-service/src/operator.rs: the sequencer that queues players' intents
  and turns them into one transaction that advances the game cell, and the operator's own lock
  signature, sighash.rs.  A \<open>&mut self\<close> method returns its result with the operator it leaves
  behind.  The node is threaded as a state, because the operator's in-memory node counts what it
  is sent; the contract the operator needs of a node is the locale \<open>node\<close>.
\<close>

section \<open>State\<close>

record game_tip =
  gt_out_point :: out_point
  gt_output :: cell_output
  gt_state :: game_state

record transition =
  tr_tx :: transaction
  tr_applied :: nat
  tr_next_state :: game_state
  tr_next_output :: cell_output

record game_operator =
  go_game_id :: bytes
  go_cell_deps :: "cell_dep list"
  go_tip :: game_tip
  go_mempool :: "intent list"
  go_fee :: u64

text \<open>Why a finalize step failed: the message the operator formats itself, or the callback's text.\<close>

datatype finalize_error = CannotFund u64 u64 | FinalizeText string

datatype operator_error = OpGame game_error | OpRpc rpc_error | OpFinalize finalize_error | OpEmpty

definition operator_new :: "bytes \<Rightarrow> cell_dep list \<Rightarrow> game_tip \<Rightarrow> game_operator" where
  "operator_new game_id cell_deps tip =
     \<lparr>go_game_id = game_id, go_cell_deps = cell_deps, go_tip = tip, go_mempool = [], go_fee = 0\<rparr>"

definition with_fee :: "game_operator \<Rightarrow> u64 \<Rightarrow> game_operator" where
  "with_fee op fee = op\<lparr>go_fee := fee\<rparr>"

definition pending :: "game_operator \<Rightarrow> nat" where
  "pending op = length (go_mempool op)"

section \<open>Operations\<close>

definition submit :: "game_operator \<Rightarrow> intent \<Rightarrow> (operator_error, unit) result \<times> game_operator" where
  "submit op i =
     (case apply_batch (gt_state (go_tip op)) (go_mempool op) of
        (Inl f, _) \<Rightarrow> (map_err OpGame (Inl f), op)
      | (Inr _, projected) \<Rightarrow>
          (case apply_intent projected i of
             (Inl f, _) \<Rightarrow> (map_err OpGame (Inl f), op)
           | (Inr _, _) \<Rightarrow> (Ok (), op\<lparr>go_mempool := go_mempool op @ [i]\<rparr>)))"

definition batch_witness :: "intent list \<Rightarrow> witness_args" where
  "batch_witness is = \<lparr>wa_lock = None, wa_input_type = Some (encode_batch is), wa_output_type = None\<rparr>"

definition build_transition :: "externals \<Rightarrow> game_operator \<Rightarrow> (operator_error, transition) result" where
  "build_transition X op =
     (if go_mempool op = [] then Err OpEmpty
      else
        let (r, next_state) = apply_batch (gt_state (go_tip op)) (go_mempool op) in
        andThen (map_err OpGame r) (\<lambda>_.
        let capacity = co_capacity (gt_output (go_tip op)) in
        andThen (ok_or (checked_sub capacity (go_fee op)) (OpFinalize (CannotFund capacity (go_fee op)))) (\<lambda>next_capacity.
        let next_output = (gt_output (go_tip op))\<lparr>co_capacity := next_capacity\<rparr>;
            witness = molecule_witness_args X (batch_witness (go_mempool op));
            tx = \<lparr>tx_raw = \<lparr>rt_version = 0, rt_cell_deps = go_cell_deps op, rt_header_deps = [],
                     rt_inputs = [\<lparr>ci_previous_output = gt_out_point (go_tip op), ci_since = 0\<rparr>],
                     rt_outputs = [next_output], rt_outputs_data = [state_encode next_state]\<rparr>,
                   tx_witnesses = [witness]\<rparr>
        in Ok \<lparr>tr_tx = tx, tr_applied = length (go_mempool op), tr_next_state = next_state, tr_next_output = next_output\<rparr>)))"

type_synonym finalize = "transaction \<Rightarrow> string + transaction"

type_synonym 'n send = "transaction \<Rightarrow> 'n \<Rightarrow> (rpc_error, bytes) result \<times> 'n"

text \<open>\<open>flush\<close>: the result, the operator and the node after the call.\<close>

definition flush ::
  "externals \<Rightarrow> 'n send \<Rightarrow> finalize \<Rightarrow> game_operator \<Rightarrow> 'n \<Rightarrow> (operator_error, bytes) result \<times> game_operator \<times> 'n" where
  "flush X send finalize op n =
     (case build_transition X op of
        Inl f \<Rightarrow> (Inl f, op, n)
      | Inr t \<Rightarrow>
          (case finalize (tr_tx t) of
             Inl e \<Rightarrow> (Err (OpFinalize (FinalizeText e)), op, n)
           | Inr signed_tx \<Rightarrow>
               (case send signed_tx n of
                  (Inl f, n') \<Rightarrow> (map_err OpRpc (Inl f), op, n')
                | (Inr tx_hash, n') \<Rightarrow>
                    (Ok tx_hash,
                     op\<lparr>go_tip := \<lparr>gt_out_point = \<lparr>op_tx_hash = tx_hash, op_index = 0\<rparr>,
                                  gt_output = tr_next_output t, gt_state = tr_next_state t\<rparr>,
                        go_mempool := []\<rparr>, n'))))"

definition drop_pending :: "game_operator \<Rightarrow> game_operator" where
  "drop_pending op = op\<lparr>go_mempool := []\<rparr>"

definition game_type_script :: "bytes \<Rightarrow> byte \<Rightarrow> bytes \<Rightarrow> script" where
  "game_type_script code_hash hash_type game_id = \<lparr>s_code_hash = code_hash, s_hash_type = hash_type, s_args = game_id\<rparr>"

section \<open>The sighash signature\<close>

text \<open>
  The crates: reading a witness, the recoverable signature of a 32-byte message (64 bytes and the
  recovery id) and blake2b with CKB's personalization, whose \<open>update\<close> calls hash the
  concatenation of their arguments.
\<close>

record sighash_crates =
  wa_from_slice :: "bytes \<Rightarrow> string + witness_args"
  sign_recoverable :: "bytes \<Rightarrow> bytes \<Rightarrow> bytes \<times> byte"

definition zeroed_lock_witness :: "externals \<Rightarrow> witness_args \<Rightarrow> bytes" where
  "zeroed_lock_witness X wa = molecule_witness_args X (wa\<lparr>wa_lock := Some (replicate 65 0)\<rparr>)"

text \<open>What one call of \<open>hash_witness\<close> feeds the hasher.\<close>

definition hash_witness :: "bytes \<Rightarrow> bytes" where
  "hash_witness w = u64_le (of_nat (length w)) @ w"

definition sighash_message :: "externals \<Rightarrow> transaction \<Rightarrow> witness_args \<Rightarrow> bytes" where
  "sighash_message X tx wa =
     blake2b_256 X (calc_tx_hash X (tx_raw tx) @ hash_witness (zeroed_lock_witness X wa) @
       concat (map hash_witness (drop (length (rt_inputs (tx_raw tx))) (tx_witnesses tx))))"

definition sign_sighash_all :: "externals \<Rightarrow> sighash_crates \<Rightarrow> bytes \<Rightarrow> finalize" where
  "sign_sighash_all X S sk tx =
     (case tx_witnesses tx of
        [] \<Rightarrow> Inl ''tx has no witness 0''
      | w0 # ws \<Rightarrow>
          (case wa_from_slice S w0 of
             Inl e \<Rightarrow> Inl (''witness 0 is not WitnessArgs: '' @ e)
           | Inr wa \<Rightarrow>
               let (compact, rec_id) = sign_recoverable S (sighash_message X tx wa) sk;
                   sig65 = compact @ [rec_id]
               in Inr (tx\<lparr>tx_witnesses := molecule_witness_args X (wa\<lparr>wa_lock := Some sig65\<rparr>) # ws\<rparr>)))"

section \<open>Nodes\<close>

text \<open>
  What the operator needs of the node it broadcasts to: the hash an accepted transaction is given
  is the transaction's own, so the next game cell is where the operator will look for it.
\<close>

locale node =
  fixes X :: externals and send :: "'n send"
  assumes hash_of_sent: "send tx n = (Ok h, n') \<Longrightarrow> h = calc_tx_hash X (tx_raw tx)"
begin

text \<open>A finalize step that only fills witnesses, as the operator's signature does.\<close>

lemma flush_tip_spends:
  assumes run: "flush X send finalize op n = (Ok h, op', n')"
    and fin: "\<And>tx tx'. finalize tx = Inr tx' \<Longrightarrow> tx_raw tx' = tx_raw tx"
  obtains t where "build_transition X op = Ok t" "h = calc_tx_hash X (tx_raw (tr_tx t))"
    "gt_out_point (go_tip op') = \<lparr>op_tx_hash = calc_tx_hash X (tx_raw (tr_tx t)), op_index = 0\<rparr>"
    "gt_output (go_tip op') = rt_outputs (tx_raw (tr_tx t)) ! 0"
    "state_encode (gt_state (go_tip op')) = rt_outputs_data (tx_raw (tr_tx t)) ! 0"
    "go_mempool op' = []"
proof -
  from run obtain t s where t: "build_transition X op = Ok t" and s: "finalize (tr_tx t) = Inr s"
    and sent: "send s n = (Ok h, n')" and op': "op' = op\<lparr>go_tip := \<lparr>gt_out_point = \<lparr>op_tx_hash = h, op_index = 0\<rparr>,
       gt_output = tr_next_output t, gt_state = tr_next_state t\<rparr>, go_mempool := []\<rparr>"
    by (auto simp: flush_def map_err_Ok_iff split: sum.splits prod.splits)
  have h: "h = calc_tx_hash X (tx_raw (tr_tx t))" using hash_of_sent[OF sent] fin[OF s] by simp
  have cell: "tr_next_output t = rt_outputs (tx_raw (tr_tx t)) ! 0"
    "state_encode (tr_next_state t) = rt_outputs_data (tx_raw (tr_tx t)) ! 0"
    using t by (auto simp: build_transition_def Let_def andThen_Ok_iff split: if_splits prod.splits)
  show ?thesis by (rule that[OF t h]) (simp_all add: op' h cell)
qed

end

text \<open>The in-memory node of the operator binary: it counts the transactions and answers each hash.\<close>

definition mock_send :: "externals \<Rightarrow> u32 send" where
  "mock_send X tx sent =
     (case checked_add sent 1 of
        None \<Rightarrow> (Panicked, sent)
      | Some sent' \<Rightarrow> (Ok (calc_tx_hash X (tx_raw tx)), sent'))"

interpretation mock_chain: node X "mock_send X" for X
  by unfold_locales (simp add: mock_send_def split: option.splits)

end
