(* ===== verification/Operator_Server.thy ===== *)
theory Operator_Server
  imports Operator
begin

text \<open>
  The operator's HTTP server, paymaster-service/src/bin/game-operator.rs: the invoice relay, the
  match-history log, the handlers of its endpoints and the configuration it starts from.  A handler
  returns its status and body (or panics), the state it leaves and the events it appends to the
  log.  The clock, the environment, files and the network are arguments; serde\_json, hex and the
  \<open>Debug\<close> text of an error are the fields of a record.
\<close>

section \<open>Strings\<close>

definition split_once :: "char \<Rightarrow> string \<Rightarrow> (string \<times> string) option" where
  "split_once c s = (case dropWhile (\<lambda>x. x \<noteq> c) s of [] \<Rightarrow> None | _ # r \<Rightarrow> Some (takeWhile (\<lambda>x. x \<noteq> c) s, r))"

fun split_on :: "char \<Rightarrow> string \<Rightarrow> string list" where
  "split_on c [] = [[]]"
| "split_on c (x # xs) =
     (if x = c then [] # split_on c xs
      else case split_on c xs of [] \<Rightarrow> [[x]] | w # ws \<Rightarrow> (x # w) # ws)"

fun dec_value :: "char \<Rightarrow> nat option" where
  "dec_value c = (let n = of_char c :: nat in if 48 \<le> n \<and> n \<le> 57 then Some (n - 48) else None)"

fun find_map :: "('a \<Rightarrow> 'b option) \<Rightarrow> 'a list \<Rightarrow> 'b option" where
  "find_map f [] = None"
| "find_map f (x # xs) = (case f x of None \<Rightarrow> find_map f xs | Some y \<Rightarrow> Some y)"

definition query_param :: "string \<Rightarrow> string \<Rightarrow> string option" where
  "query_param url key =
     (case split_once CHR ''?'' url of
        None \<Rightarrow> None
      | Some (_, q) \<Rightarrow>
          find_map (\<lambda>kv. let (k, v) = (case split_once CHR ''='' kv of None \<Rightarrow> (kv, []) | Some p \<Rightarrow> p)
                         in if k = key then Some v else None) (split_on CHR ''&'' q))"

section \<open>Crates\<close>

record server_crates =
  parse_json :: "string \<Rightarrow> string + json"
  show_json :: "json \<Rightarrow> string"
  decode_hex_text :: "string \<Rightarrow> string + bytes"
  debug_operator_error :: "operator_error \<Rightarrow> string"

primrec debug_game_error :: "game_error \<Rightarrow> string" where
  "debug_game_error StateMalformed = ''StateMalformed''"
| "debug_game_error BatchMalformed = ''BatchMalformed''"
| "debug_game_error NonceNotFresh = ''NonceNotFresh''"
| "debug_game_error PointsTooHigh = ''PointsTooHigh''"
| "debug_game_error Overflow = ''Overflow''"

definition hex_bytes :: "server_crates \<Rightarrow> string \<Rightarrow> string + bytes" where
  "hex_bytes C s =
     (case decode_hex_text C (trim_0x s) of Inl e \<Rightarrow> Inl (''invalid hex: '' @ e) | Inr b \<Rightarrow> Inr b)"

section \<open>The invoice relay\<close>

definition INVOICE_CAP :: nat where "INVOICE_CAP = 256"

record relay_invoice =
  ri_id :: u64
  ri_game_id :: "string option"
  ri_to :: "string option"
  ri_from :: "string option"
  ri_invoice :: string
  ri_amount_ckb :: u64
  ri_paid :: bool
  ri_ts :: u64

record invoice_relay =
  ir_invoices :: "relay_invoice list"
  ir_next_id :: u64

fun opt_json :: "string option \<Rightarrow> json" where
  "opt_json None = JNull"
| "opt_json (Some s) = JStr s"

abbreviation word_json :: "u64 \<Rightarrow> json" where "word_json w \<equiv> JInt (uint w)"

definition invoice_to_json :: "relay_invoice \<Rightarrow> json" where
  "invoice_to_json r =
     JObj [(''id'', word_json (ri_id r)), (''game_id'', opt_json (ri_game_id r)), (''to'', opt_json (ri_to r)),
       (''from'', opt_json (ri_from r)), (''invoice'', JStr (ri_invoice r)), (''amount_ckb'', word_json (ri_amount_ckb r)),
       (''paid'', JBool (ri_paid r)), (''ts'', word_json (ri_ts r))]"

definition relay_new :: invoice_relay where
  "relay_new = \<lparr>ir_invoices = [], ir_next_id = 1\<rparr>"

text \<open>\<open>while self.invoices.len() > INVOICE_CAP { self.invoices.remove(0); }\<close>\<close>

function shed_oldest :: "relay_invoice list \<Rightarrow> relay_invoice list" where
  "shed_oldest xs = (if length xs > INVOICE_CAP then shed_oldest (tl xs) else xs)"
  by pat_completeness auto
termination by (relation "measure length") auto

declare shed_oldest.simps [simp del]

definition publish ::
  "invoice_relay \<Rightarrow> u64 \<Rightarrow> string option \<Rightarrow> string option \<Rightarrow> string option \<Rightarrow> string \<Rightarrow> u64 \<Rightarrow> (unit, u64) result \<times> invoice_relay" where
  "publish r now game_id dest sender invoice amount_ckb =
     (let i = ir_next_id r in
      case checked_add i 1 of
        None \<Rightarrow> (Panicked, r)
      | Some next_id \<Rightarrow>
          (Ok i, \<lparr>ir_invoices = shed_oldest (ir_invoices r @
               [\<lparr>ri_id = i, ri_game_id = game_id, ri_to = dest, ri_from = sender, ri_invoice = invoice,
                 ri_amount_ckb = amount_ckb, ri_paid = False, ri_ts = now\<rparr>]),
             ir_next_id = next_id\<rparr>))"

definition payable_by :: "string option \<Rightarrow> relay_invoice \<Rightarrow> bool" where
  "payable_by payer entry =
     (if ri_paid entry then False
      else case payer of
        None \<Rightarrow> True
      | Some p \<Rightarrow>
          if ri_from entry = Some p then False
          else (case ri_to entry of None \<Rightarrow> True | Some dest \<Rightarrow> dest = p))"

definition next_for :: "invoice_relay \<Rightarrow> string option \<Rightarrow> relay_invoice option" where
  "next_for r payer = List.find (payable_by payer) (ir_invoices r)"

definition mark_paid :: "invoice_relay \<Rightarrow> u64 \<Rightarrow> relay_invoice option \<times> invoice_relay" where
  "mark_paid r i =
     (case position (\<lambda>entry. ri_id entry = i) (ir_invoices r) of
        None \<Rightarrow> (None, r)
      | Some k \<Rightarrow>
          let entry = (ir_invoices r ! k)\<lparr>ri_paid := True\<rparr>
          in (Some entry, r\<lparr>ir_invoices := (ir_invoices r)[k := entry]\<rparr>))"

section \<open>The results log\<close>

text \<open>The file as its lines; a write that fails is reported and dropped.\<close>

definition log_append :: "server_crates \<Rightarrow> bool \<Rightarrow> string list \<Rightarrow> json \<Rightarrow> string list" where
  "log_append C writable log event = (if writable then log @ [show_json C event] else log)"

definition log_last :: "server_crates \<Rightarrow> string list \<Rightarrow> nat \<Rightarrow> json list" where
  "log_last C log n =
     (let ls = List.map_filter (\<lambda>l. case parse_json C l of Inl _ \<Rightarrow> None | Inr v \<Rightarrow> Some v) log
      in if length ls > n then drop (length ls - n) ls else ls)"

section \<open>Handlers\<close>

type_synonym response = "(unit, u16 \<times> json) result"

definition err_json :: "string \<Rightarrow> json" where
  "err_json e = JObj [(''error'', JStr e)]"

definition str_field :: "json \<Rightarrow> string \<Rightarrow> string option" where
  "str_field v k = Option.bind (json_get v k) as_str"

definition u64_field :: "json \<Rightarrow> string \<Rightarrow> u64 option" where
  "u64_field v k = Option.bind (json_get v k) as_u64"

definition handle_publish_invoice ::
  "server_crates \<Rightarrow> u64 \<Rightarrow> invoice_relay \<Rightarrow> string \<Rightarrow> response \<times> invoice_relay \<times> json list" where
  "handle_publish_invoice C now r body =
     (case parse_json C body of
        Inl e \<Rightarrow> (Ok (400, err_json (''bad request: '' @ e)), r, [])
      | Inr req \<Rightarrow>
          (case str_field req ''invoice'' of
             None \<Rightarrow> (Ok (400, err_json ''missing 'invoice' string field''), r, [])
           | Some invoice \<Rightarrow>
               if invoice = [] then (Ok (400, err_json ''missing 'invoice' string field''), r, [])
               else
                 let amount_ckb = (case u64_field req ''amount_ckb'' of None \<Rightarrow> 0 | Some n \<Rightarrow> n);
                     dest = str_field req ''to''; sender = str_field req ''from''; game_id = str_field req ''game_id''
                 in case publish r now game_id dest sender invoice amount_ckb of
                   (Inl _, r') \<Rightarrow> (Panicked, r', [])
                 | (Inr i, r') \<Rightarrow>
                     (Ok (200, JObj [(''id'', word_json i)]), r',
                      [JObj [(''ts'', word_json now), (''kind'', JStr ''invoice_published''), (''id'', word_json i),
                         (''from'', opt_json sender), (''to'', opt_json dest), (''amount_ckb'', word_json amount_ckb),
                         (''game_id'', opt_json game_id)]])))"

definition handle_mark_paid ::
  "server_crates \<Rightarrow> u64 \<Rightarrow> u64 \<Rightarrow> invoice_relay \<Rightarrow> string \<Rightarrow> response \<times> invoice_relay \<times> json list" where
  "handle_mark_paid C now sq r body =
     (case parse_json C body of
        Inl e \<Rightarrow> (Ok (400, err_json (''bad request: '' @ e)), r, [])
      | Inr req \<Rightarrow>
          (case u64_field req ''id'' of
             None \<Rightarrow> (Ok (400, err_json ''missing numeric 'id' field''), r, [])
           | Some i \<Rightarrow>
               (case mark_paid r i of
                  (None, r') \<Rightarrow> (Ok (404, err_json ''unknown invoice id''), r', [])
                | (Some entry, r') \<Rightarrow>
                    (Ok (200, JObj [(''ok'', JBool True)]), r',
                     [JObj [(''ts'', word_json now), (''kind'', JStr ''invoice_paid''), (''id'', word_json (ri_id entry)),
                        (''from'', opt_json (ri_from entry)), (''to'', opt_json (ri_to entry)),
                        (''amount_ckb'', word_json (ri_amount_ckb entry)), (''seq'', word_json sq)]]))))"

definition state_json :: "externals \<Rightarrow> game_state \<Rightarrow> json" where
  "state_json X s =
     JObj [(''seq'', word_json (gs_seq s)),
       (''players'', JArr (map (\<lambda>p. JObj [(''hash'', JStr (''0x'' @ hex_encode X (p_hash p))),
          (''score'', word_json (p_score p)), (''nonce'', word_json (p_nonce p))]) (gs_players s)))]"

primrec op_error_status :: "operator_error \<Rightarrow> u16" where
  "op_error_status (OpGame e) = 422"
| "op_error_status OpEmpty = 400"
| "op_error_status (OpFinalize e) = 500"
| "op_error_status (OpRpc e) = 502"

fun op_error_response :: "server_crates \<Rightarrow> operator_error fault \<Rightarrow> response" where
  "op_error_response C (Fail e) = Ok (op_error_status e, err_json (debug_operator_error C e))"
| "op_error_response C Panic = Panicked"

definition flush_or_shed ::
  "externals \<Rightarrow> 'n send \<Rightarrow> finalize \<Rightarrow> game_operator \<Rightarrow> 'n \<Rightarrow> (operator_error, bytes) result \<times> game_operator \<times> 'n" where
  "flush_or_shed X send fin op n =
     (let (res, op', n') = flush X send fin op n in
      case res of
        Inl (Fail (OpRpc e)) \<Rightarrow> (res, drop_pending op', n')
      | _ \<Rightarrow> (res, op', n'))"

definition handle_intent ::
  "externals \<Rightarrow> server_crates \<Rightarrow> 'n send \<Rightarrow> finalize \<Rightarrow> u64 \<Rightarrow> game_operator \<Rightarrow> 'n \<Rightarrow> string \<Rightarrow>
   response \<times> game_operator \<times> 'n \<times> json list" where
  "handle_intent X C send fin now op n body =
     (case parse_json C body of
        Inl e \<Rightarrow> (Ok (400, err_json (''bad request: '' @ e)), op, n, [])
      | Inr req \<Rightarrow>
          (case str_field req ''intent'' of
             None \<Rightarrow> (Ok (400, err_json ''missing 'intent' hex field''), op, n, [])
           | Some intent_hex \<Rightarrow>
               (case hex_bytes C intent_hex of
                  Inl e \<Rightarrow> (Ok (400, err_json e), op, n, [])
                | Inr bytes \<Rightarrow>
                    (case intent_decode bytes of
                       Inl (Fail e) \<Rightarrow> (Ok (400, err_json (''bad intent: '' @ debug_game_error e)), op, n, [])
                     | Inl Panic \<Rightarrow> (Panicked, op, n, [])
                     | Inr i \<Rightarrow>
                         let player = ''0x'' @ hex_encode X (i_hash i); points = i_points i in
                         case submit op i of
                           (Inl f, op') \<Rightarrow> (op_error_response C f, op', n, [])
                         | (Inr _, op') \<Rightarrow>
                             (case flush_or_shed X send fin op' n of
                                (Inl f, op'', n') \<Rightarrow> (op_error_response C f, op'', n', [])
                              | (Inr hash, op'', n') \<Rightarrow>
                                  let sq = gs_seq (gt_state (go_tip op'')); h = ''0x'' @ hex_encode X hash in
                                  (Ok (200, JObj [(''tx_hash'', JStr h), (''seq'', word_json sq)]), op'', n',
                                   [JObj [(''ts'', word_json now), (''kind'', JStr ''score''), (''player'', JStr player),
                                      (''points'', word_json points), (''seq'', word_json sq), (''tx_hash'', JStr h)]]))))))"

definition handle_flush ::
  "externals \<Rightarrow> server_crates \<Rightarrow> 'n send \<Rightarrow> finalize \<Rightarrow> game_operator \<Rightarrow> 'n \<Rightarrow> response \<times> game_operator \<times> 'n" where
  "handle_flush X C send fin op n =
     (case flush_or_shed X send fin op n of
        (Inl f, op', n') \<Rightarrow> (op_error_response C f, op', n')
      | (Inr hash, op', n') \<Rightarrow>
          (Ok (200, JObj [(''tx_hash'', JStr (''0x'' @ hex_encode X hash)),
             (''seq'', word_json (gs_seq (gt_state (go_tip op'))))]), op', n'))"

section \<open>Requests\<close>

datatype http_method = MGet | MPost | MOptions | MOther

record 'n server =
  sv_operator :: game_operator
  sv_node :: 'n
  sv_relay :: invoice_relay
  sv_log :: "string list"

text \<open>
  One turn of the request loop; \<open>None\<close> is a body that could not be read.  \<open>writable\<close> says whether
  the log file could be written.
\<close>

definition serve ::
  "externals \<Rightarrow> server_crates \<Rightarrow> 'n send \<Rightarrow> finalize \<Rightarrow> u64 \<Rightarrow> bool \<Rightarrow> 'n server \<Rightarrow> http_method \<Rightarrow> string \<Rightarrow> string option \<Rightarrow>
   response \<times> 'n server" where
  "serve X C send fin now writable sv mthd url body_read =
     (let path = takeWhile (\<lambda>c. c \<noteq> CHR ''?'') url; op = sv_operator sv; relay = sv_relay sv;
          append = foldl (log_append C writable) (sv_log sv)
      in if mthd = MOptions then (Ok (204, JObj []), sv)
      else case body_read of
        None \<Rightarrow> (Ok (400, err_json ''unreadable body''), sv)
      | Some body \<Rightarrow>
          if mthd = MGet \<and> path = ''/health'' then
            (Ok (200, JObj [(''status'', JStr ''ok''), (''game_id'', JStr (''0x'' @ hex_encode X (go_game_id op))),
               (''seq'', word_json (gs_seq (gt_state (go_tip op)))), (''pending'', JInt (int (pending op))),
               (''invoices'', JInt (int (length (ir_invoices relay))))]), sv)
          else if mthd = MGet \<and> path = ''/game'' then (Ok (200, state_json X (gt_state (go_tip op))), sv)
          else if mthd = MPost \<and> path = ''/intent'' then
            (let (r, op', n', events) = handle_intent X C send fin now op (sv_node sv) body
             in (r, sv\<lparr>sv_operator := op', sv_node := n', sv_log := append events\<rparr>))
          else if mthd = MPost \<and> path = ''/flush'' then
            (let (r, op', n') = handle_flush X C send fin op (sv_node sv)
             in (r, sv\<lparr>sv_operator := op', sv_node := n'\<rparr>))
          else if mthd = MPost \<and> path = ''/invoice'' then
            (let (r, relay', events) = handle_publish_invoice C now relay body
             in (r, sv\<lparr>sv_relay := relay', sv_log := append events\<rparr>))
          else if mthd = MGet \<and> path = ''/invoice'' then
            (case next_for relay (query_param url ''for'') of
               Some entry \<Rightarrow> (Ok (200, JObj [(''invoice'', invoice_to_json entry)]), sv)
             | None \<Rightarrow> (Ok (200, JObj [(''invoice'', JNull)]), sv))
          else if mthd = MPost \<and> path = ''/invoice/paid'' then
            (let (r, relay', events) = handle_mark_paid C now (gs_seq (gt_state (go_tip op))) relay body
             in (r, sv\<lparr>sv_relay := relay', sv_log := append events\<rparr>))
          else if mthd = MGet \<and> path = ''/results'' then
            (let n = (case Option.bind (query_param url ''n'') (parse_unsigned dec_value 10 usize_limit) of
                        None \<Rightarrow> 50 | Some n \<Rightarrow> n)
             in (Ok (200, JObj [(''results'', JArr (log_last C (sv_log sv) n))]), sv))
          else (Ok (404, err_json ''not found''), sv))"

section \<open>Configuration\<close>

definition CKB :: u64 where "CKB = 100000000"

datatype start_error =
    BadOutpoint string | BadIndex string | BadOutpointHash string | BadHexText string | GameIdLength | NoKeyFile
  | BadFee string | NoFile string | BadKey | BadDeployFile string | NoCodeHash | BadCodeHash string | NoGameDep
  | TipUnreachable rpc_error | NoGameCell | TipUndecodable game_error | UnsupportedChain string

definition parse_outpoint :: "http_crates \<Rightarrow> string \<Rightarrow> (start_error, out_point) result" where
  "parse_outpoint H s =
     andThen (ok_or (split_once CHR '':'' s) (BadOutpoint s)) (\<lambda>(hash, index).
     let number = (if take 2 index = ''0x'' then parse_unsigned hex_value 16 (2 ^ 32) (drop 2 index)
                   else parse_unsigned dec_value 10 (2 ^ 32) index) in
     andThen (ok_or number (BadIndex index)) (\<lambda>n.
     andThen (ok_or (h256_from_str H (trim_0x hash)) (BadOutpointHash hash)) (\<lambda>h.
       Ok \<lparr>op_tx_hash = h, op_index = of_nat n\<rparr>)))"

datatype dep_type = DepCode | DepGroup

primrec dep_type_byte :: "dep_type \<Rightarrow> byte" where
  "dep_type_byte DepCode = 0"
| "dep_type_byte DepGroup = 1"

definition dep :: "out_point \<Rightarrow> dep_type \<Rightarrow> cell_dep" where
  "dep out_point dep_type = \<lparr>cd_out_point = out_point, cd_dep_type = dep_type_byte dep_type\<rparr>"

definition load_json :: "server_crates \<Rightarrow> string option \<Rightarrow> json" where
  "load_json C content =
     (case content of
        None \<Rightarrow> JNull
      | Some s \<Rightarrow> (case parse_json C s of Inl _ \<Rightarrow> JNull | Inr v \<Rightarrow> v))"

fun show_nat :: "nat \<Rightarrow> string" where
  "show_nat n = (if n < 10 then [char_of (48 + n)] else show_nat (n div 10) @ [char_of (48 + n mod 10)])"

declare show_nat.simps [simp del]

definition pick :: "string option \<Rightarrow> json \<Rightarrow> string \<Rightarrow> string" where
  "pick env_value cfg deflt =
     (case env_value of
        Some s \<Rightarrow> s
      | None \<Rightarrow>
          (case as_str cfg of
             Some s \<Rightarrow> s
           | None \<Rightarrow> (case as_u64 cfg of Some n \<Rightarrow> show_nat (unat n) | None \<Rightarrow> deflt)))"

definition manifest_dep :: "json \<Rightarrow> string option" where
  "manifest_dep art =
     Option.bind (as_str (json_at (json_at art ''dep'') ''txHash'')) (\<lambda>tx_hash.
       Some (tx_hash @ '':'' @
         (case as_str (json_at (json_at art ''dep'') ''index'') of None \<Rightarrow> ''0x0'' | Some i \<Rightarrow> i)))"

text \<open>What \<open>main\<close> reads before it serves: environment, parsed configuration, files, keys, the node.\<close>

record surroundings =
  env_var :: "string \<Rightarrow> string option"
  read_file :: "string \<Rightarrow> string option"
  key_valid :: "bytes \<Rightarrow> bool"
  node_at :: "string \<Rightarrow> http_crates"

datatype backend = BackendMock | BackendHttp string bytes

definition DEFAULT_AUTH_DEP :: string where
  "DEFAULT_AUTH_DEP = ''0x539e202c058680b1945352800ad8d6edaaf2ec2034d6b2d575aad423bf1a401c:0''"

definition DEFAULT_SECP_DEP :: string where
  "DEFAULT_SECP_DEP = ''0xf8de3bb47d055cdf460d93a2a6e1b05f7432f9777c8c474abf4eec1d4aee5d37:0''"

definition zero_game_id :: string where
  "zero_game_id = ''0x'' @ concat (replicate 32 ''00'')"

definition or_else :: "'a option \<Rightarrow> 'a option \<Rightarrow> 'a option" where
  "or_else a b = (case a of None \<Rightarrow> b | Some x \<Rightarrow> Some x)"

text \<open>\<open>str::trim\<close>, on ASCII text.\<close>

definition is_space :: "char \<Rightarrow> bool" where
  "is_space c = (let n = of_char c :: nat in n = 32 \<or> 9 \<le> n \<and> n \<le> 13)"

definition trim :: "string \<Rightarrow> string" where
  "trim s = rev (dropWhile is_space (rev (dropWhile is_space s)))"

fun text_result :: "('a \<Rightarrow> 'e) \<Rightarrow> 'a + 'b \<Rightarrow> ('e, 'b) result" where
  "text_result f (Inl e) = Err (f e)"
| "text_result f (Inr x) = Ok x"

text \<open>The match arm \<open>"mock"\<close>: an empty board in memory.\<close>

definition mock_operator :: "bytes \<Rightarrow> game_operator" where
  "mock_operator game_id =
     (let type_script = game_type_script (replicate 32 0) 4 game_id;
          default_script = \<lparr>s_code_hash = replicate 32 0, s_hash_type = 0, s_args = []\<rparr>;
          tip_output = \<lparr>co_capacity = 1000 * CKB, co_lock = default_script, co_type = Some type_script\<rparr>;
          tip = \<lparr>gt_out_point = \<lparr>op_tx_hash = replicate 32 0, op_index = 0\<rparr>, gt_output = tip_output, gt_state = empty_state\<rparr>
      in operator_new game_id [] tip)"

text \<open>The match arm \<open>"http"\<close>: the deployed code, the dependencies and the live game cell.\<close>

definition http_operator ::
  "server_crates \<Rightarrow> surroundings \<Rightarrow> json \<Rightarrow> json \<Rightarrow> json \<Rightarrow> bytes \<Rightarrow> (start_error, game_operator \<times> backend) result" where
  "http_operator C E cfg net net_cfg game_id =
     (let rpc_url = pick (env_var E ''RPC'') (json_at net_cfg ''rpc'') ''http://127.0.0.1:8114'';
          H = node_at E rpc_url;
          operator_cfg = json_at cfg ''operator'' in
      andThen (ok_or (or_else (env_var E ''KEYFILE'') (as_str (json_at cfg ''keyFile''))) NoKeyFile) (\<lambda>keyfile.
      let fee_text = pick (env_var E ''FEE'') (json_at operator_cfg ''feeShannons'') ''100000'' in
      andThen (ok_or (parse_unsigned dec_value 10 (2 ^ 64) fee_text) (BadFee fee_text)) (\<lambda>fee.
      andThen (ok_or (read_file E keyfile) (NoFile keyfile)) (\<lambda>sk_hex.
      andThen (text_result BadHexText (hex_bytes C (trim sk_hex))) (\<lambda>sk.
      if \<not> key_valid E sk then Err BadKey
      else
        andThen (case env_var E ''DEPLOY_FILE'' of
            Some f \<Rightarrow> andThen (ok_or (read_file E f) (NoFile f)) (\<lambda>s. text_result BadDeployFile (parse_json C s))
          | None \<Rightarrow> Ok (json_at net ''game'')) (\<lambda>deploy.
        andThen (ok_or (as_str (json_at deploy ''codeHash'')) NoCodeHash) (\<lambda>code_text.
        andThen (ok_or (h256_from_str H (trim_0x code_text)) (BadCodeHash code_text)) (\<lambda>code_hash.
        andThen (ok_or (manifest_dep deploy) NoGameDep) (\<lambda>dep_text.
        andThen (parse_outpoint H dep_text) (\<lambda>game_dep.
        andThen (parse_outpoint H (pick (env_var E ''AUTH_DEP'') (opt_json (manifest_dep (json_at net ''auth''))) DEFAULT_AUTH_DEP)) (\<lambda>auth_dep.
        andThen (parse_outpoint H (pick (env_var E ''SECP_DEP'') (opt_json (manifest_dep (json_at net ''secp256k1Sighash''))) DEFAULT_SECP_DEP)) (\<lambda>secp_dep.
        andThen (map_err TipUnreachable (find_cell_by_type H (game_type_script code_hash 4 game_id))) (\<lambda>found.
        andThen (ok_or found NoGameCell) (\<lambda>(out_point, output, data).
        andThen (map_err TipUndecodable (state_decode data)) (\<lambda>state.
        let tip = \<lparr>gt_out_point = out_point, gt_output = output, gt_state = state\<rparr>;
            cell_deps = [dep game_dep DepCode, dep auth_dep DepCode, dep secp_dep DepGroup]
        in Ok (with_fee (operator_new game_id cell_deps tip) (of_nat fee), BackendHttp rpc_url sk))))))))))))))))"

definition start_operator ::
  "server_crates \<Rightarrow> surroundings \<Rightarrow> json \<Rightarrow> json \<Rightarrow> (start_error, string \<times> game_operator \<times> backend) result" where
  "start_operator C E cfg manifest =
     (let network = (case or_else (env_var E ''NETWORK'') (as_str (json_at cfg ''network'')) of
                       None \<Rightarrow> ''testnet'' | Some s \<Rightarrow> s);
          net = json_at manifest network;
          operator_cfg = json_at cfg ''operator'';
          listen = pick (env_var E ''LISTEN'') (json_at operator_cfg ''listen'') ''127.0.0.1:9944'' in
      andThen (text_result BadHexText (hex_bytes C (pick (env_var E ''GAME_ID'') (json_at cfg ''gameId'') zero_game_id))) (\<lambda>game_id.
      if length game_id \<noteq> 32 then Err GameIdLength
      else
        let chain = pick (env_var E ''CHAIN'') (json_at operator_cfg ''chain'') ''mock'' in
        if chain = ''mock'' then Ok (listen, mock_operator game_id, BackendMock)
        else if chain = ''http'' then
          andThen (http_operator C E cfg net (json_at (json_at cfg ''networks'') network) game_id) (\<lambda>(op, back). Ok (listen, op, back))
        else Err (UnsupportedChain chain)))"

text \<open>The finalize step and the node of a backend.\<close>

definition backend_finalize :: "externals \<Rightarrow> sighash_crates \<Rightarrow> backend \<Rightarrow> finalize" where
  "backend_finalize X S b = (case b of BackendMock \<Rightarrow> Inr | BackendHttp url sk \<Rightarrow> sign_sighash_all X S sk)"

definition backend_send :: "externals \<Rightarrow> surroundings \<Rightarrow> backend \<Rightarrow> u32 send" where
  "backend_send X E b tx n =
     (case b of
        BackendMock \<Rightarrow> mock_send X tx n
      | BackendHttp url sk \<Rightarrow> (http_send_transaction (node_at E url) tx, n))"

definition start_server :: "game_operator \<Rightarrow> string list \<Rightarrow> u32 server" where
  "start_server op log = \<lparr>sv_operator = op, sv_node = 0, sv_relay = relay_new, sv_log = log\<rparr>"

end
