(* ===== verification/Biscuit_Gate.thy ===== *)
theory Biscuit_Gate
  imports Paymaster
begin

text \<open>
  The biscuit authority and gate, paymaster/src/biscuit\_gate.rs.  The crate biscuit-auth is a record
  of functions, one for each method the code calls; the datalog it evaluates is passed to it as
  text.  The properties say when a minted token is honoured and what revoking an identifier does.
\<close>

section \<open>The crate\<close>

text \<open>
  A \<open>SystemTime\<close> is the whole seconds since the epoch, at most \<open>i64::MAX\<close>: the addition of a longer
  duration panics.  The terms are the two that the code builds.
\<close>

type_synonym system_time = int

definition to_systemtime :: "u64 \<Rightarrow> ('e, system_time) result" where
  "to_systemtime unix_secs = (if unat unix_secs < 2 ^ 63 then Ok (uint unix_secs) else Panicked)"

datatype datalog_term = TermStr bytes | TermDate system_time

type_synonym fact = "string \<times> datalog_term list"

text \<open>
  Key pairs \<open>'k\<close>, public keys \<open>'p\<close>, token builders \<open>'b\<close>, tokens \<open>'t\<close>, authorizer builders \<open>'z\<close> and
  authorizers \<open>'a\<close>.  A method that returns a \<open>Result\<close> whose error the code drops returns an option.
  \<open>az_authorize\<close> yields the authorizer after the run; a query leaves its facts as they are.
\<close>

record ('k, 'p, 'b, 't, 'z, 'a) biscuit =
  bi_keypair :: "bytes \<Rightarrow> 'k option"
  bi_public :: "'k \<Rightarrow> 'p"
  bi_key_text :: "'p \<Rightarrow> bytes"
  bi_key_from_text :: "bytes \<Rightarrow> 'p option"
  bi_builder :: 'b
  bi_fact :: "'b \<Rightarrow> fact \<Rightarrow> 'b option"
  bi_check :: "'b \<Rightarrow> string \<Rightarrow> 'b option"
  bi_build :: "'b \<Rightarrow> 'k \<Rightarrow> 't option"
  bi_to_base64 :: "'t \<Rightarrow> bytes option"
  bi_from_base64 :: "bytes \<Rightarrow> 'p \<Rightarrow> 't option"
  bi_revocation_ids :: "'t \<Rightarrow> bytes list"
  az_builder :: 'z
  az_fact :: "'z \<Rightarrow> fact \<Rightarrow> 'z option"
  az_code :: "'z \<Rightarrow> string \<Rightarrow> (string \<times> datalog_term) list \<Rightarrow> 'z option"
  az_build :: "'z \<Rightarrow> 't \<Rightarrow> 'a option"
  az_authorize :: "'a \<Rightarrow> 'a option"
  az_query_string :: "'a \<Rightarrow> string \<Rightarrow> bytes option"
  az_query_time :: "'a \<Rightarrow> string \<Rightarrow> system_time option"

section \<open>Minting\<close>

definition SCOPE_FACT :: string where "SCOPE_FACT = ''sponsor''"
definition SUBJECT_FACT :: string where "SUBJECT_FACT = ''subject''"
definition EXPIRES_FACT :: string where "EXPIRES_FACT = ''expires''"

definition biscuit_authority :: "('k, 'p, 'b, 't, 'z, 'a) biscuit \<Rightarrow> bytes \<Rightarrow> (authz_error, 'k) result" where
  "biscuit_authority B seed = ok_or (bi_keypair B seed) Malformed"

definition biscuit_public_key :: "('k, 'p, 'b, 't, 'z, 'a) biscuit \<Rightarrow> 'k \<Rightarrow> bytes" where
  "biscuit_public_key B root = bi_key_text B (bi_public B root)"

definition biscuit_issue :: "('k, 'p, 'b, 't, 'z, 'a) biscuit \<Rightarrow> 'k \<Rightarrow> capability \<Rightarrow> (authz_error, bytes) result" where
  "biscuit_issue B root cap =
     andThen (ok_or (bi_fact B (bi_builder B) (SCOPE_FACT, [TermStr (cap_scope cap)])) Malformed) (\<lambda>b.
     andThen (ok_or (bi_fact B b (SUBJECT_FACT, [TermStr (cap_subject cap)])) Malformed) (\<lambda>b.
     andThen (to_systemtime (cap_not_after cap)) (\<lambda>not_after.
     andThen (ok_or (bi_fact B b (EXPIRES_FACT, [TermDate not_after])) Malformed) (\<lambda>b.
     andThen (ok_or (bi_check B b ''check if expires($e), time($t), $t <= $e'') Malformed) (\<lambda>b.
     andThen (ok_or (bi_build B b root) Malformed) (\<lambda>token.
       ok_or (bi_to_base64 B token) Malformed))))))"

section \<open>The gate\<close>

record 'p biscuit_gate =
  bg_root :: 'p
  bg_revoked :: "bytes set"

definition biscuit_gate_new ::
  "('k, 'p, 'b, 't, 'z, 'a) biscuit \<Rightarrow> bytes \<Rightarrow> (authz_error, 'p biscuit_gate) result" where
  "biscuit_gate_new B public_key =
     andThen (ok_or (bi_key_from_text B public_key) BadSignature) (\<lambda>k. Ok \<lparr>bg_root = k, bg_revoked = {}\<rparr>)"

definition as_unix_secs :: "system_time \<Rightarrow> (authz_error, u64) result" where
  "as_unix_secs t = (if t < 0 then Err Malformed else Ok (of_int t))"

definition biscuit_authorize ::
  "('k, 'p, 'b, 't, 'z, 'a) biscuit \<Rightarrow> 'p biscuit_gate \<Rightarrow> bytes \<Rightarrow> u64 \<Rightarrow> bytes \<Rightarrow> (authz_error, capability) result" where
  "biscuit_authorize B g token now required_scope =
     andThen (from_utf8 token) (\<lambda>token_str.
     andThen (ok_or (bi_from_base64 B token_str (bg_root g)) BadSignature) (\<lambda>t.
     if list_ex (\<lambda>i. i \<in> bg_revoked g) (bi_revocation_ids B t) then Err Denied
     else
       andThen (to_systemtime now) (\<lambda>time.
       andThen (ok_or (az_fact B (az_builder B) (''time'', [TermDate time])) Denied) (\<lambda>z.
       andThen (ok_or (az_code B z ''allow if sponsor({scope});'' [(''scope'', TermStr required_scope)]) Denied) (\<lambda>z.
       andThen (ok_or (az_build B z t) Denied) (\<lambda>a.
       andThen (ok_or (az_authorize B a) Denied) (\<lambda>a.
       andThen (ok_or (az_query_string B a (''data($s) <- '' @ SCOPE_FACT @ ''($s)'')) Malformed) (\<lambda>scope.
       andThen (ok_or (az_query_string B a (''data($s) <- '' @ SUBJECT_FACT @ ''($s)'')) Malformed) (\<lambda>subject.
       andThen (ok_or (az_query_time B a (''data($e) <- '' @ EXPIRES_FACT @ ''($e)'')) Malformed) (\<lambda>expires.
       andThen (as_unix_secs expires) (\<lambda>not_after.
         Ok \<lparr>cap_scope = scope, cap_subject = subject, cap_not_after = not_after\<rparr>)))))))))))"

section \<open>Revocation\<close>

text \<open>
  \<open>u8::from_str_radix(d, 16)\<close> on two bytes of text: two hex digits of either case, or a plus sign
  and one digit, as \<open>from_str_radix\<close> accepts a leading sign.
\<close>

definition u8_from_hex :: "char \<Rightarrow> char \<Rightarrow> byte option" where
  "u8_from_hex a b =
     (if a = CHR ''+'' then map_option of_nat (hex_value b)
      else case (hex_value a, hex_value b) of
        (Some x, Some y) \<Rightarrow> Some (of_nat (16 * x + y))
      | _ \<Rightarrow> None)"

text \<open>
  \<open>&s[i..i + 2]\<close> panics when one of its ends is inside a character of several bytes.  The iterator is
  lazy: a pair that is no number ends it before a later slice is taken.
\<close>

definition char_boundary :: "string \<Rightarrow> bool" where
  "char_boundary rest \<longleftrightarrow> (case rest of [] \<Rightarrow> True | c # _ \<Rightarrow> \<not> continuation (of_char c))"

fun decode_hex_pairs :: "string \<Rightarrow> (unit, bytes) result" where
  "decode_hex_pairs (a # b # r) =
     (if \<not> char_boundary (a # b # r) \<or> \<not> char_boundary r then Panicked
      else
        andThen (ok_or (u8_from_hex a b) ()) (\<lambda>x.
        andThen (decode_hex_pairs r) (\<lambda>xs. Ok (x # xs))))"
| "decode_hex_pairs _ = Ok []"

definition decode_hex :: "string \<Rightarrow> (unit, bytes) result" where
  "decode_hex s = (if length s mod 2 \<noteq> 0 then Err () else decode_hex_pairs s)"

definition revoke_hex :: "'p biscuit_gate \<Rightarrow> string \<Rightarrow> (authz_error, unit) result \<times> 'p biscuit_gate" where
  "revoke_hex g revocation_id =
     (case map_err (\<lambda>_. Malformed) (decode_hex (trim_0x revocation_id)) of
        Inl f \<Rightarrow> (Inl f, g)
      | Inr i \<Rightarrow> (Ok (), g\<lparr>bg_revoked := insert i (bg_revoked g)\<rparr>))"

section \<open>Properties\<close>

lemma to_systemtime_small: "unat s < 2 ^ 63 \<Longrightarrow> to_systemtime s = Ok (uint s)"
  by (simp add: to_systemtime_def)

lemma as_unix_secs_uint [simp]: "as_unix_secs (uint s) = Ok s"
  by (simp add: as_unix_secs_def)

subsection \<open>What is assumed of the crate\<close>

text \<open>
  The documented behaviour on a token \<open>t\<close> that carries the facts \<open>F\<close> and the expiry check.  Minting:
  the builder takes the facts and the check, the token is text that is read back under the public
  key.  Deciding: a run succeeds exactly when the token's check and the authorizer's policy hold of
  the facts of both, and a query then yields the only fact of its name.
\<close>

fun add_facts :: "('k, 'p, 'b, 't, 'z, 'a) biscuit \<Rightarrow> 'b \<Rightarrow> fact list \<Rightarrow> 'b option" where
  "add_facts B b [] = Some b"
| "add_facts B b (f # fs) = Option.bind (bi_fact B b f) (\<lambda>b. add_facts B b fs)"

definition mints :: "('k, 'p, 'b, 't, 'z, 'a) biscuit \<Rightarrow> 'k \<Rightarrow> fact list \<Rightarrow> string \<Rightarrow> 't \<Rightarrow> bytes \<Rightarrow> bool" where
  "mints B k F c t text \<longleftrightarrow>
     Option.bind (add_facts B (bi_builder B) F) (\<lambda>b. Option.bind (bi_check B b c) (\<lambda>b. bi_build B b k)) = Some t \<and>
     bi_to_base64 B t = Some text \<and> utf8_valid text \<and> bi_from_base64 B text (bi_public B k) = Some t"

fun not_later :: "datalog_term list \<Rightarrow> datalog_term list \<Rightarrow> bool" where
  "not_later [TermDate t] [TermDate e] \<longleftrightarrow> t \<le> e"
| "not_later _ _ \<longleftrightarrow> False"

definition expiry_holds :: "fact list \<Rightarrow> bool" where
  "expiry_holds W \<longleftrightarrow>
     list_ex (\<lambda>(p, e). p = ''expires'' \<and> list_ex (\<lambda>(q, t). q = ''time'' \<and> not_later t e) W) W"

definition scope_holds :: "bytes \<Rightarrow> fact list \<Rightarrow> bool" where
  "scope_holds scope W \<longleftrightarrow> (''sponsor'', [TermStr scope]) \<in> set W"

definition only_fact :: "fact list \<Rightarrow> string \<Rightarrow> datalog_term \<Rightarrow> bool" where
  "only_fact W p v \<longleftrightarrow> {ts. (p, ts) \<in> set W} = {[v]}"

definition answers :: "('k, 'p, 'b, 't, 'z, 'a) biscuit \<Rightarrow> 'a \<Rightarrow> fact list \<Rightarrow> bool" where
  "answers B a W \<longleftrightarrow>
     (\<forall>p s. only_fact W p (TermStr s) \<longrightarrow> az_query_string B a (''data($s) <- '' @ p @ ''($s)'') = Some s) \<and>
     (\<forall>p d. only_fact W p (TermDate d) \<longrightarrow> az_query_time B a (''data($e) <- '' @ p @ ''($e)'') = Some d)"

text \<open>A token with further checks on the time: they must hold as well.\<close>

definition decides_with ::
  "('k, 'p, 'b, 't, 'z, 'a) biscuit \<Rightarrow> 't \<Rightarrow> fact list \<Rightarrow> (system_time \<Rightarrow> bool) \<Rightarrow> bool" where
  "decides_with B t F caveat \<longleftrightarrow> (\<forall>time scope. \<exists>z z' a.
     az_fact B (az_builder B) (''time'', [TermDate time]) = Some z \<and>
     az_code B z ''allow if sponsor({scope});'' [(''scope'', TermStr scope)] = Some z' \<and> az_build B z' t = Some a \<and>
     (let W = (''time'', [TermDate time]) # F in
        case az_authorize B a of
          None \<Rightarrow> \<not> (expiry_holds W \<and> scope_holds scope W \<and> caveat time)
        | Some a' \<Rightarrow> expiry_holds W \<and> scope_holds scope W \<and> caveat time \<and> answers B a' W))"

definition decides :: "('k, 'p, 'b, 't, 'z, 'a) biscuit \<Rightarrow> 't \<Rightarrow> fact list \<Rightarrow> bool" where
  "decides B t F \<longleftrightarrow> decides_with B t F (\<lambda>_. True)"

definition capability_facts :: "capability \<Rightarrow> fact list" where
  "capability_facts cap =
     [(SCOPE_FACT, [TermStr (cap_scope cap)]), (SUBJECT_FACT, [TermStr (cap_subject cap)]),
      (EXPIRES_FACT, [TermDate (uint (cap_not_after cap))])]"

lemmas biscuit_facts = capability_facts_def SCOPE_FACT_def SUBJECT_FACT_def EXPIRES_FACT_def

lemma issue_eq:
  assumes "mints B k (capability_facts cap) ''check if expires($e), time($t), $t <= $e'' t text"
    and "unat (cap_not_after cap) < 2 ^ 63"
  shows "biscuit_issue B k cap = Ok text"
  using assms
  by (auto simp: mints_def biscuit_issue_def capability_facts_def to_systemtime_small bind_eq_Some_conv)

lemma time_facts:
  "expiry_holds ((''time'', [TermDate (uint now)]) # capability_facts cap) \<longleftrightarrow> now \<le> cap_not_after cap"
  "scope_holds scope ((''time'', [TermDate d]) # capability_facts cap) \<longleftrightarrow> scope = cap_scope cap"
  by (auto simp: expiry_holds_def scope_holds_def biscuit_facts word_le_def)

lemma only_facts:
  "only_fact ((''time'', [TermDate d]) # capability_facts cap) SCOPE_FACT (TermStr (cap_scope cap))"
  "only_fact ((''time'', [TermDate d]) # capability_facts cap) SUBJECT_FACT (TermStr (cap_subject cap))"
  "only_fact ((''time'', [TermDate d]) # capability_facts cap) EXPIRES_FACT (TermDate (uint (cap_not_after cap)))"
  by (auto simp: only_fact_def biscuit_facts)

lemma authorize_with_caveat:
  assumes readable: "utf8_valid text" "bi_from_base64 B text (bg_root g) = Some t"
    and d: "decides_with B t (capability_facts cap) caveat" and now: "unat now < 2 ^ 63"
  shows "biscuit_authorize B g text now scope =
     (if bg_revoked g \<inter> set (bi_revocation_ids B t) = {} \<and> scope = cap_scope cap \<and> now \<le> cap_not_after cap \<and>
         caveat (uint now)
      then Ok cap else Err Denied)"
proof -
  define W where "W = (''time'', [TermDate (uint now)]) # capability_facts cap"
  from d obtain z z' a where run:
    "az_fact B (az_builder B) (''time'', [TermDate (uint now)]) = Some z"
    "az_code B z ''allow if sponsor({scope});'' [(''scope'', TermStr scope)] = Some z'" "az_build B z' t = Some a"
    "case az_authorize B a of None \<Rightarrow> \<not> (expiry_holds W \<and> scope_holds scope W \<and> caveat (uint now))
     | Some a' \<Rightarrow> expiry_holds W \<and> scope_holds scope W \<and> caveat (uint now) \<and> answers B a' W"
    unfolding decides_with_def Let_def W_def by blast
  have v: "expiry_holds W \<longleftrightarrow> now \<le> cap_not_after cap" "scope_holds scope W \<longleftrightarrow> scope = cap_scope cap"
    by (simp_all add: W_def time_facts)
  have revoked: "list_ex (\<lambda>i. i \<in> bg_revoked g) (bi_revocation_ids B t) \<longleftrightarrow> bg_revoked g \<inter> set (bi_revocation_ids B t) \<noteq> {}"
    by (auto simp: list_ex_iff)
  show ?thesis
  proof (cases "az_authorize B a")
    case None
    then show ?thesis
      using run v readable now revoked by (auto simp: biscuit_authorize_def from_utf8_def to_systemtime_small)
  next
    case (Some a')
    then have "az_query_string B a' (''data($s) <- '' @ SCOPE_FACT @ ''($s)'') = Some (cap_scope cap)"
      "az_query_string B a' (''data($s) <- '' @ SUBJECT_FACT @ ''($s)'') = Some (cap_subject cap)"
      "az_query_time B a' (''data($e) <- '' @ EXPIRES_FACT @ ''($e)'') = Some (uint (cap_not_after cap))"
      using run(4) only_facts unfolding W_def answers_def by auto
    then show ?thesis
      using Some run v readable now revoked by (auto simp: biscuit_authorize_def from_utf8_def to_systemtime_small)
  qed
qed

lemma authorize_eq:
  assumes "utf8_valid text" "bi_from_base64 B text (bg_root g) = Some t"
    and "decides B t (capability_facts cap)" and "unat now < 2 ^ 63"
  shows "biscuit_authorize B g text now scope =
     (if bg_revoked g \<inter> set (bi_revocation_ids B t) = {} \<and> scope = cap_scope cap \<and> now \<le> cap_not_after cap
      then Ok cap else Err Denied)"
  using authorize_with_caveat[OF assms(1,2) assms(3)[unfolded decides_def] assms(4), of scope] by simp

text \<open>
  C35: a token the authority mints for a capability is honoured by a gate holding the authority's
  public key exactly for the capability's scope, until its expiry and while none of its identifiers
  is revoked, and then yields the capability it was minted for; in every other case it is denied.
\<close>

theorem minted_biscuit_decision:
  assumes "bi_key_from_text B (biscuit_public_key B k) = Some (bi_public B k)"
    and "mints B k (capability_facts cap) ''check if expires($e), time($t), $t <= $e'' t text"
    and "decides B t (capability_facts cap)" and "unat (cap_not_after cap) < 2 ^ 63" and "unat now < 2 ^ 63"
  shows "biscuit_issue B k cap = Ok text \<and>
     (\<exists>g. biscuit_gate_new B (biscuit_public_key B k) = Ok g \<and>
       biscuit_authorize B (g\<lparr>bg_revoked := R\<rparr>) text now scope =
         (if R \<inter> set (bi_revocation_ids B t) = {} \<and> scope = cap_scope cap \<and> now \<le> cap_not_after cap
          then Ok cap else Err Denied))"
proof -
  have "utf8_valid text" "bi_from_base64 B text (bi_public B k) = Some t" using assms(2) by (simp_all add: mints_def)
  then show ?thesis
    using issue_eq[OF assms(2,4)] authorize_eq[of "text" B "\<lparr>bg_root = bi_public B k, bg_revoked = R\<rparr>" t cap now scope] assms(1,3,5)
    by (simp add: biscuit_gate_new_def)
qed

text \<open>
  An expiry beyond the range of the platform's clock is not an error of the authority but a panic.
\<close>

lemma far_expiry_panics:
  assumes "bi_fact B (bi_builder B) (SCOPE_FACT, [TermStr (cap_scope cap)]) = Some b"
    and "bi_fact B b (SUBJECT_FACT, [TermStr (cap_subject cap)]) = Some b'"
    and "2 ^ 63 \<le> unat (cap_not_after cap)"
  shows "biscuit_issue B k cap = Panicked"
  using assms by (simp add: biscuit_issue_def to_systemtime_def)

text \<open>An evaluator for tokens of this shape, and an authority that mints one capability.\<close>

definition sample_capability :: capability where
  "sample_capability = \<lparr>cap_scope = [115], cap_subject = [112], cap_not_after = 100\<rparr>"

definition only_answer :: "fact list \<Rightarrow> string \<Rightarrow> string \<Rightarrow> string \<Rightarrow> datalog_term option" where
  "only_answer W pre post q =
     (case remdups (map snd (filter (\<lambda>f. q = pre @ fst f @ post) W)) of [[v]] \<Rightarrow> Some v | _ \<Rightarrow> None)"

definition sample_biscuit :: "(bytes, bytes, fact list, fact list, fact list \<times> bytes, fact list \<times> bytes) biscuit" where
  "sample_biscuit =
     \<lparr>bi_keypair = Some, bi_public = (\<lambda>k. k), bi_key_text = (\<lambda>p. p), bi_key_from_text = Some,
      bi_builder = [], bi_fact = (\<lambda>b f. Some (b @ [f])), bi_check = (\<lambda>b c. Some b), bi_build = (\<lambda>b k. Some b),
      bi_to_base64 = (\<lambda>t. Some (ascii ''token'')),
      bi_from_base64 = (\<lambda>s p. if s = ascii ''token'' \<and> p = [7] then Some (capability_facts sample_capability) else None),
      bi_revocation_ids = (\<lambda>t. [[1]]),
      az_builder = ([], []), az_fact = (\<lambda>(W, s) f. Some (W @ [f], s)),
      az_code = (\<lambda>(W, s) c ps. case ps of [(_, TermStr s)] \<Rightarrow> Some (W, s) | _ \<Rightarrow> None),
      az_build = (\<lambda>(W, s) t. Some (W @ t, s)),
      az_authorize = (\<lambda>(W, s). if expiry_holds W \<and> scope_holds s W then Some (W, s) else None),
      az_query_string = (\<lambda>(W, s) q. case only_answer W ''data($s) <- '' ''($s)'' q of Some (TermStr v) \<Rightarrow> Some v | _ \<Rightarrow> None),
      az_query_time = (\<lambda>(W, s) q. case only_answer W ''data($e) <- '' ''($e)'' q of Some (TermDate d) \<Rightarrow> Some d | _ \<Rightarrow> None)\<rparr>"

lemma only_answer_fact:
  assumes "only_fact W p v"
  shows "only_answer W pre post (pre @ p @ post) = Some v"
proof -
  define xs where "xs = remdups (map snd (filter (\<lambda>f. pre @ p @ post = pre @ fst f @ post) W))"
  have "set xs = {ts. (p, ts) \<in> set W}" by (force simp: xs_def)
  then have "set xs = {[v]}" "distinct xs" using assms by (simp_all add: only_fact_def xs_def)
  then have "xs = [[v]]" by (cases xs; cases "tl xs") auto
  then show ?thesis by (simp only: only_answer_def flip: xs_def) simp
qed

lemma sample_decides: "decides sample_biscuit t t"
  by (auto simp: decides_def decides_with_def sample_biscuit_def answers_def Let_def
      only_answer_fact[where pre = "''data($s) <- ''" and post = "''($s)''", simplified]
      only_answer_fact[where pre = "''data($e) <- ''" and post = "''($e)''", simplified])

lemma sample_mints: "mints sample_biscuit [7] (capability_facts sample_capability) c (capability_facts sample_capability) (ascii ''token'')"
  by (simp add: mints_def sample_biscuit_def capability_facts_def ascii_def)

lemma sample_key: "bi_key_from_text sample_biscuit (biscuit_public_key sample_biscuit k) = Some (bi_public sample_biscuit k)"
  and sample_ids: "bi_revocation_ids sample_biscuit t = [[1]]"
  by (simp_all add: sample_biscuit_def biscuit_public_key_def)

lemma minted_biscuit_decision_witness:
  "biscuit_issue sample_biscuit [7] sample_capability = Ok (ascii ''token'') \<and>
   (\<exists>g. biscuit_gate_new sample_biscuit (biscuit_public_key sample_biscuit [7]) = Ok g \<and>
      biscuit_authorize sample_biscuit (g\<lparr>bg_revoked := {[2]}\<rparr>) (ascii ''token'') 99 [115] = Ok sample_capability)"
  using minted_biscuit_decision[OF sample_key sample_mints sample_decides, of 99 "{[2]}" "[115]"]
  by (simp add: sample_ids sample_capability_def)

text \<open>
  Revoking an identifier denies exactly the tokens that carry it, whatever the time, the scope
  and the earlier revocations; every other token is decided as before, and text that is no hex
  string revokes nothing.
\<close>

theorem revocation_exact:
  "biscuit_authorize B (snd (revoke_hex g revocation_id)) token now scope =
     (case (decode_hex (trim_0x revocation_id), from_utf8 token) of
        (Inr i, Inr readable) \<Rightarrow>
          (case bi_from_base64 B readable (bg_root g) of
             Some t \<Rightarrow> if i \<in> set (bi_revocation_ids B t) then Err Denied else biscuit_authorize B g token now scope
           | None \<Rightarrow> biscuit_authorize B g token now scope)
      | _ \<Rightarrow> biscuit_authorize B g token now scope)"
proof (cases "decode_hex (trim_0x revocation_id)")
  case (Inl f)
  then show ?thesis by (cases f) (simp_all add: revoke_hex_def)
next
  case (Inr i)
  then show ?thesis
    by (cases "from_utf8 token :: (authz_error, bytes) result")
      (auto simp: revoke_hex_def biscuit_authorize_def list_ex_iff split: option.splits)
qed

end
