(* ===== verification/Sponsor_Server.thy ===== *)
theory Sponsor_Server
  imports Operator_Server Relay_Properties Biscuit_Gate
begin

text \<open>
  The sponsored relay's HTTP server, paymaster-service/src/main.rs: its endpoints over the service
  of the theory Service with the biscuit gate, and the configuration it starts from.
\<close>

section \<open>Requests and responses\<close>

text \<open>
  The crates: serde's reading of the two request bodies, the JSON of a transaction and of a 64-bit
  integer as ckb-jsonrpc-types writes them, the text of a UTF-8 string, and the \<open>Debug\<close> text of
  a service error.
\<close>

record sponsor_request =
  sr_token :: bytes
  sr_partial_tx :: transaction

record relay_crates =
  parse_sponsor_request :: "string \<Rightarrow> string + sponsor_request"
  parse_broadcast_request :: "string \<Rightarrow> string + transaction"
  transaction_json :: "transaction \<Rightarrow> json"
  uint64_json :: "u64 \<Rightarrow> json"
  utf8_text :: "bytes \<Rightarrow> string"
  debug_service_error :: "service_error \<Rightarrow> string"

definition outpoint_str :: "externals \<Rightarrow> out_point \<Rightarrow> string" where
  "outpoint_str X p = ''0x'' @ hex_encode X (op_tx_hash p) @ '':'' @ show_nat (unat (op_index p))"

fun service_error_response :: "relay_crates \<Rightarrow> service_error fault \<Rightarrow> response" where
  "service_error_response R (Fail e) = Ok (status_for e, err_json (debug_service_error R e))"
| "service_error_response R Panic = Panicked"

definition handle_sponsor ::
  "externals \<Rightarrow> relay_crates \<Rightarrow> (cell_output \<Rightarrow> u64 option) \<Rightarrow> sponsor_service \<Rightarrow> u64 \<Rightarrow> string \<Rightarrow> response" where
  "handle_sponsor X R occupied s now body =
     (case parse_sponsor_request R body of
        Inl e \<Rightarrow> Ok (400, err_json (''bad request: '' @ e))
      | Inr req \<Rightarrow>
          (case service_sponsor X occupied s (sr_token req) (sr_partial_tx req) now of
             Inr out \<Rightarrow>
               Ok (200, JObj [(''balanced_tx'', transaction_json R (sp_tx out)), (''fee'', uint64_json R (sp_fee out)),
                 (''fee_input'', JStr (outpoint_str X (sp_fee_input out))), (''subject'', JStr (utf8_text R (sp_subject out)))])
           | Inl f \<Rightarrow> service_error_response R f))"

definition handle_broadcast :: "externals \<Rightarrow> relay_crates \<Rightarrow> sponsor_service \<Rightarrow> string \<Rightarrow> response" where
  "handle_broadcast X R s body =
     (case parse_broadcast_request R body of
        Inl e \<Rightarrow> Ok (400, err_json (''bad request: '' @ e))
      | Inr signed_tx \<Rightarrow>
          (case service_broadcast s signed_tx of
             Inr hash \<Rightarrow> Ok (200, JObj [(''tx_hash'', JStr (''0x'' @ hex_encode X hash))])
           | Inl f \<Rightarrow> service_error_response R f))"

definition serve_relay ::
  "externals \<Rightarrow> relay_crates \<Rightarrow> (cell_output \<Rightarrow> u64 option) \<Rightarrow> sponsor_service \<Rightarrow> u64 \<Rightarrow> http_method \<Rightarrow> string \<Rightarrow> string option \<Rightarrow>
   response" where
  "serve_relay X R occupied s now mthd url body_read =
     (case body_read of
        None \<Rightarrow> Ok (400, err_json ''unreadable body'')
      | Some body \<Rightarrow>
          if mthd = MGet \<and> url = ''/health'' then
            Ok (200, JObj [(''status'', JStr ''ok''), (''scope'', JStr (utf8_text R (ss_scope s))),
              (''fee_lock'', JStr (''0x'' @ hex_encode X (calc_script_hash X (ss_fee_lock s))))])
          else if mthd = MPost \<and> url = ''/sponsor'' then handle_sponsor X R occupied s now body
          else if mthd = MPost \<and> url = ''/broadcast'' then handle_broadcast X R s body
          else Ok (404, err_json ''not found''))"

section \<open>Configuration\<close>

definition SIGHASH_CODE_HASH :: string where
  "SIGHASH_CODE_HASH = ''9bd7e06f3ecf4be0f2fcd2188b23f1b9fcc88e5d4b65a8637b17723bbda3cce8''"

datatype relay_start_error =
    MissingEnv string | BadFeeRate string | BadGateKey authz_error | BadRelayHex string | BadRelayOutpoint string
  | BadRelayHash string | BadRelayIndex string

definition require :: "(string \<Rightarrow> string option) \<Rightarrow> string \<Rightarrow> (relay_start_error, string) result" where
  "require env name = ok_or (env name) (MissingEnv name)"

definition env_or :: "(string \<Rightarrow> string option) \<Rightarrow> string \<Rightarrow> string \<Rightarrow> string" where
  "env_or env name deflt = (case env name of None \<Rightarrow> deflt | Some v \<Rightarrow> v)"

definition outpoint_from_str :: "http_crates \<Rightarrow> string \<Rightarrow> (relay_start_error, out_point) result" where
  "outpoint_from_str H s =
     andThen (ok_or (split_once CHR '':'' s) (BadRelayOutpoint s)) (\<lambda>(tx, idx).
     andThen (ok_or (h256_from_str H (trim_0x tx)) (BadRelayHash tx)) (\<lambda>h.
     andThen (ok_or (parse_unsigned dec_value 10 (2 ^ 32) idx) (BadRelayIndex idx)) (\<lambda>n.
       Ok \<lparr>op_tx_hash = h, op_index = of_nat n\<rparr>)))"

definition fee_lock :: "http_crates \<Rightarrow> bytes \<Rightarrow> (relay_start_error, script) result" where
  "fee_lock H pubkey_hash =
     andThen (ok_or (h256_from_str H SIGHASH_CODE_HASH) (BadRelayHash SIGHASH_CODE_HASH)) (\<lambda>code_hash.
       Ok \<lparr>s_code_hash = code_hash, s_hash_type = 1, s_args = pubkey_hash\<rparr>)"

text \<open>
  The start of \<open>main\<close>: the listening address and the service over the biscuit gate and the node.
  A command line's text is passed to the gate as its bytes, \<open>utf8_bytes\<close>.
\<close>

definition start_relay ::
  "('k, 'p, 'b, 't, 'z, 'a) biscuit \<Rightarrow> server_crates \<Rightarrow> (string \<Rightarrow> http_crates) \<Rightarrow> (string \<Rightarrow> bytes) \<Rightarrow> (string \<Rightarrow> string option) \<Rightarrow>
   (relay_start_error, string \<times> sponsor_service) result" where
  "start_relay B C node_of utf8_bytes env =
     (let listen = env_or env ''LISTEN'' ''127.0.0.1:9933'';
          H = node_of (env_or env ''RPC'' ''http://127.0.0.1:8114'');
          scope = env_or env ''SCOPE'' ''ckb-controller-sponsor'';
          rate = env_or env ''FEE_RATE'' ''1000'' in
      andThen (ok_or (parse_unsigned dec_value 10 (2 ^ 64) rate) (BadFeeRate rate)) (\<lambda>fee_rate.
      andThen (require env ''BISCUIT_PUBKEY'') (\<lambda>key.
      andThen (map_err BadGateKey (biscuit_gate_new B (utf8_bytes key))) (\<lambda>gate.
      andThen (require env ''FEE_PUBKEY_HASH'') (\<lambda>pk_text.
      andThen (text_result BadRelayHex (hex_bytes C pk_text)) (\<lambda>pk.
      andThen (fee_lock H pk) (\<lambda>lock.
      andThen (require env ''FEE_CELL_DEP'') (\<lambda>dep_text.
      andThen (outpoint_from_str H dep_text) (\<lambda>out_point.
        Ok (listen, service_new (biscuit_authorize B gate) (http_rpc H) lock [dep out_point DepGroup] (of_nat fee_rate)
          (utf8_bytes scope)))))))))))"

section \<open>Properties\<close>

lemma unauthorized_iff:
  "service_sponsor X occupied s token partial now = Err (ServiceUnauthorized e) \<longleftrightarrow> ss_gate s token now (ss_scope s) = Err e"
  by (auto simp: service_sponsor_def Let_def andThen_fault_iff map_err_Err_iff ok_or_Err_iff min_change_def split: option.splits)

lemma unauthorized_ignores_node:
  assumes "ss_gate s token now (ss_scope s) = Err e"
  shows "service_sponsor X occupied (s\<lparr>ss_rpc := rpc\<rparr>) token partial now = service_sponsor X occupied s token partial now"
  using assms by (simp add: service_sponsor_def)

lemma sponsor_answer:
  assumes "parse_sponsor_request R body = Inr req"
  shows "serve_relay X R occupied s now MPost ''/sponsor'' (Some body) =
     (case service_sponsor X occupied s (sr_token req) (sr_partial_tx req) now of
        Inr out \<Rightarrow> Ok (200, JObj [(''balanced_tx'', transaction_json R (sp_tx out)), (''fee'', uint64_json R (sp_fee out)),
          (''fee_input'', JStr (outpoint_str X (sp_fee_input out))), (''subject'', JStr (utf8_text R (sp_subject out)))])
      | Inl f \<Rightarrow> service_error_response R f)"
  using assms by (simp add: serve_relay_def handle_sponsor_def)

lemma service_error_status:
  "service_error_response R f = Ok (c, payload) \<Longrightarrow> \<exists>e. f = Fail e \<and> c = status_for e \<and> c \<noteq> 200 \<and>
     (c = 401 \<longleftrightarrow> (\<exists>a. e = ServiceUnauthorized a))"
  by (cases "(R, f)" rule: service_error_response.cases; cases "case f of Fail e \<Rightarrow> e | Panic \<Rightarrow> NoFeeCell") auto

text \<open>
  The relay's server answers a sponsor request with 200 exactly when the service sponsored it
  and with 401 exactly when the gate refused its token; a refused request is answered without
  looking at the node.
\<close>

theorem sponsor_status:
  assumes "parse_sponsor_request R body = Inr req"
    and "serve_relay X R occupied s now MPost ''/sponsor'' (Some body) = Ok (status, payload)"
  shows "(status = 200 \<longleftrightarrow> is_ok (service_sponsor X occupied s (sr_token req) (sr_partial_tx req) now)) \<and>
     (status = 401 \<longleftrightarrow> (\<exists>e. ss_gate s (sr_token req) now (ss_scope s) = Err e)) \<and>
     (status = 401 \<longrightarrow>
        serve_relay X R occupied (s\<lparr>ss_rpc := rpc\<rparr>) now MPost ''/sponsor'' (Some body) = Ok (status, payload))"
proof (cases "service_sponsor X occupied s (sr_token req) (sr_partial_tx req) now")
  case (Inr out)
  then have "\<not> (\<exists>e. ss_gate s (sr_token req) now (ss_scope s) = Err e)" using unauthorized_iff[of X occupied s "sr_token req" "sr_partial_tx req" now] by auto
  with Inr assms(2) show ?thesis by (auto simp: sponsor_answer[OF assms(1)])
next
  case (Inl f)
  then have "service_error_response R f = Ok (status, payload)" using assms(2) by (simp add: sponsor_answer[OF assms(1)])
  from service_error_status[OF this] obtain e where e: "f = Fail e" "status \<noteq> 200" "status = 401 \<longleftrightarrow> (\<exists>a. e = ServiceUnauthorized a)"
    by blast
  have gate: "(\<exists>a. ss_gate s (sr_token req) now (ss_scope s) = Err a) \<longleftrightarrow> (\<exists>a. e = ServiceUnauthorized a)"
    using Inl e(1) unauthorized_iff[of X occupied s "sr_token req" "sr_partial_tx req" now] by auto
  show ?thesis
    using e gate Inl assms(2) unauthorized_ignores_node[of s "sr_token req" now]
    by (auto simp: sponsor_answer[OF assms(1)])
qed

definition sample_relay_crates :: relay_crates where
  "sample_relay_crates =
     \<lparr>parse_sponsor_request = (\<lambda>b. Inr \<lparr>sr_token = [], sr_partial_tx = sample_partial\<rparr>), parse_broadcast_request = Inl,
      transaction_json = (\<lambda>t. JNull), uint64_json = (\<lambda>n. JNull), utf8_text = (\<lambda>b. []), debug_service_error = (\<lambda>e. [])\<rparr>"

lemma empty_token_malformed: "ed25519_authorize E pk [] now scope = Err Malformed"
  by (simp add: ed25519_authorize_def capability_parse_def parse_string_def read_u16_def)

lemma sponsor_status_witness:
  "serve_relay sample_externals sample_relay_crates (\<lambda>_. None) (sample_service\<lparr>ss_rpc := http_rpc (sample_http\<lparr>http_post := (\<lambda>m p. Err (BadHash m))\<rparr>)\<rparr>)
     99 MPost ''/sponsor'' (Some ''x'') = Ok (401, err_json [])"
proof -
  have run: "serve_relay sample_externals sample_relay_crates (\<lambda>_. None) sample_service 99 MPost ''/sponsor'' (Some ''x'') = Ok (401, err_json [])"
    by (simp add: serve_relay_def handle_sponsor_def sample_relay_crates_def service_sponsor_def sample_service_def empty_token_malformed)
  show ?thesis
    using sponsor_status[OF _ run, of "\<lparr>sr_token = [], sr_partial_tx = sample_partial\<rparr>"] by (simp add: sample_relay_crates_def)
qed

end
