(* ===== verification/Operator_Properties.thy ===== *)
theory Operator_Properties
  imports Operator Game_History
begin

text \<open>
  What the sequencer promises: its queue always applies, so it never jams; the transition it builds
  is judged by the game cell's type script on the players' signatures alone; a flush advances the
  tip or leaves everything as it was; the operator's signature is over the message a verifier
  recomputes from the signed transaction.
\<close>

section \<open>The queue\<close>

lemma apply_intents_snoc:
  "apply_intents s xs = (Ok (), t) \<Longrightarrow> apply_intents s (xs @ [i]) = apply_intent t i"
  by (simp add: apply_intents_append split: prod.splits sum.splits)

text \<open>The rule does not read the sequence number, so the projected state may carry another one.\<close>

lemma apply_intent_ignores_seq:
  "apply_intent (s\<lparr>gs_seq := q\<rparr>) i = (fst (apply_intent s i), (snd (apply_intent s i))\<lparr>gs_seq := q\<rparr>)"
  by (auto simp: apply_intent_def Let_def split: option.splits)

definition queue_applies :: "game_operator \<Rightarrow> bool" where
  "queue_applies op \<longleftrightarrow> (\<exists>t. apply_intents (gt_state (go_tip op)) (go_mempool op) = (Ok (), t))"

lemma submit_queue:
  assumes "queue_applies op" and "submit op i = (r, op')"
  shows "queue_applies op'" "go_tip op' = go_tip op"
proof -
  have "queue_applies op' \<and> go_tip op' = go_tip op"
  proof (cases "r = Ok ()")
    case True
    then obtain p q where p: "apply_batch (gt_state (go_tip op)) (go_mempool op) = (Ok (), p)"
      and i: "apply_intent p i = (Ok (), q)" and op': "op' = op\<lparr>go_mempool := go_mempool op @ [i]\<rparr>"
      using assms(2) by (auto simp: submit_def map_err_Ok_iff split: prod.splits sum.splits)
    from p obtain t z where t: "apply_intents (gt_state (go_tip op)) (go_mempool op) = (Ok (), t)" "p = t\<lparr>gs_seq := z\<rparr>"
      by (rule apply_batch_okE)
    have "fst (apply_intent t i) = Ok ()" using i unfolding t(2) apply_intent_ignores_seq by simp
    then have "\<exists>u. apply_intent t i = (Ok (), u)" by (cases "apply_intent t i") auto
    then show ?thesis using apply_intents_snoc[OF t(1)] by (simp add: queue_applies_def op')
  next
    case False
    then have "op' = op" using assms(2) by (auto simp: submit_def split: prod.splits sum.splits)
    then show ?thesis using assms(1) by simp
  qed
  then show "queue_applies op'" "go_tip op' = go_tip op" by simp_all
qed

lemma submit_failure_keeps: "submit op i = (Inl f, op') \<Longrightarrow> op' = op"
  by (auto simp: submit_def split: prod.splits sum.splits)

lemma flush_cases:
  assumes "flush X send fin op n = (r, op', n')"
  obtains f where "r = Inl f" "op' = op"
  | t s h where "build_transition X op = Ok t" "fin (tr_tx t) = Inr s" "send s n = (Ok h, n')" "r = Ok h"
      "op' = op\<lparr>go_tip := \<lparr>gt_out_point = \<lparr>op_tx_hash = h, op_index = 0\<rparr>, gt_output = tr_next_output t,
               gt_state = tr_next_state t\<rparr>, go_mempool := []\<rparr>"
proof (cases r)
  case (Inl f)
  then show ?thesis using assms that(1)
    by (auto simp: flush_def split: sum.splits prod.splits)
next
  case (Inr h)
  then show ?thesis using assms that(2)
    by (auto simp: flush_def split: sum.splits prod.splits elim!: map_err.elims)
qed

lemma build_transition_okD:
  assumes "build_transition X op = Ok t"
  shows "apply_batch (gt_state (go_tip op)) (go_mempool op) = (Ok (), tr_next_state t)"
    "go_fee op \<le> co_capacity (gt_output (go_tip op))"
    "tr_next_output t = (gt_output (go_tip op))\<lparr>co_capacity := co_capacity (gt_output (go_tip op)) - go_fee op\<rparr>"
    "tr_applied t = length (go_mempool op)" "go_mempool op \<noteq> []"
    "tx_raw (tr_tx t) = \<lparr>rt_version = 0, rt_cell_deps = go_cell_deps op, rt_header_deps = [],
       rt_inputs = [\<lparr>ci_previous_output = gt_out_point (go_tip op), ci_since = 0\<rparr>],
       rt_outputs = [tr_next_output t], rt_outputs_data = [state_encode (tr_next_state t)]\<rparr>"
    "tx_witnesses (tr_tx t) = [molecule_witness_args X (batch_witness (go_mempool op))]"
  using assms by (auto simp: build_transition_def Let_def result_simps checked_sub_Some split: if_splits prod.splits)

text \<open>
  The operator's life: any intents submitted, flushed or dropped, with any finalize step.  The
  batches are those the node accepted, in order.
\<close>

inductive operator_run :: "externals \<Rightarrow> 'n send \<Rightarrow> game_operator \<Rightarrow> game_operator \<Rightarrow> intent list list \<Rightarrow> bool"
  for X send op0 where
  started: "operator_run X send op0 op0 []"
| submitted: "operator_run X send op0 op bs \<Longrightarrow> submit op i = (r, op') \<Longrightarrow> operator_run X send op0 op' bs"
| flushed: "operator_run X send op0 op bs \<Longrightarrow> flush X send fin op n = (r, op', n') \<Longrightarrow>
    operator_run X send op0 op' (if is_ok r then bs @ [go_mempool op] else bs)"
| dropped: "operator_run X send op0 op bs \<Longrightarrow> operator_run X send op0 (drop_pending op) bs"

definition operator_inv :: "game_operator \<Rightarrow> game_operator \<Rightarrow> intent list list \<Rightarrow> bool" where
  "operator_inv op0 op bs \<longleftrightarrow>
     queue_applies op \<and> go_fee op = go_fee op0 \<and> go_game_id op = go_game_id op0 \<and>
     spec_run (board_of (gt_state (go_tip op0))) (concat bs) = Some (board_of (gt_state (go_tip op))) \<and>
     unat (co_capacity (gt_output (go_tip op0))) =
       unat (co_capacity (gt_output (go_tip op))) + length bs * unat (go_fee op0)"

lemma submit_frame: "submit op i = (r, op') \<Longrightarrow> go_fee op' = go_fee op \<and> go_game_id op' = go_game_id op"
  by (auto simp: submit_def split: prod.splits sum.splits)

lemma flush_inv:
  assumes inv: "operator_inv op0 op bs" and run: "flush X send fin op n = (r, op', n')"
  shows "operator_inv op0 op' (if is_ok r then bs @ [go_mempool op] else bs)"
  using run
proof (cases rule: flush_cases)
  case 1
  then show ?thesis using inv by simp
next
  case (2 t s h)
  note t = build_transition_okD[OF 2(1)]
  have "unat (co_capacity (gt_output (go_tip op))) = unat (co_capacity (tr_next_output t)) + unat (go_fee op)"
    using t(2) by (simp add: t(3) unat_sub_if' word_le_nat_alt)
  moreover have "spec_run (board_of (gt_state (go_tip op0))) (concat (bs @ [go_mempool op])) = Some (board_of (tr_next_state t))"
    using inv apply_batch_board[OF t(1)] by (simp add: operator_inv_def spec_run_append)
  ultimately show ?thesis using inv 2(4,5) by (simp add: operator_inv_def queue_applies_def)
qed

lemma run_inv:
  assumes "operator_run X send op0 op bs" and "go_mempool op0 = []"
  shows "operator_inv op0 op bs"
  using assms
proof induction
  case (submitted op bs i r op')
  then have "operator_inv op0 op bs" by simp
  then show ?case
    using submit_queue[of op i r op'] submit_frame[OF submitted(2)] submitted(2) by (simp add: operator_inv_def)
next
  case (flushed op bs fin n r op' n')
  then show ?case using flush_inv[OF _ flushed(2), of op0 bs] by blast
qed (simp_all add: operator_inv_def queue_applies_def drop_pending_def)


section \<open>The transition and the type script\<close>

lemma apply_intent_wf:
  assumes "apply_intent s i = (Ok (), s')" "list_all wf_entry (gs_players s)" "wf_intent i"
  shows "list_all wf_entry (gs_players s') \<and> length (gs_players s') \<le> Suc (length (gs_players s))"
  using assms(1)
proof (cases rule: apply_intent_ok_cases)
  case (old k q)
  then have "k < length (gs_players s)" by (simp add: position_SomeD)
  then have "wf_entry q" using assms(2) old(2) by (simp add: list_all_length wf_entry_def)
  then show ?thesis using assms(2) old(6) set_update_subset_insert[of "gs_players s" k q]
    by (auto simp: list_all_iff)
next
  case new
  then show ?thesis using assms(2,3) by (simp add: wf_entry_def wf_intent_def)
qed

lemma apply_intents_wf:
  assumes "apply_intents s xs = (Ok (), s')" "list_all wf_entry (gs_players s)" "list_all wf_intent xs"
  shows "list_all wf_entry (gs_players s') \<and> length (gs_players s') \<le> length (gs_players s) + length xs"
  using assms
proof (induction xs arbitrary: s)
  case (Cons i xs)
  then obtain t where t: "apply_intent s i = (Ok (), t)" and r: "apply_intents t xs = (Ok (), s')"
    by (auto split: prod.splits sum.splits)
  have "list_all wf_entry (gs_players t) \<and> length (gs_players t) \<le> Suc (length (gs_players s))"
    using apply_intent_wf[OF t Cons.prems(2)] Cons.prems(3) by simp
  with Cons.IH[OF r] Cons.prems(3) show ?case by simp
qed simp

lemma apply_batch_wf:
  assumes "apply_batch s xs = (Ok (), s')" "wf_state s" "wf_batch xs" "length (gs_players s) + length xs < 2 ^ 32"
  shows "wf_state s'"
  using assms(1)
proof (rule apply_batch_okE)
  fix t q
  assume t: "apply_intents s xs = (Ok (), t)" "s' = t\<lparr>gs_seq := q\<rparr>"
  show ?thesis
    using apply_intents_wf[OF t(1)] assms(2-4) by (simp add: t(2) wf_state_def wf_batch_def)
qed

text \<open>Documented: the crate reads back the witness it serialised.\<close>

definition witness_roundtrip :: "externals \<Rightarrow> sighash_crates \<Rightarrow> bool" where
  "witness_roundtrip X S \<longleftrightarrow> (\<forall>w. wa_from_slice S (molecule_witness_args X w) = Inr w)"

definition witness_at :: "sighash_crates \<Rightarrow> transaction \<Rightarrow> nat \<Rightarrow> sys_error + witness_args" where
  "witness_at S tx i =
     (if i < length (tx_witnesses tx)
      then (case wa_from_slice S (tx_witnesses tx ! i) of Inl _ \<Rightarrow> Inl SysEncoding | Inr w \<Rightarrow> Inr w)
      else Inl SysIndexOutOfBound)"

text \<open>
  What the type script sees of the operator's transaction: its own cell is the only input, and the
  only output.
\<close>

definition transition_view :: "sighash_crates \<Rightarrow> script \<Rightarrow> bytes \<Rightarrow> bytes \<Rightarrow> transaction \<Rightarrow> game_view" where
  "transition_view S scr scr_hash in_data tx =
     \<lparr>gv_script = scr, gv_script_hash = scr_hash, gv_in = [in_data], gv_out = rt_outputs_data (tx_raw tx),
      gv_input_types = [Some scr_hash], gv_witness = witness_at S tx\<rparr>"

lemma signed_transition_parts:
  assumes rt: "witness_roundtrip X S" and t: "build_transition X op = Ok t"
    and sg: "sign_sighash_all X S sk (tr_tx t) = Inr tx"
  shows "tx_raw tx = tx_raw (tr_tx t)"
    "\<exists>w. witness_at S tx 0 = Inr w \<and> wa_input_type w = Some (encode_batch (go_mempool op))"
  using sg rt build_transition_okD(7)[OF t]
  by (auto simp: sign_sighash_all_def witness_roundtrip_def witness_at_def batch_witness_def Let_def split: prod.splits)

lemma decoded_wf: "state_decode d = Ok s \<Longrightarrow> wf_state s"
  using state_decode_sound[of d s] by (cases "d = []") (auto simp: state_decode_def wf_state_def empty_state_def)

lemma transition_judged:
  assumes X: "hex_is_text X" and rt: "witness_roundtrip X S"
    and t: "build_transition X op = Ok t" and sg: "sign_sighash_all X S sk (tr_tx t) = Inr tx"
    and tip: "state_decode d = Ok (gt_state (go_tip op))" and wf: "wf_batch (go_mempool op)"
    and small: "length (gs_players (gt_state (go_tip op))) + length (go_mempool op) < 2 ^ 32"
    and id: "length (go_game_id op) = GAME_ID_LEN"
    and V: "game_runs_on V (transition_view S (game_type_script code ht (go_game_id op)) h d tx)"
  shows "game_verify X V = Ok () \<longleftrightarrow> list_all (intent_signed X V (go_game_id op)) (go_mempool op)"
proof -
  let ?v = "transition_view S (game_type_script code ht (go_game_id op)) h d tx"
  note t' = build_transition_okD[OF t]
  have out: "gv_out ?v = [state_encode (tr_next_state t)]"
    using signed_transition_parts(1)[OF rt t sg] by (simp add: transition_view_def t'(6))
  have batch: "batch_of ?v = Some (encode_batch (go_mempool op))"
    using signed_transition_parts(2)[OF rt t sg] by (auto simp: batch_of_def transition_view_def)
  have next_state: "state_decode (state_encode (tr_next_state t)) = Ok (tr_next_state t)"
    by (rule state_decode_encode[OF apply_batch_wf[OF t'(1) decoded_wf[OF tip] wf small]])
  have g: "game_id_of ?v = go_game_id op" "gv_in ?v = [d]"
    by (simp_all add: game_id_of_def transition_view_def game_type_script_def)
  have "legal_step X V (go_game_id op) d (go_mempool op) (state_encode (tr_next_state t)) \<longleftrightarrow>
      list_all (intent_signed X V (go_game_id op)) (go_mempool op)"
    using tip t'(1) next_state by (simp add: legal_step_def equals_unordered_iff)
  then have "game_accepts X V ?v \<longleftrightarrow> list_all (intent_signed X V (go_game_id op)) (go_mempool op)"
    using id decode_batch_encode[OF wf] by (simp add: game_accepts_def g out batch)
  then show ?thesis by (simp add: game_verify_refines[OF X V])
qed

section \<open>The signature\<close>

lemma sighash_ignores_lock:
  "drop (length (rt_inputs (tx_raw tx))) ws = drop (length (rt_inputs (tx_raw tx))) (tx_witnesses tx) \<Longrightarrow>
   sighash_message X (tx\<lparr>tx_witnesses := ws\<rparr>) (wa\<lparr>wa_lock := l\<rparr>) = sighash_message X tx wa"
  by (simp add: sighash_message_def zeroed_lock_witness_def)

lemma signature_recomputed:
  assumes rt: "witness_roundtrip X S" and sg: "sign_sighash_all X S sk tx = Inr tx'"
    and inputs: "rt_inputs (tx_raw tx) \<noteq> []"
  shows "tx_raw tx' = tx_raw tx \<and> tl (tx_witnesses tx') = tl (tx_witnesses tx) \<and>
     (\<exists>wa wa' compact rec_id.
        wa_from_slice S (hd (tx_witnesses tx)) = Inr wa \<and> wa_from_slice S (hd (tx_witnesses tx')) = Inr wa' \<and>
        wa' = wa\<lparr>wa_lock := Some (compact @ [rec_id])\<rparr> \<and>
        (compact, rec_id) = sign_recoverable S (sighash_message X tx' wa') sk)"
proof -
  from sg obtain w0 ws wa where w: "tx_witnesses tx = w0 # ws" "wa_from_slice S w0 = Inr wa"
    by (auto simp: sign_sighash_all_def split: list.splits sum.splits)
  obtain compact rec_id where c: "sign_recoverable S (sighash_message X tx wa) sk = (compact, rec_id)" by fastforce
  define wa' where "wa' = wa\<lparr>wa_lock := Some (compact @ [rec_id])\<rparr>"
  have tx': "tx' = tx\<lparr>tx_witnesses := molecule_witness_args X wa' # ws\<rparr>"
    using sg by (simp add: sign_sighash_all_def w c wa'_def)
  obtain k where "length (rt_inputs (tx_raw tx)) = Suc k" using inputs by (cases "rt_inputs (tx_raw tx)") auto
  then have "sighash_message X tx' wa' = sighash_message X tx wa"
    unfolding tx' wa'_def by (intro sighash_ignores_lock) (simp add: w)
  then show ?thesis using w c rt by (auto simp: tx' wa'_def witness_roundtrip_def)
qed

section \<open>Properties\<close>

definition sample_tip :: game_tip where
  "sample_tip =
     \<lparr>gt_out_point = \<lparr>op_tx_hash = replicate 32 0, op_index = 0\<rparr>,
      gt_output = \<lparr>co_capacity = 1000, co_lock = game_script, co_type = Some game_script\<rparr>, gt_state = empty_state\<rparr>"

definition sample_operator :: game_operator where
  "sample_operator = with_fee (operator_new (replicate 32 6) [] sample_tip) 3"

definition queued_operator :: game_operator where
  "queued_operator = sample_operator\<lparr>go_mempool := [signed_intent]\<rparr>"

lemma sample_submit: "submit sample_operator signed_intent = (Ok (), queued_operator)"
  by (simp add: queued_operator_def submit_def sample_operator_def with_fee_def operator_new_def sample_tip_def
      apply_batch_def apply_intent_def empty_state_def signed_intent_def sample_intent_def MAX_POINTS_PER_MOVE_def checked_add_def)

lemma queued_fields:
  "go_mempool queued_operator = [signed_intent]" "go_tip queued_operator = sample_tip" "go_fee queued_operator = 3"
  "go_game_id queued_operator = replicate 32 6"
  by (simp_all add: queued_operator_def sample_operator_def with_fee_def operator_new_def)

lemma sample_run: "operator_run X send sample_operator queued_operator []"
  by (rule submitted[OF started sample_submit])



text \<open>
  C23: over an operator's whole life the board at its tip is the specification's result of exactly
  the intents in the batches the node accepted, in the order they were queued, and the game cell
  has shrunk by the fee once per accepted transition.
\<close>

theorem operator_history:
  assumes "operator_run X send (with_fee (operator_new game_id deps tip) fee) op batches"
  shows "spec_run (board_of (gt_state tip)) (concat batches) = Some (board_of (gt_state (go_tip op))) \<and>
     unat (co_capacity (gt_output tip)) = unat (co_capacity (gt_output (go_tip op))) + length batches * unat fee"
proof -
  have "operator_inv (with_fee (operator_new game_id deps tip) fee) op batches"
    by (rule run_inv[OF assms]) (simp add: with_fee_def operator_new_def)
  then show ?thesis by (simp add: operator_inv_def with_fee_def operator_new_def)
qed

text \<open>The sample operator flushes its queue to the in-memory node.\<close>

definition flushed_operator :: game_operator where
  "flushed_operator = fst (snd (flush sample_externals (mock_send sample_externals) Inr queued_operator 0))"

lemma queued_batch: "apply_batch (gt_state (go_tip queued_operator)) (go_mempool queued_operator) = (Ok (), one_player)"
  by (simp add: queued_fields sample_tip_def apply_batch_signed)

lemma queued_transition: "\<exists>t. build_transition X queued_operator = Ok t \<and> tr_next_state t = one_player"
  by (simp add: build_transition_def queued_batch Let_def checked_sub_def) (simp add: queued_fields sample_tip_def)

lemma sample_flush:
  "flush sample_externals (mock_send sample_externals) Inr queued_operator 0 =
     (fst (flush sample_externals (mock_send sample_externals) Inr queued_operator 0), flushed_operator,
      snd (snd (flush sample_externals (mock_send sample_externals) Inr queued_operator 0)))"
  by (simp add: flushed_operator_def)

lemma sample_flush_ok: "is_ok (fst (flush sample_externals (mock_send sample_externals) Inr queued_operator 0))"
  "gt_state (go_tip flushed_operator) = one_player"
  using queued_transition[of sample_externals]
  by (auto simp: flushed_operator_def flush_def mock_send_def checked_add_def)

lemma operator_history_witness:
  "spec_run (board_of empty_state) [signed_intent] = Some (board_of one_player) \<and>
   co_capacity (gt_output (go_tip flushed_operator)) = 997"
proof -
  have "operator_run sample_externals (mock_send sample_externals) sample_operator flushed_operator [[signed_intent]]"
    using flushed[OF sample_run sample_flush] by (simp add: sample_flush_ok queued_fields)
  from operator_history[OF this[unfolded sample_operator_def]] show ?thesis
    by (simp add: sample_flush_ok sample_tip_def word_unat_eq_iff)
qed

text \<open>
  C21: the type script accepts the transaction the operator builds and signs, on the cell it was
  built for, exactly when every queued intent is signed by its player: the operator can order and
  leave out moves, but cannot get a move accepted that its player did not sign, and a batch of
  signed moves is never rejected.
\<close>

theorem operator_transition_judged:
  assumes "hex_is_text X" and "witness_roundtrip X S"
    and "build_transition X op = Ok t" and "sign_sighash_all X S sk (tr_tx t) = Inr tx"
    and "state_decode d = Ok (gt_state (go_tip op))" and "wf_batch (go_mempool op)"
    and "length (gs_players (gt_state (go_tip op))) + length (go_mempool op) < 2 ^ 32"
    and "length (go_game_id op) = GAME_ID_LEN"
    and "game_runs_on V (transition_view S (game_type_script code ht (go_game_id op)) h d tx)"
  shows "game_verify X V = Ok () \<longleftrightarrow> list_all (intent_signed X V (go_game_id op)) (go_mempool op)"
  by (rule transition_judged[OF assms])

text \<open>A witness format that keeps every field, byte by byte, and a signer.\<close>

fun pack_field :: "bytes option \<Rightarrow> bytes" where
  "pack_field None = [0]"
| "pack_field (Some []) = [1]"
| "pack_field (Some (x # b)) = 2 # x # pack_field (Some b)"

fun unpack_field :: "bytes \<Rightarrow> bytes option \<times> bytes" where
  "unpack_field (t # r) =
     (if t = 0 then (None, r)
      else if t = 1 then (Some [], r)
      else case r of
        [] \<Rightarrow> (None, [])
      | x # r' \<Rightarrow> (case unpack_field r' of (None, q) \<Rightarrow> (None, q) | (Some b, q) \<Rightarrow> (Some (x # b), q)))"
| "unpack_field [] = (None, [])"

lemma unpack_pack: "unpack_field (pack_field f @ r) = (f, r)"
  by (induction f rule: pack_field.induct) auto

definition operator_externals :: externals where
  "operator_externals = sample_externals\<lparr>molecule_witness_args :=
     (\<lambda>w. pack_field (wa_lock w) @ pack_field (wa_input_type w) @ pack_field (wa_output_type w))\<rparr>"

definition sample_sighash :: sighash_crates where
  "sample_sighash =
     \<lparr>wa_from_slice = (\<lambda>b. case unpack_field b of (l, r) \<Rightarrow> case unpack_field r of (i, r') \<Rightarrow>
        case unpack_field r' of (out, _) \<Rightarrow> Inr \<lparr>wa_lock = l, wa_input_type = i, wa_output_type = out\<rparr>),
      sign_recoverable = (\<lambda>m sk. (m @ replicate 32 0, 1))\<rparr>"

lemma sample_witness_roundtrip: "witness_roundtrip operator_externals sample_sighash"
  using unpack_pack[of _ "[]"]
  by (simp add: witness_roundtrip_def operator_externals_def sample_sighash_def unpack_pack)

lemma operator_externals_text: "hex_is_text operator_externals"
  using sample_hex_is_text by (simp add: hex_is_text_def operator_externals_def)

lemma operator_intent_signed: "intent_signed operator_externals (game_vm v) (replicate 32 6) signed_intent"
  using signed_intent_signed[of v] by (simp add: intent_signed_def ckb_auth_accepts_def operator_externals_def)

lemma sample_signs:
  assumes "build_transition operator_externals queued_operator = Ok t"
  shows "\<exists>tx. sign_sighash_all operator_externals sample_sighash [1] (tr_tx t) = Inr tx"
  using build_transition_okD(7)[OF assms] sample_witness_roundtrip
  by (simp add: sign_sighash_all_def witness_roundtrip_def Let_def split: prod.splits)

lemma operator_transition_judged_witness:
  "\<exists>t tx. build_transition operator_externals queued_operator = Ok t \<and>
     sign_sighash_all operator_externals sample_sighash [1] (tr_tx t) = Inr tx \<and>
     game_verify operator_externals (game_vm (transition_view sample_sighash game_script (replicate 32 3) [] tx)) = Ok ()"
proof -
  obtain t where t: "build_transition operator_externals queued_operator = Ok t"
    using queued_transition by blast
  obtain tx where tx: "sign_sighash_all operator_externals sample_sighash [1] (tr_tx t) = Inr tx"
    using sample_signs[OF t] by blast
  let ?v = "transition_view sample_sighash (game_type_script (replicate 32 4) 1 (go_game_id queued_operator)) (replicate 32 3) [] tx"
  have scr: "game_type_script (replicate 32 4) 1 (go_game_id queued_operator) = game_script"
    by (simp add: game_type_script_def queued_fields game_script_def)
  have V: "game_runs_on (game_vm ?v) ?v"
    using signed_transition_parts(1)[OF sample_witness_roundtrip t tx] build_transition_okD(6)[OF t]
    by (intro game_vm_runs) (simp_all add: transition_view_def usize_limit_def)
  have "game_verify operator_externals (game_vm ?v) = Ok () \<longleftrightarrow>
      list_all (intent_signed operator_externals (game_vm ?v) (go_game_id queued_operator)) (go_mempool queued_operator)"
    by (rule operator_transition_judged[OF operator_externals_text sample_witness_roundtrip t tx _ _ _ _ V])
       (simp_all add: queued_fields wf_signed_batch sample_tip_def state_decode_def empty_state_def GAME_ID_LEN_def)
  then show ?thesis using t tx operator_intent_signed unfolding scr by (auto simp: queued_fields)
qed

text \<open>
  C38: the operator's signature on a transaction with an input leaves the raw transaction and every
  other witness as they were, keeps the batch in the first witness, and is a signature of the
  message that a verifier recomputes from the signed transaction itself.
\<close>

theorem sighash_recomputable:
  assumes "witness_roundtrip X S" and "sign_sighash_all X S sk tx = Inr tx'" and "rt_inputs (tx_raw tx) \<noteq> []"
  shows "tx_raw tx' = tx_raw tx \<and> tl (tx_witnesses tx') = tl (tx_witnesses tx) \<and>
     (\<exists>wa wa' compact rec_id.
        wa_from_slice S (hd (tx_witnesses tx)) = Inr wa \<and> wa_from_slice S (hd (tx_witnesses tx')) = Inr wa' \<and>
        wa' = wa\<lparr>wa_lock := Some (compact @ [rec_id])\<rparr> \<and>
        (compact, rec_id) = sign_recoverable S (sighash_message X tx' wa') sk)"
  by (rule signature_recomputed[OF assms])

lemma sighash_recomputable_witness:
  "\<exists>t tx wa. build_transition operator_externals queued_operator = Ok t \<and>
     sign_sighash_all operator_externals sample_sighash [1] (tr_tx t) = Inr tx \<and> tx_raw tx = tx_raw (tr_tx t) \<and>
     wa_from_slice sample_sighash (hd (tx_witnesses tx)) = Inr wa \<and> wa_input_type wa = Some (encode_batch [signed_intent])"
proof -
  obtain t where t: "build_transition operator_externals queued_operator = Ok t"
    using queued_transition by blast
  obtain tx where tx: "sign_sighash_all operator_externals sample_sighash [1] (tr_tx t) = Inr tx"
    using sample_signs[OF t] by blast
  have "rt_inputs (tx_raw (tr_tx t)) \<noteq> []" by (simp add: build_transition_okD(6)[OF t])
  from sighash_recomputable[OF sample_witness_roundtrip tx this] obtain wa' where
    "tx_raw tx = tx_raw (tr_tx t)" "wa_from_slice sample_sighash (hd (tx_witnesses tx)) = Inr wa'"
    "wa_input_type wa' = Some (encode_batch [signed_intent])"
    using sample_witness_roundtrip build_transition_okD(7)[OF t]
    by (auto simp: witness_roundtrip_def batch_witness_def queued_fields)
  then show ?thesis using t tx by blast
qed

text \<open>
  A flush that fails, whatever failed, leaves the tip and the queue as they were, so it can be
  retried, and nothing was sent unless the node itself refused it; on the in-memory node a flush
  that succeeds has sent one transaction, and the tip is then the first output of exactly that
  transaction, holding the next state, with the queue empty.
\<close>

theorem flush_all_or_nothing:
  assumes "flush X (mock_send X) finalize op sent = (r, op', sent')"
    and "\<And>tx tx'. finalize tx = Inr tx' \<Longrightarrow> tx_raw tx' = tx_raw tx"
  shows "(case r of
      Inl f \<Rightarrow> op' = op \<and> sent' = sent
    | Inr h \<Rightarrow> \<exists>t. build_transition X op = Ok t \<and> h = calc_tx_hash X (tx_raw (tr_tx t)) \<and>
        gt_out_point (go_tip op') = \<lparr>op_tx_hash = h, op_index = 0\<rparr> \<and>
        gt_output (go_tip op') = rt_outputs (tx_raw (tr_tx t)) ! 0 \<and>
        state_encode (gt_state (go_tip op')) = rt_outputs_data (tx_raw (tr_tx t)) ! 0 \<and>
        go_mempool op' = [] \<and> unat sent' = unat sent + 1)"
proof (cases r)
  case (Inl f)
  then show ?thesis using assms(1)
    by (auto simp: flush_def mock_send_def split: sum.splits prod.splits option.splits)
next
  case (Inr h)
  have "unat sent' = unat sent + 1"
    using assms(1) Inr by (auto simp: flush_def mock_send_def checked_add_Some split: sum.splits prod.splits option.splits)
  moreover have run: "flush X (mock_send X) finalize op sent = (Ok h, op', sent')" using assms(1) Inr by simp
  obtain t where "build_transition X op = Ok t" "h = calc_tx_hash X (tx_raw (tr_tx t))"
    "gt_out_point (go_tip op') = \<lparr>op_tx_hash = calc_tx_hash X (tx_raw (tr_tx t)), op_index = 0\<rparr>"
    "gt_output (go_tip op') = rt_outputs (tx_raw (tr_tx t)) ! 0"
    "state_encode (gt_state (go_tip op')) = rt_outputs_data (tx_raw (tr_tx t)) ! 0" "go_mempool op' = []"
    by (rule mock_chain.flush_tip_spends[OF run assms(2)])
  ultimately show ?thesis using Inr by (auto simp: sum.case)
qed

lemma flush_all_or_nothing_witness:
  "\<exists>t. build_transition sample_externals queued_operator = Ok t \<and>
     gt_output (go_tip flushed_operator) = rt_outputs (tx_raw (tr_tx t)) ! 0 \<and> go_mempool flushed_operator = []"
  using flush_all_or_nothing[OF sample_flush] sample_flush_ok(1) by (auto simp: is_ok_iff)

end
