(* ===== verification/Server_Properties.thy ===== *)
theory Server_Properties
  imports Operator_Server Operator_Properties
begin

text \<open>
  What the operator's server keeps over any sequence of requests: the invoice relay stays within
  its cap with its invoices in publication order, an invoice is only handed to someone who may pay
  it, a refused batch is shed, and the operator only moves by the operations of Operator.
\<close>

section \<open>The relay\<close>

lemma shed_oldest_eq: "shed_oldest xs = drop (length xs - INVOICE_CAP) xs"
proof (induction xs rule: shed_oldest.induct)
  case (1 xs)
  show ?case
  proof (cases "length xs > INVOICE_CAP")
    case True
    then have "drop (length xs - INVOICE_CAP) xs = drop (length (tl xs) - INVOICE_CAP) (tl xs)"
      by (cases xs) (simp_all add: Suc_diff_le)
    then show ?thesis using 1[OF True] True by (simp add: shed_oldest.simps[of xs])
  qed (simp add: shed_oldest.simps[of xs])
qed

definition relay_inv :: "invoice_relay \<Rightarrow> bool" where
  "relay_inv r \<longleftrightarrow>
     length (ir_invoices r) \<le> INVOICE_CAP \<and> sorted_wrt (<) (map ri_id (ir_invoices r)) \<and>
     list_all (\<lambda>e. ri_id e < ir_next_id r) (ir_invoices r)"

lemma relay_inv_new: "relay_inv relay_new"
  by (simp add: relay_inv_def relay_new_def)

lemma sorted_wrt_drop_ids: "sorted_wrt R (map f xs) \<Longrightarrow> sorted_wrt R (map f (drop n xs))"
  by (simp add: sorted_wrt_drop drop_map[symmetric])

lemma publish_inv:
  assumes inv: "relay_inv r" and run: "publish r now game_id dest sender invoice amount = (res, r')"
  shows "relay_inv r'"
proof (cases "checked_add (ir_next_id r) 1")
  case None
  then show ?thesis using run inv by (simp add: publish_def)
next
  case (Some nxt)
  define e where "e = \<lparr>ri_id = ir_next_id r, ri_game_id = game_id, ri_to = dest, ri_from = sender, ri_invoice = invoice,
    ri_amount_ckb = amount, ri_paid = False, ri_ts = now\<rparr>"
  have r': "r' = \<lparr>ir_invoices = shed_oldest (ir_invoices r @ [e]), ir_next_id = nxt\<rparr>"
    using run Some by (simp add: publish_def e_def Let_def)
  have up: "ir_next_id r < nxt"
    using Some unfolding checked_add_Some word_less_nat_alt unat_1 by linarith
  have "sorted_wrt (<) (map ri_id (ir_invoices r @ [e]))" "list_all (\<lambda>x. ri_id x < nxt) (ir_invoices r @ [e])"
    using inv up by (auto simp: relay_inv_def sorted_wrt_append list_all_iff e_def)
  then have "sorted_wrt (<) (map ri_id (drop n (ir_invoices r @ [e])))" "list_all (\<lambda>x. ri_id x < nxt) (drop n (ir_invoices r @ [e]))" for n
    by (auto simp only: sorted_wrt_drop_ids list_all_iff dest: in_set_dropD)
  then show ?thesis
    by (simp add: relay_inv_def r' shed_oldest_eq del: drop_append)
qed

lemma position_ids: "map ri_id (xs[k := (xs ! k)\<lparr>ri_paid := True\<rparr>]) = map ri_id xs"
  by (cases "k < length xs") (simp_all add: map_update list_update_same_conv list_update_beyond)

lemma mark_paid_inv:
  assumes inv: "relay_inv r" and run: "mark_paid r i = (found, r')"
  shows "relay_inv r'"
proof (cases "position (\<lambda>e. ri_id e = i) (ir_invoices r)")
  case None
  then show ?thesis using run inv by (simp add: mark_paid_def)
next
  case (Some k)
  then have r': "r' = r\<lparr>ir_invoices := (ir_invoices r)[k := (ir_invoices r ! k)\<lparr>ri_paid := True\<rparr>]\<rparr>"
    using run by (simp add: mark_paid_def Let_def)
  have ids: "map ri_id (ir_invoices r') = map ri_id (ir_invoices r)" by (simp add: r' position_ids)
  have "list_all (\<lambda>e. ri_id e < ir_next_id r) (ir_invoices r') \<longleftrightarrow> list_all (\<lambda>i. i < ir_next_id r) (map ri_id (ir_invoices r'))"
    by (simp add: list.pred_map comp_def)
  also have "\<dots> \<longleftrightarrow> list_all (\<lambda>e. ri_id e < ir_next_id r) (ir_invoices r)"
    unfolding ids by (simp add: list.pred_map comp_def)
  finally show ?thesis using inv ids by (simp add: relay_inv_def r')
qed

lemma paid_not_offered:
  assumes inv: "relay_inv r" and run: "mark_paid r i = (found, r')"
  shows "next_for r' payer = Some e \<Longrightarrow> ri_id e \<noteq> i"
proof
  assume e: "next_for r' payer = Some e" "ri_id e = i"
  then have e': "e \<in> set (ir_invoices r')" "payable_by payer e"
    unfolding next_for_def find_Some_iff by auto
  have d: "distinct (map ri_id (ir_invoices r'))"
    using mark_paid_inv[OF inv run] by (auto simp: relay_inv_def strict_sorted_iff)
  show False
  proof (cases "position (\<lambda>e. ri_id e = i) (ir_invoices r)")
    case None
    then have "r' = r" using run by (simp add: mark_paid_def)
    then show False using None e' e(2) by (auto simp: position_None_iff)
  next
    case (Some k)
    then have r': "ir_invoices r' = (ir_invoices r)[k := (ir_invoices r ! k)\<lparr>ri_paid := True\<rparr>]"
      using run by (simp add: mark_paid_def Let_def) auto
    have k: "k < length (ir_invoices r)" "ri_id (ir_invoices r ! k) = i" using position_SomeD[OF Some] by auto
    then have "(ir_invoices r ! k)\<lparr>ri_paid := True\<rparr> \<in> set (ir_invoices r')" by (simp add: r' set_update_memI)
    then have "e = (ir_invoices r ! k)\<lparr>ri_paid := True\<rparr>"
      using e(2) e'(1) d k(2) by (auto simp: distinct_map inj_on_def)
    then show False using e'(2) by (simp add: payable_by_def)
  qed
qed

lemma next_for_spec:
  assumes "next_for r payer = Some e"
  shows "e \<in> set (ir_invoices r)" "\<not> ri_paid e"
    "payer = Some p \<Longrightarrow> ri_from e \<noteq> Some p \<and> (ri_to e = None \<or> ri_to e = Some p)"
  using assms unfolding next_for_def find_Some_iff
  by (auto simp: payable_by_def split: if_splits option.splits)

lemma next_for_oldest:
  assumes inv: "relay_inv r" and e: "next_for r payer = Some e" and o: "other \<in> set (ir_invoices r)" "payable_by payer other"
  shows "ri_id e \<le> ri_id other"
proof -
  from e obtain k where k: "k < length (ir_invoices r)" "e = ir_invoices r ! k" "\<forall>j < k. \<not> payable_by payer (ir_invoices r ! j)"
    unfolding next_for_def find_Some_iff by blast
  from o obtain j where j: "j < length (ir_invoices r)" "other = ir_invoices r ! j" by (auto simp: in_set_conv_nth)
  have "k \<le> j" using k(3) o(2) j(2) by (meson not_less)
  then show ?thesis
    using inv k j by (cases "k = j") (auto simp: relay_inv_def sorted_wrt_iff_nth_less less_imp_le)
qed

section \<open>Requests\<close>

inductive server_run ::
  "externals \<Rightarrow> server_crates \<Rightarrow> 'n send \<Rightarrow> finalize \<Rightarrow> 'n server \<Rightarrow> 'n server \<Rightarrow> bool" for X C send fin sv0 where
  served_none: "server_run X C send fin sv0 sv0"
| served: "server_run X C send fin sv0 sv \<Longrightarrow> serve X C send fin now writable sv mthd url body_read = (r, sv') \<Longrightarrow>
    server_run X C send fin sv0 sv'"

lemma publish_invoice_inv:
  "handle_publish_invoice C now r body = (res, r', evs) \<Longrightarrow> relay_inv r \<Longrightarrow> relay_inv r'"
  by (auto simp: handle_publish_invoice_def Let_def dest: publish_inv split: sum.splits option.splits if_splits prod.splits)

lemma mark_paid_handler_inv:
  "handle_mark_paid C now q r body = (res, r', evs) \<Longrightarrow> relay_inv r \<Longrightarrow> relay_inv r'"
  by (auto simp: handle_mark_paid_def dest: mark_paid_inv split: sum.splits option.splits prod.splits)

lemma flush_or_shed_run:
  assumes run: "operator_run X send op0 op bs" and f: "flush_or_shed X send fin op n = (res, op', n')"
  shows "\<exists>bs'. operator_run X send op0 op' bs'"
proof -
  obtain r o1 n1 where fl: "flush X send fin op n = (r, o1, n1)" by (metis prod_cases3)
  have "op' = o1 \<or> op' = drop_pending o1"
    using f unfolding flush_or_shed_def fl Let_def prod.case by (auto split: sum.splits fault.splits operator_error.splits)
  then show ?thesis using flushed[OF run fl] dropped[OF flushed[OF run fl]] by blast
qed

lemma handle_flush_run:
  assumes "operator_run X send op0 op bs" and "handle_flush X C send fin op n = (res, op', n')"
  shows "\<exists>bs'. operator_run X send op0 op' bs'"
  using assms flush_or_shed_run by (fastforce simp: handle_flush_def split: prod.splits sum.splits)

lemma decoded_intent_wf: "intent_decode b = Ok i \<Longrightarrow> wf_intent i"
  using intent.dec_Ok_iff[of b i] by (cases "length b = INTENT_LEN") (auto simp: intent_decode_def)

lemma handle_intent_cases:
  assumes "handle_intent X C send fin now op n body = (res, op', n', evs)"
  obtains "op' = op" "n' = n"
    | i r where "wf_intent i" "submit op i = (r, op')" "n' = n"
    | i r o1 r' where "wf_intent i" "submit op i = (r, o1)" "flush_or_shed X send fin o1 n = (r', op', n')"
  using assms
  by (auto simp: handle_intent_def Let_def dest: decoded_intent_wf split: sum.splits fault.splits option.splits prod.splits)

lemma handle_intent_run:
  assumes run: "operator_run X send op0 op bs" and h: "handle_intent X C send fin now op n body = (res, op', n', evs)"
  shows "\<exists>bs'. operator_run X send op0 op' bs'"
  using h
proof (cases rule: handle_intent_cases)
  case 1
  then show ?thesis using run by blast
next
  case 2
  then show ?thesis using submitted[OF run] by blast
next
  case 3
  show ?thesis by (rule flush_or_shed_run[OF submitted[OF run 3(2)] 3(3)])
qed

lemma serve_cases:
  assumes "serve X C send fin now writable sv mthd url body_read = (r, sv')"
  obtains "sv_operator sv' = sv_operator sv" "sv_node sv' = sv_node sv" "sv_relay sv' = sv_relay sv"
    | body evs where "handle_intent X C send fin now (sv_operator sv) (sv_node sv) body = (r, sv_operator sv', sv_node sv', evs)"
        "sv_relay sv' = sv_relay sv"
    | "handle_flush X C send fin (sv_operator sv) (sv_node sv) = (r, sv_operator sv', sv_node sv')" "sv_relay sv' = sv_relay sv"
    | body evs where "handle_publish_invoice C now (sv_relay sv) body = (r, sv_relay sv', evs)"
        "sv_operator sv' = sv_operator sv" "sv_node sv' = sv_node sv"
    | body q evs where "handle_mark_paid C now q (sv_relay sv) body = (r, sv_relay sv', evs)"
        "sv_operator sv' = sv_operator sv" "sv_node sv' = sv_node sv"
proof (cases body_read)
  case None
  then show ?thesis using that(1) assms by (auto simp: serve_def Let_def split: if_splits)
next
  case (Some body)
  show ?thesis
    using assms that unfolding serve_def Some Let_def option.case
    by (auto split: if_splits prod.splits option.splits)
qed

lemma serve_keeps:
  assumes sv: "serve X C send fin now writable sv mthd url body_read = (r, sv')"
    and run: "operator_run X send op0 (sv_operator sv) bs" and inv: "relay_inv (sv_relay sv)"
  shows "relay_inv (sv_relay sv') \<and> (\<exists>bs'. operator_run X send op0 (sv_operator sv') bs')"
  using sv
proof (cases rule: serve_cases)
  case 1
  then show ?thesis using run inv by auto
next
  case 2
  then show ?thesis using handle_intent_run[OF run 2(1)] inv by simp
next
  case 3
  then show ?thesis using handle_flush_run[OF run 3(1)] inv by simp
next
  case 4
  then show ?thesis using publish_invoice_inv[OF 4(1) inv] run by auto
next
  case 5
  then show ?thesis using mark_paid_handler_inv[OF 5(1) inv] run by auto
qed

lemma server_run_inv:
  assumes "server_run X C send fin sv0 sv" and "relay_inv (sv_relay sv0)"
  shows "relay_inv (sv_relay sv) \<and> (\<exists>bs. operator_run X send (sv_operator sv0) (sv_operator sv) bs)"
  using assms
proof induction
  case served_none
  then show ?case using started by blast
next
  case (served sv now writable mthd url body_read r sv')
  then show ?case using serve_keeps[OF served(2)] by blast
qed

lemma submit_empty:
  assumes "go_mempool op = []"
  shows "submit op i = (case apply_intent (gt_state (go_tip op)) i of
     (Inl f, _) \<Rightarrow> (map_err OpGame (Inl f), op) | (Inr _, _) \<Rightarrow> (Ok (), op\<lparr>go_mempool := [i]\<rparr>))"
  using assms unat_less_2p[of "gs_seq (gt_state (go_tip op))"]
  by (simp add: submit_def apply_batch_def checked_add_def split: prod.splits sum.splits)

section \<open>Properties\<close>

text \<open>
  C37: whatever requests the operator's server has served, the relay holds at most 256 invoices with
  distinct ids in publication order, and the invoice it hands a payer is unpaid, was not published
  by the payer, is open or addressed to the payer, and is the oldest such; once confirmed paid it
  is never handed out again.
\<close>

theorem relay_hands_out:
  assumes "server_run X C send fin (start_server op log) sv" and "next_for (sv_relay sv) (Some p) = Some e"
  shows "length (ir_invoices (sv_relay sv)) \<le> 256 \<and> sorted_wrt (<) (map ri_id (ir_invoices (sv_relay sv))) \<and>
     e \<in> set (ir_invoices (sv_relay sv)) \<and> \<not> ri_paid e \<and> ri_from e \<noteq> Some p \<and> ri_to e \<in> {None, Some p} \<and>
     list_all (\<lambda>other. payable_by (Some p) other \<longrightarrow> ri_id e \<le> ri_id other) (ir_invoices (sv_relay sv)) \<and>
     (case next_for (snd (mark_paid (sv_relay sv) (ri_id e))) q of None \<Rightarrow> True | Some e' \<Rightarrow> ri_id e' \<noteq> ri_id e)"
proof -
  have inv: "relay_inv (sv_relay sv)"
    using server_run_inv[OF assms(1)] relay_inv_new by (simp add: start_server_def)
  have paid: "mark_paid (sv_relay sv) (ri_id e) =
      (fst (mark_paid (sv_relay sv) (ri_id e)), snd (mark_paid (sv_relay sv) (ri_id e)))" by simp
  show ?thesis
    using inv next_for_spec(1,2)[OF assms(2)] next_for_spec(3)[OF assms(2) refl] next_for_oldest[OF inv assms(2)] paid_not_offered[OF inv paid, where payer = q]
    by (auto simp: relay_inv_def INVOICE_CAP_def list_all_iff split: option.splits)
qed

definition sample_server_crates :: server_crates where
  "sample_server_crates =
     \<lparr>parse_json = (\<lambda>s. if s = [] then Inl ''EOF'' else Inr (JObj [(''invoice'', JStr s), (''from'', JStr ''bob'')])),
      show_json = (\<lambda>j. []), decode_hex_text = (\<lambda>s. Inl s), debug_operator_error = (\<lambda>e. [])\<rparr>"

definition sample_invoice :: relay_invoice where
  "sample_invoice = \<lparr>ri_id = 1, ri_game_id = None, ri_to = None, ri_from = Some ''bob'', ri_invoice = ''fibt'',
     ri_amount_ckb = 0, ri_paid = False, ri_ts = 7\<rparr>"

definition one_invoice :: "u32 server" where
  "one_invoice = snd (serve sample_externals sample_server_crates (mock_send sample_externals) Inr 7 False
     (start_server sample_operator []) MPost ''/invoice'' (Some ''fibt''))"

lemma one_invoice_relay: "sv_relay one_invoice = \<lparr>ir_invoices = [sample_invoice], ir_next_id = 2\<rparr>"
  by (simp add: one_invoice_def serve_def start_server_def handle_publish_invoice_def sample_server_crates_def str_field_def
      u64_field_def publish_def relay_new_def checked_add_def shed_oldest_eq INVOICE_CAP_def sample_invoice_def Let_def)

lemma one_invoice_run:
  "server_run sample_externals sample_server_crates (mock_send sample_externals) Inr (start_server sample_operator []) one_invoice"
  unfolding one_invoice_def by (rule served[OF served_none prod.collapse[symmetric]])

lemma relay_hands_out_witness:
  "next_for (sv_relay one_invoice) (Some ''ann'') = Some sample_invoice \<and> \<not> ri_paid sample_invoice \<and>
   ri_from sample_invoice \<noteq> Some ''ann''"
proof -
  note run = one_invoice_run
  have nxt: "next_for (sv_relay one_invoice) (Some ''ann'') = Some sample_invoice"
    by (simp add: one_invoice_relay next_for_def payable_by_def sample_invoice_def)
  from relay_hands_out[OF run nxt, of None] nxt show ?thesis by simp
qed

text \<open>
  The server moves its operator by the operator's operations only, so after any requests the
  board it reports is the specification's result of the batches the node accepted; and when the
  node refuses a batch, the handlers shed the queue and keep the tip, so the next player's move is
  judged on the tip alone.
\<close>

theorem server_board_and_shedding:
  assumes "server_run X C send fin (start_server (with_fee (operator_new game_id deps tip) fee) log) sv"
  shows "(\<exists>batches. spec_run (board_of (gt_state tip)) (concat batches) = Some (board_of (gt_state (go_tip (sv_operator sv))))) \<and>
     (case flush_or_shed X send fin (sv_operator sv) (sv_node sv) of
        (Inl (Fail (OpRpc e)), op', n) \<Rightarrow> go_tip op' = go_tip (sv_operator sv) \<and> go_mempool op' = [] \<and>
          submit op' i = (case apply_intent (gt_state (go_tip (sv_operator sv))) i of
             (Inl f, _) \<Rightarrow> (map_err OpGame (Inl f), op') | (Inr _, _) \<Rightarrow> (Ok (), op'\<lparr>go_mempool := [i]\<rparr>))
      | _ \<Rightarrow> True)"
proof -
  obtain bs where run: "operator_run X send (with_fee (operator_new game_id deps tip) fee) (sv_operator sv) bs"
    using server_run_inv[OF assms] relay_inv_new by (auto simp: start_server_def)
  have board: "spec_run (board_of (gt_state tip)) (concat bs) = Some (board_of (gt_state (go_tip (sv_operator sv))))"
    using run_inv[OF run] by (simp add: operator_inv_def with_fee_def operator_new_def)
  obtain r op' n where f: "flush X send fin (sv_operator sv) (sv_node sv) = (r, op', n)" by (metis prod_cases3)
  show ?thesis
  proof (cases "\<exists>e. r = Err (OpRpc e)")
    case True
    then have "op' = sv_operator sv" using f by (auto elim: flush_cases)
    then show ?thesis using True board by (auto simp: flush_or_shed_def f drop_pending_def submit_empty)
  next
    case False
    then show ?thesis
      using board by (auto simp: flush_or_shed_def f split: sum.splits fault.splits operator_error.splits)
  qed
qed

lemma server_board_and_shedding_witness:
  "\<exists>batches. spec_run (board_of empty_state) (concat batches) = Some (board_of (gt_state (go_tip (sv_operator one_invoice))))"
  using server_board_and_shedding[OF one_invoice_run[unfolded sample_operator_def]] by (simp add: sample_tip_def)

section \<open>Where the queue does stick\<close>

text \<open>
  Admission checks neither the fee nor the sequence number: a move that was admitted stays queued
  when the cell cannot pay, although its player is told that it failed.
\<close>

theorem unfunded_move_stays_queued:
  assumes "submit op i = (Ok (), op')" and "co_capacity (gt_output (go_tip op)) < go_fee op"
    and "fst (apply_batch (gt_state (go_tip op)) (go_mempool op')) = Ok ()"
  shows "flush_or_shed X send fin op' n =
       (Err (OpFinalize (CannotFund (co_capacity (gt_output (go_tip op))) (go_fee op))), op', n) \<and> i \<in> set (go_mempool op')"
proof -
  have op': "op' = op\<lparr>go_mempool := go_mempool op @ [i]\<rparr>"
    using assms(1) by (auto simp: submit_def map_err_Ok_iff split: prod.splits sum.splits)
  obtain t where t: "apply_batch (gt_state (go_tip op)) (go_mempool op @ [i]) = (Ok (), t)"
    using assms(3) by (cases "apply_batch (gt_state (go_tip op)) (go_mempool op @ [i])") (simp add: op')
  have "build_transition X op' = Err (OpFinalize (CannotFund (co_capacity (gt_output (go_tip op))) (go_fee op)))"
    using assms(2) by (simp add: build_transition_def op' t Let_def checked_sub_def not_le)
  then show ?thesis by (simp add: flush_or_shed_def flush_def op')
qed

theorem full_sequence_sticks:
  assumes "submit op i = (Ok (), op')" and "gs_seq (gt_state (go_tip op)) = - 1" and "go_mempool op = []"
  shows "build_transition X op' = Err (OpGame Overflow)"
proof -
  have op': "op' = op\<lparr>go_mempool := [i]\<rparr>"
    using assms(1,3) by (auto simp: submit_def map_err_Ok_iff split: prod.splits sum.splits)
  obtain t where t: "apply_intent (gt_state (go_tip op)) i = (Ok (), t)"
    using assms(1) unfolding submit_empty[OF assms(3)]
    by (cases "apply_intent (gt_state (go_tip op)) i") (auto simp: map_err_Ok_iff split: sum.splits)
  have "gs_seq t = - 1" using apply_intent_seq[of "gt_state (go_tip op)" i] t assms(2) by simp
  then have "apply_batch (gt_state (go_tip op)) [i] = (Err Overflow, t)"
    by (simp add: apply_batch_def t checked_add_def unat_max_word)
  then show ?thesis by (simp add: build_transition_def op' Let_def)
qed

end
