(* ===== verification/Wasm.thy ===== *)
theory Wasm
  imports Channel Operator_Server
begin

text \<open>
  The browser surface, wasm/src/lib.rs: every exported function over the SDK, the game rules and
  the channel session, with the hex and decimal strings it exchanges with JavaScript.  The names
  that the SDK also has carry the prefix \<open>wasm\<close>.  The crates hex, ckb-types and bech32 and the text
  of a number-parsing error are the fields of a record.  The target is wasm32, where a \<open>usize\<close> has
  32 bits.
\<close>

section \<open>Strings\<close>

record wasm_crates =
  wc_hex_decode :: "string \<Rightarrow> string + bytes"
  script_from_slice :: "bytes \<Rightarrow> string + script"
  script_slice :: "script \<Rightarrow> bytes"
  transaction_from_slice :: "bytes \<Rightarrow> string + transaction"
  outpoint_slice :: "out_point \<Rightarrow> bytes"
  bech32m_encode :: "string \<Rightarrow> bytes \<Rightarrow> string + string"
  parse_int_error :: "string \<Rightarrow> string"

type_synonym 'a js = "(string, 'a) result"

definition hx :: "wasm_crates \<Rightarrow> string \<Rightarrow> bytes js" where
  "hx W s = text_result (\<lambda>e. ''invalid hex: '' @ e) (wc_hex_decode W (trim_0x s))"

text \<open>\<open>hx(s)?.try_into()\<close> for an array of the given length.\<close>

definition sized :: "nat \<Rightarrow> string \<Rightarrow> bytes \<Rightarrow> bytes js" where
  "sized n msg b = (if length b = n then Ok b else Err msg)"

definition arr20 :: "wasm_crates \<Rightarrow> string \<Rightarrow> bytes js" where
  "arr20 W s = andThen (hx W s) (sized 20 ''expected 20 bytes'')"

definition arr32 :: "wasm_crates \<Rightarrow> string \<Rightarrow> bytes js" where
  "arr32 W s = andThen (hx W s) (sized 32 ''expected 32 bytes'')"

definition hexout :: "externals \<Rightarrow> bytes \<Rightarrow> string" where
  "hexout X b = ''0x'' @ hex_encode X b"

definition parse_u128 :: "wasm_crates \<Rightarrow> string \<Rightarrow> u128 js" where
  "parse_u128 W s =
     (case parse_unsigned dec_value 10 (2 ^ 128) s of
        None \<Rightarrow> Err (''invalid u128 '' @ [CHR 0x27] @ s @ [CHR 0x27] @ '': '' @ parse_int_error W s)
      | Some n \<Rightarrow> Ok (of_nat n))"

text \<open>The SDK's functions have no error of their own: they return or panic.\<close>

definition no_error :: "(unit, 'a) result \<Rightarrow> 'a js" where
  "no_error m = map_err (\<lambda>_. []) m"

section \<open>Sentinels, encoding, address\<close>

definition wildcard_root :: "externals \<Rightarrow> string" where
  "wildcard_root X = hexout X sdk_WILDCARD_ROOT"

definition spend_cap_unlimited :: string where
  "spend_cap_unlimited = show_nat (unat sdk_SPEND_CAP_UNLIMITED)"

definition no_expiry :: u64 where
  "no_expiry = sdk_NO_EXPIRY"

definition wasm_script :: "externals \<Rightarrow> wasm_crates \<Rightarrow> string \<Rightarrow> byte \<Rightarrow> string \<Rightarrow> string js" where
  "wasm_script X W code_hash_hex hash_type args_hex =
     andThen (arr32 W code_hash_hex) (\<lambda>code_hash.
     andThen (hx W args_hex) (\<lambda>args.
       Ok (hexout X (script_slice W \<lparr>s_code_hash = code_hash, s_hash_type = hash_type, s_args = args\<rparr>))))"

definition wasm_session_params :: "externals \<Rightarrow> wasm_crates \<Rightarrow> string \<Rightarrow> u64 \<Rightarrow> string \<Rightarrow> string \<Rightarrow> string \<Rightarrow> string js" where
  "wasm_session_params X W session_pkh expires root_hex cap_text guardian_pkh =
     andThen (arr20 W session_pkh) (\<lambda>s.
     andThen (arr32 W root_hex) (\<lambda>root.
     andThen (parse_u128 W cap_text) (\<lambda>cap.
     andThen (arr20 W guardian_pkh) (\<lambda>g.
       Ok (hexout X (sdk_session_params s expires root cap g))))))"

definition wasm_registered_args :: "externals \<Rightarrow> wasm_crates \<Rightarrow> string \<Rightarrow> string \<Rightarrow> string js" where
  "wasm_registered_args X W owner_pubkey_hash params =
     andThen (arr20 W owner_pubkey_hash) (\<lambda>owner.
     andThen (hx W params) (\<lambda>p. Ok (hexout X (registered_args owner p))))"

definition wasm_owner_only_args :: "externals \<Rightarrow> wasm_crates \<Rightarrow> string \<Rightarrow> string js" where
  "wasm_owner_only_args X W owner_pubkey_hash =
     andThen (arr20 W owner_pubkey_hash) (\<lambda>owner. Ok (hexout X (owner_only_args owner)))"

definition controller_address :: "wasm_crates \<Rightarrow> string \<Rightarrow> byte \<Rightarrow> string \<Rightarrow> bool \<Rightarrow> string js" where
  "controller_address W code_hash_hex hash_type args_hex testnet =
     andThen (arr32 W code_hash_hex) (\<lambda>code_hash.
     andThen (hx W args_hex) (\<lambda>args.
       let payload = [0] @ code_hash @ [hash_type] @ args;
           hrp = (if testnet then ''ckt'' else ''ckb'')
       in text_result (\<lambda>e. ''bech32: '' @ e) (bech32m_encode W hrp payload)))"

section \<open>Messages, policies, witnesses\<close>

definition wasm_tx_message :: "externals \<Rightarrow> wasm_crates \<Rightarrow> string \<Rightarrow> string js" where
  "wasm_tx_message X W tx_molecule_hex =
     andThen (hx W tx_molecule_hex) (\<lambda>b.
     andThen (text_result (\<lambda>e. ''invalid transaction: '' @ e) (transaction_from_slice W b)) (\<lambda>tx.
       Ok (hexout X (sdk_tx_message X tx))))"

definition wasm_session_auth_message :: "externals \<Rightarrow> wasm_crates \<Rightarrow> string \<Rightarrow> u64 \<Rightarrow> string \<Rightarrow> string js" where
  "wasm_session_auth_message X W script_hash revocation_epoch params =
     andThen (arr32 W script_hash) (\<lambda>h.
     andThen (hx W params) (\<lambda>p. Ok (hexout X (sdk_session_auth_message X h revocation_epoch p))))"

definition wasm_policy_leaf :: "externals \<Rightarrow> wasm_crates \<Rightarrow> string \<Rightarrow> string js" where
  "wasm_policy_leaf X W script_hash = andThen (arr32 W script_hash) (\<lambda>h. Ok (hexout X (policy_leaf X h)))"

definition leaves_from :: "wasm_crates \<Rightarrow> string list \<Rightarrow> bytes list js" where
  "leaves_from W hexes = traverse (arr32 W) hexes"

definition wasm_merkle_root :: "externals \<Rightarrow> wasm_crates \<Rightarrow> string list \<Rightarrow> string js" where
  "wasm_merkle_root X W leaves =
     andThen (leaves_from W leaves) (\<lambda>ls.
     andThen (no_error (merkle_root (blake2b_256 X) ls)) (\<lambda>root. Ok (hexout X root)))"

definition wasm_merkle_proof :: "externals \<Rightarrow> wasm_crates \<Rightarrow> string list \<Rightarrow> u32 \<Rightarrow> string list js" where
  "wasm_merkle_proof X W leaves index =
     andThen (leaves_from W leaves) (\<lambda>ls.
     andThen (no_error (merkle_proof (blake2b_256 X) ls (unat index))) (\<lambda>p. Ok (map (hexout X) p)))"

definition wasm_merkle_verify :: "externals \<Rightarrow> wasm_crates \<Rightarrow> string \<Rightarrow> string \<Rightarrow> string list \<Rightarrow> bool js" where
  "wasm_merkle_verify X W root leaf path =
     andThen (traverse (arr32 W) path) (\<lambda>p.
     andThen (arr32 W root) (\<lambda>r.
     andThen (arr32 W leaf) (\<lambda>l. Ok (sdk_merkle_verify (blake2b_256 X) r l p))))"

definition wasm_owner_witness :: "externals \<Rightarrow> wasm_crates \<Rightarrow> string \<Rightarrow> string js" where
  "wasm_owner_witness X W owner_sig = andThen (hx W owner_sig) (\<lambda>s. Ok (hexout X (owner_witness X s)))"

definition optional_guardian :: "bytes \<Rightarrow> bytes option" where
  "optional_guardian g = (if g = [] then None else Some g)"

definition wasm_session_witness_registered :: "externals \<Rightarrow> wasm_crates \<Rightarrow> string \<Rightarrow> string \<Rightarrow> string \<Rightarrow> string js" where
  "wasm_session_witness_registered X W session_sig guardian_sig region =
     andThen (hx W guardian_sig) (\<lambda>g.
     andThen (hx W session_sig) (\<lambda>s.
     andThen (hx W region) (\<lambda>r. Ok (hexout X (session_witness_registered X s (optional_guardian g) r)))))"

definition wasm_session_witness_carried ::
  "externals \<Rightarrow> wasm_crates \<Rightarrow> string \<Rightarrow> string \<Rightarrow> string \<Rightarrow> string \<Rightarrow> string \<Rightarrow> string js" where
  "wasm_session_witness_carried X W params owner_auth session_sig guardian_sig region =
     andThen (hx W guardian_sig) (\<lambda>g.
     andThen (hx W params) (\<lambda>p.
     andThen (hx W owner_auth) (\<lambda>a.
     andThen (hx W session_sig) (\<lambda>s.
     andThen (hx W region) (\<lambda>r. Ok (hexout X (session_witness_carried X p a s (optional_guardian g) r)))))))"

definition wasm_channel_proof_region :: "externals \<Rightarrow> string" where
  "wasm_channel_proof_region X = hexout X channel_proof_region"

definition wasm_channel_session_params :: "externals \<Rightarrow> wasm_crates \<Rightarrow> string \<Rightarrow> u64 \<Rightarrow> string \<Rightarrow> u64 \<Rightarrow> string \<Rightarrow> string js" where
  "wasm_channel_session_params X W session_pkh expires funding_lock_script budget guardian_pkh =
     andThen (hx W funding_lock_script) (\<lambda>b.
     andThen (text_result (\<lambda>e. ''invalid funding lock script: '' @ e) (script_from_slice W b)) (\<lambda>funding_lock.
     andThen (arr20 W session_pkh) (\<lambda>s.
     andThen (arr20 W guardian_pkh) (\<lambda>g.
       Ok (hexout X (channel_session_params X s expires funding_lock budget g))))))"

section \<open>Game intents\<close>

text \<open>
  \<open>GameState::decode\<close> on wasm32: the length a header announces is computed in 32 bits, and the
  release profile panics when it does not fit.
\<close>

definition state_decode_wasm :: "bytes \<Rightarrow> (game_error, game_state) result" where
  "state_decode_wasm data =
     (if STATE_HEADER_LEN \<le> length data \<and>
         2 ^ 32 \<le> STATE_HEADER_LEN + unat (from_le (take 4 (drop 8 data)) :: u32) * ENTRY_LEN
      then Panicked else state_decode data)"

definition wasm_game_intent_message :: "externals \<Rightarrow> wasm_crates \<Rightarrow> string \<Rightarrow> string \<Rightarrow> u64 \<Rightarrow> u64 \<Rightarrow> string js" where
  "wasm_game_intent_message X W game_id player_pkh points nonce =
     andThen (arr32 W game_id) (\<lambda>g.
     andThen (arr20 W player_pkh) (\<lambda>h. Ok (hexout X (intent_message (blake2b_256 X) g h points nonce))))"

definition game_encode_intent :: "externals \<Rightarrow> wasm_crates \<Rightarrow> string \<Rightarrow> u64 \<Rightarrow> u64 \<Rightarrow> string \<Rightarrow> string js" where
  "game_encode_intent X W player_pkh points nonce sg_hex =
     andThen (hx W sg_hex) (\<lambda>b.
     andThen (sized SIGNATURE_LEN ''expected 65-byte signature'' b) (\<lambda>sg.
     andThen (arr20 W player_pkh) (\<lambda>h.
       Ok (hexout X (intent_encode \<lparr>i_hash = h, i_points = points, i_nonce = nonce, i_sig = sg\<rparr>)))))"

definition game_apply :: "externals \<Rightarrow> wasm_crates \<Rightarrow> string \<Rightarrow> string \<Rightarrow> string js" where
  "game_apply X W state batch =
     andThen (hx W state) (\<lambda>d.
     andThen (map_err (\<lambda>e. ''bad state: '' @ debug_game_error e) (state_decode_wasm d)) (\<lambda>s.
     andThen (hx W batch) (\<lambda>b.
     andThen (map_err (\<lambda>e. ''bad batch: '' @ debug_game_error e) (decode_batch b)) (\<lambda>intents.
     let (r, s') = apply_batch s intents in
     andThen (map_err (\<lambda>e. ''apply failed: '' @ debug_game_error e) r) (\<lambda>_. Ok (hexout X (state_encode s')))))))"

definition game_encode_batch :: "externals \<Rightarrow> wasm_crates \<Rightarrow> string list \<Rightarrow> string js" where
  "game_encode_batch X W intents =
     andThen (traverse (\<lambda>i. andThen (hx W i) (\<lambda>b.
       map_err (\<lambda>e. ''bad intent: '' @ debug_game_error e) (intent_decode b))) intents) (\<lambda>parsed.
       Ok (hexout X (encode_batch parsed)))"

definition quoted :: "string \<Rightarrow> string" where
  "quoted s = [CHR 0x22] @ s @ [CHR 0x22]"

fun joined :: "string \<Rightarrow> string list \<Rightarrow> string" where
  "joined sep [] = []"
| "joined sep [x] = x"
| "joined sep (x # y # r) = x @ sep @ joined sep (y # r)"

definition show_word :: "'a::len word \<Rightarrow> string" where
  "show_word w = show_nat (unat w)"

definition render_player :: "externals \<Rightarrow> player_entry \<Rightarrow> string" where
  "render_player X p =
     ''{'' @ quoted ''hash'' @ '':'' @ quoted (hexout X (p_hash p)) @ '','' @ quoted ''score'' @ '':'' @ show_word (p_score p) @
     '','' @ quoted ''nonce'' @ '':'' @ show_word (p_nonce p) @ ''}''"

definition game_decode_state :: "externals \<Rightarrow> wasm_crates \<Rightarrow> string \<Rightarrow> string js" where
  "game_decode_state X W data =
     andThen (hx W data) (\<lambda>d.
     andThen (map_err (\<lambda>e. ''bad state: '' @ debug_game_error e) (state_decode_wasm d)) (\<lambda>state.
       Ok (''{'' @ quoted ''seq'' @ '':'' @ show_word (gs_seq state) @ '','' @ quoted ''players'' @ '':['' @
           joined '','' (map (render_player X) (gs_players state)) @ '']}'')))"

section \<open>The channel session\<close>

record wasm_channel_tx =
  wt_tx :: string
  wt_message :: string
  wt_outpoint :: string

record close_result =
  cr_local :: string
  cr_remote :: string
  cr_settle :: wasm_channel_tx

definition wasm_channel_tx_of :: "externals \<Rightarrow> wasm_crates \<Rightarrow> channel_tx \<Rightarrow> wasm_channel_tx" where
  "wasm_channel_tx_of X W ct =
     \<lparr>wt_tx = hexout X (molecule_transaction X (ct_tx ct)), wt_message = hexout X (sdk_tx_message X (ct_tx ct)),
      wt_outpoint = hexout X (outpoint_slice W (channel_outpoint X ct))\<rparr>"

text \<open>The session a browser holds; \<open>None\<close> after \<open>close\<close> took it.\<close>

record wasm_session =
  ws_inner :: "(mock_rail, u64) channel_session option"

definition wasm_closed :: string where
  "wasm_closed = ''channel session is closed''"

definition wasm_parse_outpoint :: "wasm_crates \<Rightarrow> string \<Rightarrow> out_point js" where
  "wasm_parse_outpoint W s =
     andThen (ok_or (split_once CHR '':'' s) ''outpoint must be 0x<txhash>:<index>'') (\<lambda>(tx, idx).
     andThen (ok_or (parse_unsigned dec_value 10 (2 ^ 32) idx) (''bad outpoint index: '' @ parse_int_error W idx)) (\<lambda>n.
     andThen (arr32 W tx) (\<lambda>h. Ok \<lparr>op_tx_hash = h, op_index = of_nat n\<rparr>)))"

definition wasm_session_new :: "wasm_crates \<Rightarrow> string \<Rightarrow> string \<Rightarrow> u64 \<Rightarrow> string \<Rightarrow> string \<Rightarrow> wasm_session js" where
  "wasm_session_new W account_lock_script account_input account_capacity funding_lock_script header_dep =
     andThen (hx W account_lock_script) (\<lambda>a.
     andThen (text_result (\<lambda>e. ''invalid account lock: '' @ e) (script_from_slice W a)) (\<lambda>account_lock.
     andThen (hx W funding_lock_script) (\<lambda>f.
     andThen (text_result (\<lambda>e. ''invalid funding lock: '' @ e) (script_from_slice W f)) (\<lambda>funding_lock.
     andThen (wasm_parse_outpoint W account_input) (\<lambda>input.
     andThen (arr32 W header_dep) (\<lambda>header.
       Ok \<lparr>ws_inner = Some (channel_new
         \<lparr>cc_account_lock = account_lock, cc_account_input = input, cc_account_capacity = account_capacity,
          cc_funding_lock = funding_lock, cc_cell_deps = [], cc_header_dep = header\<rparr> mock_rail_new)\<rparr>))))))"

primrec debug_mock_error :: "mock_rail_error \<Rightarrow> string" where
  "debug_mock_error InsufficientBalance = ''InsufficientBalance''"
| "debug_mock_error UnknownChannel = ''UnknownChannel''"

primrec debug_channel_error :: "mock_rail_error channel_error \<Rightarrow> string" where
  "debug_channel_error NotOpen = ''NotOpen''"
| "debug_channel_error AlreadyOpen = ''AlreadyOpen''"
| "debug_channel_error (OverBudget remaining requested) =
     ''OverBudget { remaining: '' @ show_word remaining @ '', requested: '' @ show_word requested @ '' }''"
| "debug_channel_error (Rail e) = ''Rail('' @ debug_mock_error e @ '')''"

definition wasm_open :: "externals \<Rightarrow> wasm_crates \<Rightarrow> wasm_session \<Rightarrow> string \<Rightarrow> u64 \<Rightarrow> wasm_channel_tx js \<times> wasm_session" where
  "wasm_open X W w peer budget =
     (case ws_inner w of
        None \<Rightarrow> (Err wasm_closed, w)
      | Some s \<Rightarrow>
          (let (r, s') = channel_open X mock_ops s (peer_from_str peer) budget
           in (andThen (map_err (\<lambda>e. ''open failed: '' @ debug_channel_error e) r) (\<lambda>ct. Ok (wasm_channel_tx_of X W ct)),
               w\<lparr>ws_inner := Some s'\<rparr>)))"

definition wasm_pay :: "wasm_session \<Rightarrow> u64 \<Rightarrow> unit js \<times> wasm_session" where
  "wasm_pay w amount =
     (case ws_inner w of
        None \<Rightarrow> (Err wasm_closed, w)
      | Some s \<Rightarrow>
          (let (r, s') = channel_pay mock_ops s (ucast amount)
           in (map_err (\<lambda>e. ''pay failed: '' @ debug_channel_error e) r, w\<lparr>ws_inner := Some s'\<rparr>)))"

text \<open>\<open>self.inner.take()\<close> comes first, so the session is gone whether or not the channel was open.\<close>

definition wasm_close :: "externals \<Rightarrow> wasm_crates \<Rightarrow> wasm_session \<Rightarrow> close_result js \<times> wasm_session" where
  "wasm_close X W w =
     (case ws_inner w of
        None \<Rightarrow> (Err wasm_closed, w)
      | Some s \<Rightarrow>
          (let (r, _) = channel_close mock_ops s
           in (andThen (map_err (\<lambda>e. ''close failed: '' @ debug_channel_error e) r) (\<lambda>(st, ct).
                 Ok \<lparr>cr_local = show_word (st_local st), cr_remote = show_word (st_remote st), cr_settle = wasm_channel_tx_of X W ct\<rparr>),
               w\<lparr>ws_inner := None\<rparr>)))"

definition wasm_remaining :: "wasm_session \<Rightarrow> string js" where
  "wasm_remaining w =
     (case ws_inner w of
        None \<Rightarrow> Ok (show_word (0 :: u128))
      | Some s \<Rightarrow> andThen (no_error (channel_remaining s)) (\<lambda>r. Ok (show_word r)))"

definition wasm_spent :: "wasm_session \<Rightarrow> string" where
  "wasm_spent w = (case ws_inner w of None \<Rightarrow> show_word (0 :: u128) | Some s \<Rightarrow> show_word (channel_spent s))"

definition wasm_is_open :: "wasm_session \<Rightarrow> bool" where
  "wasm_is_open w = (case ws_inner w of None \<Rightarrow> False | Some s \<Rightarrow> channel_is_open s)"

end
