(* ===== verification/Wasm_Properties.thy ===== *)
theory Wasm_Properties
  imports Wasm Sponsor_Server Server_Properties
begin

text \<open>
  The text formats the components exchange, and what crosses from the browser to the operator and
  the type script: numbers and out-points are read back as they were written by every reader, an
  intent built in the browser is the intent the operator queues, and the board the browser computes
  is the one the type script accepts.
\<close>

section \<open>Decimal numbers\<close>

lemma digits_value_append:
  "digits_value digit radix (s @ t) n = Option.bind (digits_value digit radix s n) (digits_value digit radix t)"
  by (induction s arbitrary: n) (auto split: option.splits)

lemma dec_digit: "d < 10 \<Longrightarrow> dec_value (char_of (48 + d)) = Some d"
  by (simp add: Let_def)

lemma digits_value_show_nat: "digits_value dec_value 10 (show_nat n) 0 = Some n"
proof (induction n rule: show_nat.induct)
  case (1 n)
  show ?case
  proof (cases "n < 10")
    case True
    then show ?thesis using dec_digit[of n] by (simp add: show_nat.simps[of n] del: dec_value.simps)
  next
    case False
    then show ?thesis
      using 1 dec_digit[of "n mod 10"]
      by (simp add: show_nat.simps[of n] digits_value_append del: dec_value.simps)
  qed
qed

lemma show_nat_digits: "show_nat n \<noteq> [] \<and> (\<forall>c \<in> set (show_nat n). dec_value c \<noteq> None)"
proof (induction n rule: show_nat.induct)
  case (1 n)
  have d: "n < 10 \<Longrightarrow> dec_value (char_of (48 + n)) \<noteq> None" "dec_value (char_of (48 + n mod 10)) \<noteq> None"
    using dec_digit[of n] dec_digit[of "n mod 10"] by (simp_all del: dec_value.simps)
  show ?case
    using 1 d by (cases "n < 10") (auto simp: show_nat.simps[of n] simp del: dec_value.simps)
qed

lemma dec_value_plus: "dec_value CHR ''+'' = None" "dec_value CHR '':'' = None" "dec_value CHR ''x'' = None"
  by simp_all

lemma parse_show_nat:
  assumes "n < limit"
  shows "parse_unsigned dec_value 10 limit (show_nat n) = Some n"
proof -
  obtain c cs where s: "show_nat n = c # cs" using show_nat_digits[of n] by (cases "show_nat n") auto
  then have "c \<noteq> CHR ''+''" using show_nat_digits[of n] dec_value_plus(1) by (metis list.set_intros(1))
  then have "(case show_nat n of c # cs \<Rightarrow> if c = CHR ''+'' then cs else show_nat n | [] \<Rightarrow> []) = show_nat n"
    by (simp add: s)
  then show ?thesis
    using assms digits_value_show_nat[of n] show_nat_digits[of n] unfolding parse_unsigned_def by simp
qed

section \<open>Hex text\<close>

text \<open>Documented of the crate hex: its text consists of hex digits and reads back.\<close>

definition hex_digits :: "externals \<Rightarrow> bool" where
  "hex_digits X \<longleftrightarrow> (\<forall>b. list_all (\<lambda>c. hex_value c \<noteq> None) (hex_encode X b))"

definition hex_reads :: "externals \<Rightarrow> (string \<Rightarrow> bytes option) \<Rightarrow> bool" where
  "hex_reads X rd \<longleftrightarrow> hex_digits X \<and> (\<forall>b. rd (hex_encode X b) = Some b)"

text \<open>Documented of \<open>H256::from_str\<close>: it reads the 64 digits of a 32-byte hash.\<close>

definition hash_reads :: "externals \<Rightarrow> (string \<Rightarrow> bytes option) \<Rightarrow> bool" where
  "hash_reads X rd \<longleftrightarrow> hex_digits X \<and> (\<forall>b. length b = 32 \<longrightarrow> rd (hex_encode X b) = Some b)"

definition right_opt :: "'a + 'b \<Rightarrow> 'b option" where
  "right_opt m = (case m of Inl _ \<Rightarrow> None | Inr x \<Rightarrow> Some x)"

lemma right_opt_Some [simp]: "right_opt m = Some x \<longleftrightarrow> m = Inr x"
  by (cases m) (auto simp: right_opt_def)

lemma hex_chars: "hex_value CHR ''x'' = None" "hex_value CHR '':'' = None"
  by simp_all

lemma trim_no_x: "CHR ''x'' \<notin> set t \<Longrightarrow> trim_0x t = t"
  by (induction t rule: trim_0x.induct) auto

lemma hex_readsD: "hex_reads X rd \<Longrightarrow> hex_digits X" "hash_reads X rd \<Longrightarrow> hex_digits X"
  by (simp_all add: hex_reads_def hash_reads_def)

lemma hex_no_mark:
  assumes "hex_digits X"
  shows "CHR ''x'' \<notin> set (hex_encode X b)" "CHR '':'' \<notin> set (hex_encode X b)"
  using assms hex_chars unfolding hex_digits_def list_all_iff by (metis)+

lemma trim_hex: "hex_digits X \<Longrightarrow> trim_0x (''0x'' @ hex_encode X b) = hex_encode X b"
  using trim_no_x[OF hex_no_mark(1)] by simp

lemma trim_hex_bare: "hex_digits X \<Longrightarrow> trim_0x (hex_encode X b) = hex_encode X b"
  using trim_no_x[OF hex_no_mark(1)] by simp

lemma hx_hexout: "hex_reads X (\<lambda>s. right_opt (wc_hex_decode W s)) \<Longrightarrow> hx W (hexout X b) = Ok b"
  using trim_hex[of X b] by (simp add: hx_def hexout_def hex_reads_def)

lemma arr_hexout:
  assumes "hex_reads X (\<lambda>s. right_opt (wc_hex_decode W s))"
  shows "length b = 20 \<Longrightarrow> arr20 W (hexout X b) = Ok b" "length b = 32 \<Longrightarrow> arr32 W (hexout X b) = Ok b"
  using hx_hexout[OF assms] by (simp_all add: arr20_def arr32_def sized_def)

lemma split_once_first:
  assumes "c \<notin> set s"
  shows "split_once c (s @ c # t) = Some (s, t)"
proof -
  have "dropWhile (\<lambda>x. x \<noteq> c) (s @ c # t) = c # t" "takeWhile (\<lambda>x. x \<noteq> c) (s @ c # t) = s"
    using assms by (induction s) auto
  then show ?thesis by (simp add: split_once_def)
qed

section \<open>Out-points\<close>

lemma outpoint_str_split:
  assumes "hex_digits X"
  shows "split_once CHR '':'' (outpoint_str X p) = Some (''0x'' @ hex_encode X (op_tx_hash p), show_nat (unat (op_index p)))"
  using split_once_first[of "CHR '':''" "''0x'' @ hex_encode X (op_tx_hash p)" "show_nat (unat (op_index p))"] hex_no_mark(2)[OF assms]
  by (simp add: outpoint_str_def)

lemma index_reads: "parse_unsigned dec_value 10 (2 ^ 32) (show_nat (unat (i :: u32))) = Some (unat i)"
  using unat_less_2p[of i] by (intro parse_show_nat) simp

lemma show_nat_no_mark: "take 2 (show_nat n) \<noteq> ''0x''"
proof
  assume h: "take 2 (show_nat n) = ''0x''"
  then have "CHR ''x'' \<in> set (take 2 (show_nat n))" by simp
  then have "CHR ''x'' \<in> set (show_nat n)" by (rule in_set_takeD)
  then show False using show_nat_digits[of n] dec_value_plus(3) by blast
qed

lemma operator_reads_outpoint:
  assumes "hash_reads X (h256_from_str H)" and "length (op_tx_hash p) = 32"
  shows "parse_outpoint H (outpoint_str X p) = Ok p"
  using assms outpoint_str_split[OF hex_readsD(2)[OF assms(1)], of p] index_reads[of "op_index p"]
    show_nat_no_mark[of "unat (op_index p)"] trim_hex_bare[OF hex_readsD(2)[OF assms(1)]]
  by (simp add: parse_outpoint_def Let_def hash_reads_def)

lemma relay_reads_outpoint:
  assumes "hash_reads X (h256_from_str H)" and "length (op_tx_hash p) = 32"
  shows "outpoint_from_str H (outpoint_str X p) = Ok p"
  using assms outpoint_str_split[OF hex_readsD(2)[OF assms(1)], of p] index_reads[of "op_index p"]
    trim_hex_bare[OF hex_readsD(2)[OF assms(1)]]
  by (simp add: outpoint_from_str_def hash_reads_def)

lemma browser_reads_outpoint:
  assumes "hex_reads X (\<lambda>s. right_opt (wc_hex_decode W s))" and "length (op_tx_hash p) = 32"
  shows "wasm_parse_outpoint W (outpoint_str X p) = Ok p"
  using outpoint_str_split[OF hex_readsD(1)[OF assms(1)], of p] index_reads[of "op_index p"] arr_hexout(2)[OF assms(1) assms(2)]
  by (simp add: wasm_parse_outpoint_def hexout_def)

section \<open>Across the components\<close>

lemma operator_hex_bytes:
  assumes "hex_reads X (\<lambda>s. right_opt (decode_hex_text C s))"
  shows "hex_bytes C (hexout X b) = Inr b"
  using trim_hex[OF hex_readsD(1)[OF assms], of b] assms by (simp add: hex_bytes_def hexout_def hex_reads_def)

lemma encoded_intent:
  assumes W: "hex_reads X (\<lambda>s. right_opt (wc_hex_decode W s))"
    and enc: "game_encode_intent X W h_hex points nonce sg_hex = Ok s"
  obtains i where "hx W h_hex = Ok (i_hash i)" "i_points i = points" "i_nonce i = nonce" "hx W sg_hex = Ok (i_sig i)"
    "wf_intent i" "s = hexout X (intent_encode i)"
proof -
  from enc obtain sg h where "hx W sg_hex = Ok sg" "length sg = SIGNATURE_LEN" "hx W h_hex = Ok h" "length h = 20"
    "s = hexout X (intent_encode \<lparr>i_hash = h, i_points = points, i_nonce = nonce, i_sig = sg\<rparr>)"
    by (auto simp: game_encode_intent_def arr20_def sized_def result_simps split: if_splits)
  then show ?thesis
    by (intro that[of "\<lparr>i_hash = h, i_points = points, i_nonce = nonce, i_sig = sg\<rparr>"]) (simp_all add: wf_intent_def)
qed

lemma handle_intent_submits:
  assumes C: "hex_reads X (\<lambda>s. right_opt (decode_hex_text C s))" and i: "wf_intent i"
    and body: "parse_json C body = Inr req" "str_field req ''intent'' = Some (hexout X (intent_encode i))"
  shows "fst (snd (handle_intent X C send fin now op n body)) =
     (case submit op i of
        (Inl _, op') \<Rightarrow> op'
      | (Inr _, op') \<Rightarrow> fst (snd (flush_or_shed X send fin op' n)))"
proof -
  obtain r op' where sub: "submit op i = (r, op')" by (cases "submit op i") blast
  obtain r2 op2 n2 where fl: "flush_or_shed X send fin op' n = (r2, op2, n2)" by (metis prod_cases3)
  show ?thesis
    unfolding handle_intent_def body operator_hex_bytes[OF C] intent.dec_enc[OF i] Let_def sub fl sum.case option.case prod.case
    by (cases r; cases r2) (simp_all only: sum.case prod.case fst_conv snd_conv fl)
qed

lemma wasm_state_decodes:
  assumes "state_decode d = Ok s" and "length d < 2 ^ 32"
  shows "state_decode_wasm d = Ok s"
proof -
  define count where "count = unat (from_le (take 4 (drop 8 d)) :: u32)"
  have fits: "\<not> (STATE_HEADER_LEN \<le> length d \<and> 2 ^ 32 \<le> STATE_HEADER_LEN + count * ENTRY_LEN)"
  proof
    assume l: "STATE_HEADER_LEN \<le> length d \<and> 2 ^ 32 \<le> STATE_HEADER_LEN + count * ENTRY_LEN"
    then have "d \<noteq> []" by (auto simp: STATE_HEADER_LEN_def)
    then have "length d = STATE_HEADER_LEN + count * ENTRY_LEN"
      unfolding count_def by (rule state_decode_OkE[OF _ assms(1) refl]) 
    then show False using l assms(2) by (metis not_less)
  qed
  show ?thesis unfolding state_decode_wasm_def count_def[symmetric] if_not_P[OF fits] by (rule assms(1))
qed

lemma state_encode_length: "wf_state s \<Longrightarrow> length (state_encode s) = STATE_HEADER_LEN + length (gs_players s) * ENTRY_LEN"
  using entry.concat_length[of "gs_players s"]
  by (simp add: state_encode_def wf_state_def list_all_iff STATE_HEADER_LEN_def)

lemma wasm_state_small:
  assumes "state_decode_wasm d = Ok s"
  shows "state_decode d = Ok s" "length (gs_players s) < 2 ^ 31"
proof -
  define count where "count = unat (from_le (take 4 (drop 8 d)) :: u32)"
  have ok: "\<not> (STATE_HEADER_LEN \<le> length d \<and> 2 ^ 32 \<le> STATE_HEADER_LEN + count * ENTRY_LEN)" and d: "state_decode d = Ok s"
    using assms unfolding state_decode_wasm_def count_def[symmetric] by (auto split: if_split_asm)
  show "state_decode d = Ok s" by (rule d)
  show "length (gs_players s) < 2 ^ 31"
  proof (cases "d = []")
    case True
    then have "gs_players s = []" using d by (auto simp: state_decode_def empty_state_def)
    then show ?thesis by simp
  next
    case False
    have l: "length d = STATE_HEADER_LEN + count * ENTRY_LEN"
      unfolding count_def by (rule state_decode_OkE[OF False d refl])
    then have "length d < 2 ^ 32" using ok by (metis le_add1 not_less)
    moreover have "length d = STATE_HEADER_LEN + length (gs_players s) * ENTRY_LEN"
      using state_encode_length[of s] state_decode_sound[OF False d] by simp
    ultimately show ?thesis by (simp add: STATE_HEADER_LEN_def ENTRY_LEN_def)
  qed
qed

lemma browser_step:
  assumes W: "hex_reads X (\<lambda>s. right_opt (wc_hex_decode W s))"
    and run: "game_apply X W (hexout X d) (hexout X b) = Ok out"
  obtains s t xs where "state_decode d = Ok s" "decode_batch b = Ok xs" "apply_batch s xs = (Ok (), t)"
    "out = hexout X (state_encode t)" "state_decode (state_encode t) = Ok t"
proof -
  from run obtain s xs t where s: "state_decode_wasm d = Ok s" and xs: "decode_batch b = Ok xs"
    and t: "apply_batch s xs = (Ok (), t)" and out: "out = hexout X (state_encode t)"
    by (auto simp: game_apply_def hx_hexout[OF W] result_simps Let_def case_prod_beta) (metis prod.collapse)
  have b: "wf_batch xs" using decode_batch_sound[OF xs] by simp
  have "length (gs_players s) + length xs < 2 ^ 32"
    using wasm_state_small(2)[OF s] b by (simp add: wf_batch_def)
  then have "wf_state t" by (rule apply_batch_wf[OF t decoded_wf[OF wasm_state_small(1)[OF s]] b])
  then show ?thesis using that[OF wasm_state_small(1)[OF s] xs t out] state_decode_encode by blast
qed

section \<open>Properties\<close>

text \<open>
  An out-point the relay prints is read back as it was by the operator's, the relay's and the
  browser's parsers alike.
\<close>

theorem outpoint_text_agrees:
  assumes "hash_reads X (h256_from_str H)" and "hex_reads X (\<lambda>s. right_opt (wc_hex_decode W s))"
    and "length (op_tx_hash p) = 32"
  shows "parse_outpoint H (outpoint_str X p) = Ok p \<and> outpoint_from_str H (outpoint_str X p) = Ok p \<and>
     wasm_parse_outpoint W (outpoint_str X p) = Ok p"
  using operator_reads_outpoint[OF assms(1,3)] relay_reads_outpoint[OF assms(1,3)] browser_reads_outpoint[OF assms(2,3)]
  by simp

lemma sample_digit:
  assumes "n < 16"
  shows "hex_value (hex_digit n) = Some n \<and> hex_digit n \<noteq> CHR ''+'' \<and> \<not> continuation (of_char (hex_digit n))"
proof -
  from assms have "n \<in> {0, 1, 2, 3, 4, 5, 6, 7, 8, 9, 10, 11, 12, 13, 14, 15}"
    by (simp only: insert_iff empty_iff) presburger
  then show ?thesis by (auto simp: hex_digit_def continuation_def)
qed

lemma sample_pair: "u8_from_hex (hex_digit (unat x div 16)) (hex_digit (unat x mod 16)) = Some (x :: byte)"
proof -
  have "unat x div 16 < 16" using unat_byte_less[of x] by linarith
  then show ?thesis
    using sample_digit[of "unat x div 16"] sample_digit[of "unat x mod 16"]
    by (simp add: u8_from_hex_def del: hex_value.simps)
qed

lemma sample_boundary: "char_boundary (sample_hex b)"
proof (cases b)
  case (Cons x r)
  have "unat x div 16 < 16" using unat_byte_less[of x] by linarith
  then show ?thesis using Cons sample_digit[of "unat x div 16"] by (simp add: char_boundary_def sample_hex_def)
qed (simp add: char_boundary_def sample_hex_def)

lemma decode_sample_hex: "decode_hex (sample_hex b) = Ok b"
proof -
  have "decode_hex_pairs (sample_hex b) = Ok b"
  proof (induction b)
    case (Cons x r)
    have eq: "sample_hex (x # r) = hex_digit (unat x div 16) # hex_digit (unat x mod 16) # sample_hex r"
      by (simp add: sample_hex_def)
    show ?case using Cons sample_boundary[of "x # r"] sample_boundary[of r] by (simp add: eq sample_pair)
  qed (simp add: sample_hex_def)
  then show ?thesis by (simp add: decode_hex_def length_sample_hex)
qed

definition hex_or_text :: "string \<Rightarrow> string + bytes" where
  "hex_or_text s = (case decode_hex s of Inl f \<Rightarrow> Inl ''Odd'' | Inr b \<Rightarrow> Inr b)"

definition sample_wasm :: wasm_crates where
  "sample_wasm =
     \<lparr>wc_hex_decode = hex_or_text, script_from_slice = (\<lambda>b. Inr sample_fee_lock), script_slice = flat_script,
      transaction_from_slice = (\<lambda>b. Inl []), outpoint_slice = op_tx_hash, bech32m_encode = (\<lambda>h b. Inr h),
      parse_int_error = (\<lambda>s. [])\<rparr>"

lemma sample_hex_digits: "hex_digits sample_externals"
proof -
  have "unat (x :: byte) div 16 < 16" for x using unat_byte_less[of x] by linarith
  then show ?thesis
    using sample_digit by (auto simp: hex_digits_def list_all_iff sample_hex_def simp del: hex_value.simps)
qed

lemma sample_hex_reads: "hex_reads sample_externals (\<lambda>s. right_opt (wc_hex_decode sample_wasm s))"
  using sample_hex_digits by (simp add: hex_reads_def sample_wasm_def hex_or_text_def decode_sample_hex)

lemma outpoint_text_agrees_witness:
  "wasm_parse_outpoint sample_wasm (outpoint_str sample_externals \<lparr>op_tx_hash = replicate 32 7, op_index = 12\<rparr>) =
     Ok \<lparr>op_tx_hash = replicate 32 7, op_index = 12\<rparr>"
proof -
  have "hash_reads sample_externals (h256_from_str (sample_http\<lparr>h256_from_str := (\<lambda>s. right_opt (decode_hex s))\<rparr>))"
    using sample_hex_digits by (simp add: hash_reads_def decode_sample_hex)
  from outpoint_text_agrees[OF this sample_hex_reads, of "\<lparr>op_tx_hash = replicate 32 7, op_index = 12\<rparr>"] show ?thesis by simp
qed

text \<open>
  C33: an intent built in the browser and posted to the operator is submitted with exactly the
  fields the player gave: the operator's queue changes as submitting that intent changes it, and
  what the type script will ask of its signature is that it verifies for the message the browser
  showed the player.
\<close>

theorem browser_intent_submitted:
  assumes "hex_reads X (\<lambda>s. right_opt (wc_hex_decode W s))" and "hex_reads X (\<lambda>s. right_opt (decode_hex_text C s))"
    and "game_encode_intent X W h_hex points nonce sg_hex = Ok s"
    and "wasm_game_intent_message X W (hexout X g) h_hex points nonce = Ok (hexout X m)"
    and "parse_json C body = Inr req" and "str_field req ''intent'' = Some s"
  shows "\<exists>i. hx W h_hex = Ok (i_hash i) \<and> i_points i = points \<and> i_nonce i = nonce \<and> hx W sg_hex = Ok (i_sig i) \<and>
     fst (snd (handle_intent X C send fin now op n body)) =
       (case submit op i of (Inl _, op') \<Rightarrow> op' | (Inr _, op') \<Rightarrow> fst (snd (flush_or_shed X send fin op' n))) \<and>
     (intent_signed X V g i \<longleftrightarrow> ckb_auth_accepts X V AUTH_ID (i_sig i) m (i_hash i))"
proof -
  obtain i where i: "hx W h_hex = Ok (i_hash i)" "i_points i = points" "i_nonce i = nonce" "hx W sg_hex = Ok (i_sig i)"
    "wf_intent i" "s = hexout X (intent_encode i)"
    by (rule encoded_intent[OF assms(1,3)])
  have inj: "hexout X a = hexout X b \<Longrightarrow> a = b" for a b
    using hx_hexout[OF assms(1)] by (metis sum.inject(2))
  have "hexout X (intent_message (blake2b_256 X) g (i_hash i) points nonce) = hexout X m"
    using assms(4) i(1) hx_hexout[OF assms(1), of g]
    by (auto simp: wasm_game_intent_message_def arr32_def arr20_def sized_def result_simps split: if_splits)
  then have "intent_message (blake2b_256 X) g (i_hash i) (i_points i) (i_nonce i) = m" using inj i(2,3) by simp
  moreover note handle_intent_submits[OF assms(2) i(5) assms(5) assms(6)[unfolded i(6)], of send fin now op n]
  ultimately show ?thesis using i(1-4) by (auto simp: intent_signed_def)
qed

definition browser_server_crates :: server_crates where
  "browser_server_crates =
     \<lparr>parse_json = (\<lambda>s. Inr (JObj [(''intent'', JStr s)])), show_json = (\<lambda>j. []), decode_hex_text = hex_or_text,
      debug_operator_error = (\<lambda>e. [])\<rparr>"

lemma browser_hex_reads: "hex_reads sample_externals (\<lambda>s. right_opt (decode_hex_text browser_server_crates s))"
  using sample_hex_digits by (simp add: hex_reads_def browser_server_crates_def hex_or_text_def decode_sample_hex)

lemma browser_intent_submitted_witness:
  "\<exists>i. i_hash i = replicate 20 1 \<and> i_points i = 5 \<and>
     fst (snd (handle_intent sample_externals browser_server_crates (mock_send sample_externals) Inr 0 sample_operator 0
       (hexout sample_externals (intent_encode signed_intent)))) =
     (case submit sample_operator i of (Inl _, op') \<Rightarrow> op'
      | (Inr _, op') \<Rightarrow> fst (snd (flush_or_shed sample_externals (mock_send sample_externals) Inr op' 0)))"
proof -
  have sg: "i_sig signed_intent = sample_sign (replicate 20 1) (intent_message sample_hash (replicate 32 6) (replicate 20 1) 5 1)"
    and f: "i_hash signed_intent = replicate 20 1" "i_points signed_intent = 5" "i_nonce signed_intent = 1"
    by (simp_all add: signed_intent_def sample_intent_def)
  have wf: "wf_intent signed_intent" using wf_signed_batch by (simp add: wf_batch_def)
  have enc: "game_encode_intent sample_externals sample_wasm (hexout sample_externals (replicate 20 1)) 5 1
      (hexout sample_externals (i_sig signed_intent)) = Ok (hexout sample_externals (intent_encode signed_intent))"
    using wf f by (simp add: game_encode_intent_def hx_hexout[OF sample_hex_reads] arr_hexout(1)[OF sample_hex_reads] sized_def wf_intent_def
        intent_encode_def)
  have msg: "wasm_game_intent_message sample_externals sample_wasm (hexout sample_externals (replicate 32 6))
      (hexout sample_externals (replicate 20 1)) 5 1 =
      Ok (hexout sample_externals (intent_message sample_hash (replicate 32 6) (replicate 20 1) 5 1))"
    by (simp add: wasm_game_intent_message_def arr_hexout[OF sample_hex_reads])
  have body: "parse_json browser_server_crates s = Inr (JObj [(''intent'', JStr s)])"
    "str_field (JObj [(''intent'', JStr s)]) ''intent'' = Some s" for s
    by (simp_all add: browser_server_crates_def str_field_def)
  from browser_intent_submitted[OF sample_hex_reads browser_hex_reads enc msg body,
      where send = "mock_send sample_externals" and fin = Inr and now = 0 and op = sample_operator and n = 0 and V = "game_vm step_view"]
  obtain i where "Ok (replicate 20 1) = (Ok (i_hash i) :: bytes js)" "i_points i = 5"
    "fst (snd (handle_intent sample_externals browser_server_crates (mock_send sample_externals) Inr 0 sample_operator 0
       (hexout sample_externals (intent_encode signed_intent)))) =
     (case submit sample_operator i of (Inl _, op') \<Rightarrow> op'
      | (Inr _, op') \<Rightarrow> fst (snd (flush_or_shed sample_externals (mock_send sample_externals) Inr op' 0)))"
    unfolding hx_hexout[OF sample_hex_reads] by blast
  then show ?thesis by (intro exI[of _ i]) simp
qed

text \<open>
  C34: the board the browser computes for a batch is the one the type script recomputes: the data it
  returns is a legal next cell for exactly the batches whose intents are all signed.
\<close>

theorem browser_board_accepted:
  assumes "hex_reads X (\<lambda>s. right_opt (wc_hex_decode W s))"
    and "game_apply X W (hexout X d) (hexout X b) = Ok out"
  shows "\<exists>xs d'. decode_batch b = Ok xs \<and> out = hexout X d' \<and>
     (legal_step X V g d xs d' \<longleftrightarrow> list_all (intent_signed X V g) xs)"
proof (rule browser_step[OF assms])
  fix s t xs
  assume s: "state_decode d = Ok s" and xs: "decode_batch b = Ok xs" and t: "apply_batch s xs = (Ok (), t)"
    and out: "out = hexout X (state_encode t)" "state_decode (state_encode t) = Ok t"
  have "legal_step X V g d xs (state_encode t) \<longleftrightarrow> list_all (intent_signed X V g) xs"
    using s t out(2) by (auto simp: legal_step_def equals_unordered_iff)
  then show ?thesis using xs out(1) by blast
qed

lemma browser_apply_sample:
  "game_apply sample_externals sample_wasm (hexout sample_externals []) (hexout sample_externals (encode_batch [signed_intent])) =
     Ok (hexout sample_externals (state_encode one_player))"
  by (simp add: game_apply_def hx_hexout[OF sample_hex_reads] state_decode_wasm_def STATE_HEADER_LEN_def state_decode_def
      decode_batch_encode[OF wf_signed_batch] apply_batch_signed)

lemma browser_board_accepted_witness:
  "\<exists>d'. hexout sample_externals (state_encode one_player) = hexout sample_externals d' \<and>
     legal_step sample_externals (game_vm step_view) (replicate 32 6) [] [signed_intent] d'"
  using browser_board_accepted[OF sample_hex_reads browser_apply_sample, of "game_vm step_view" "replicate 32 6"]
    signed_intent_signed[of step_view]
  by (auto simp: decode_batch_encode[OF wf_signed_batch])

text \<open>
  A close before the channel is open takes the session away: the call fails, and so does every
  later one.
\<close>

theorem close_before_open_destroys:
  assumes "wasm_session_new W account_lock account_input capacity funding_lock header = Ok w"
  shows "\<exists>e w'. wasm_close X W w = (Err e, w') \<and> wasm_open X W w' peer budget = (Err wasm_closed, w') \<and>
     wasm_pay w' amount = (Err wasm_closed, w') \<and> wasm_close X W w' = (Err wasm_closed, w')"
  using assms by (auto simp: wasm_session_new_def result_simps wasm_close_def channel_close_def channel_new_def
      wasm_open_def wasm_pay_def)

end
