(* ===== verification/Chain_Properties.thy ===== *)
theory Chain_Properties
  imports Server_Properties
begin

text \<open>
  The operator's server against a chain that runs the game cell's type script.  What the server
  relies on is the locale \<open>game_chain\<close>: a transaction that moves the live game cell is accepted only
  if the script accepts it, and then the cell is its first output.  The server's tip is then the
  live cell at every moment, and the cell's life is one of the histories of Game\_History.
\<close>

section \<open>The chain\<close>

text \<open>A transaction whose only input is the given cell and that has one output.\<close>

definition moves_cell :: "transaction \<Rightarrow> out_point \<Rightarrow> bool" where
  "moves_cell tx op \<longleftrightarrow>
     map ci_previous_output (rt_inputs (tx_raw tx)) = [op] \<and> length (rt_outputs_data (tx_raw tx)) = 1"

definition script_passes ::
  "externals \<Rightarrow> sighash_crates \<Rightarrow> vm \<Rightarrow> script \<Rightarrow> bytes \<Rightarrow> bytes \<Rightarrow> transaction \<Rightarrow> bool" where
  "script_passes X S base scr scr_hash d tx \<longleftrightarrow>
     game_verify X (script_vm base (transition_view S scr scr_hash d tx)) = Ok ()"

text \<open>
  The live game cell of a node's state is its out-point and its data.  A responsive chain accepts
  every transaction that moves the cell and passes the script.
\<close>

locale game_chain = node X send for X :: externals and send :: "'n send" +
  fixes S :: sighash_crates and base :: vm and scr :: script and scr_hash :: bytes
    and live :: "'n \<Rightarrow> out_point \<times> bytes"
  assumes refused: "send tx n = (Inl f, n') \<Longrightarrow> live n' = live n \<and> f \<noteq> Panic"
    and accepted: "send tx n = (Ok h, n') \<Longrightarrow> moves_cell tx (fst (live n)) \<Longrightarrow>
      script_passes X S base scr scr_hash (snd (live n)) tx \<and>
      live n' = (\<lparr>op_tx_hash = h, op_index = 0\<rparr>, hd (rt_outputs_data (tx_raw tx)))"

locale responsive_chain = game_chain +
  assumes responsive: "moves_cell tx (fst (live n)) \<Longrightarrow> script_passes X S base scr scr_hash (snd (live n)) tx \<Longrightarrow>
      is_ok (fst (send tx n))"

text \<open>
  The operator is in step with the chain: its tip is the live cell, whose life since some history
  \<open>log\<close> was extended by \<open>fresh\<close> intents, each signed by its player.
\<close>

definition in_step_with ::
  "externals \<Rightarrow> vm \<Rightarrow> bytes \<Rightarrow> ('n \<Rightarrow> out_point \<times> bytes) \<Rightarrow> intent list \<Rightarrow> game_operator \<Rightarrow> 'n \<Rightarrow> intent list \<Rightarrow> bool" where
  "in_step_with X base g live log op n fresh \<longleftrightarrow>
     go_game_id op = g \<and> list_all wf_intent (go_mempool op) \<and>
     fst (live n) = gt_out_point (go_tip op) \<and> state_decode (snd (live n)) = Ok (gt_state (go_tip op)) \<and>
     game_history X g (snd (live n)) (log @ fresh) \<and> list_all (intent_signed X base g) fresh"

lemma in_stepI:
  assumes "in_step_with X base g live log op n fresh" and "go_tip op' = go_tip op" and "go_game_id op' = go_game_id op"
    and "list_all wf_intent (go_mempool op')" and "live n' = live n"
  shows "in_step_with X base g live log op' n' fresh"
  using assms by (simp add: in_step_with_def)

lemma submit_mempool: "submit op i = (r, op') \<Longrightarrow> op' = op \<or> r = Ok () \<and> op' = op\<lparr>go_mempool := go_mempool op @ [i]\<rparr>"
  by (auto simp: submit_def split: prod.splits sum.splits)

lemma submit_in_step:
  assumes "in_step_with X base g live log op n fresh" and "submit op i = (r, op')" and "wf_intent i"
  shows "in_step_with X base g live log op' n fresh"
  using assms submit_mempool[OF assms(2)] by (auto simp: in_step_with_def)

section \<open>The batch the script reads is the queue\<close>

lemma length_encode_batch: "list_all wf_intent xs \<Longrightarrow> length (encode_batch xs) = 2 + length xs * INTENT_LEN"
  using intent.concat_length[of xs] by (simp add: encode_batch_def list_all_iff)

lemma decoded_is_queue:
  assumes "list_all wf_intent xs" and "decode_batch (encode_batch xs) = Ok ys"
  shows "ys = xs \<and> wf_batch xs"
proof -
  have ys: "wf_batch ys" "encode_batch ys = encode_batch xs" using decode_batch_sound[OF assms(2)] by simp_all
  then have "length xs = length ys"
    using length_encode_batch[OF assms(1)] length_encode_batch[of ys] by (simp add: wf_batch_def INTENT_LEN_def)
  then have "wf_batch xs" using assms(1) ys(1) by (simp add: wf_batch_def)
  then show ?thesis using decode_batch_encode assms(2) by simp
qed

lemma length_state_encode: "list_all wf_entry (gs_players s) \<Longrightarrow> length (state_encode s) = STATE_HEADER_LEN + length (gs_players s) * ENTRY_LEN"
  using entry.concat_length[of "gs_players s"] by (simp add: state_encode_def list_all_iff STATE_HEADER_LEN_def)

lemma decoded_is_next:
  assumes "list_all wf_entry (gs_players s)" and "state_decode (state_encode s) = Ok u"
  shows "u = s"
proof -
  have u: "wf_state u" "state_encode u = state_encode s"
    using state_decode_sound[OF state_encode_nonempty assms(2)] by simp_all
  then have "length (gs_players s) = length (gs_players u)"
    using length_state_encode[OF assms(1)] length_state_encode[of u] by (simp add: wf_state_def ENTRY_LEN_def)
  then have "wf_state s" using assms(1) u(1) by (simp add: wf_state_def)
  then show ?thesis using state_decode_encode assms(2) by simp
qed

section \<open>Every operation keeps in step\<close>

lemma transition_view_fields:
  "gv_in (transition_view S scr sh d tx) = [d]" "gv_out (transition_view S scr sh d tx) = rt_outputs_data (tx_raw tx)"
  "gv_input_types (transition_view S scr sh d tx) = [Some sh]" "gv_script_hash (transition_view S scr sh d tx) = sh"
  "gv_witness (transition_view S scr sh d tx) = witness_at S tx" "game_id_of (transition_view S scr sh d tx) = s_args scr"
  by (simp_all add: transition_view_def game_id_of_def)

lemma transition_vm_runs:
  "length (rt_outputs_data (tx_raw tx)) = 1 \<Longrightarrow>
   game_runs_on (script_vm base (transition_view S scr sh d tx)) (transition_view S scr sh d tx)"
  by (rule script_vm_runs) (simp_all add: transition_view_fields usize_limit_def)

context game_chain
begin

lemma built_moves_cell:
  assumes t: "build_transition X op = Ok t" and raw: "tx_raw tx = tx_raw (tr_tx t)"
  shows "moves_cell tx (gt_out_point (go_tip op))"
  by (simp add: moves_cell_def raw build_transition_okD(6)[OF t])

lemma flush_failure_live:
  assumes "flush X send fin op n = (Inl f, op', n')"
  shows "op' = op" "live n' = live n"
  using assms refused by (auto simp: flush_def split: sum.splits prod.splits)

lemma flush_success:
  assumes X: "hex_is_text X" and rt: "witness_roundtrip X S"
    and step: "in_step_with X base (s_args scr) live log op n fresh"
    and run: "flush X send (sign_sighash_all X S sk) op n = (Ok h, op', n')"
  shows "in_step_with X base (s_args scr) live log op' n' (fresh @ go_mempool op)"
proof -
  obtain t s where t: "build_transition X op = Ok t" and s: "sign_sighash_all X S sk (tr_tx t) = Inr s"
    and sent: "send s n = (Ok h, n')"
    and op': "op' = op\<lparr>go_tip := \<lparr>gt_out_point = \<lparr>op_tx_hash = h, op_index = 0\<rparr>, gt_output = tr_next_output t,
       gt_state = tr_next_state t\<rparr>, go_mempool := []\<rparr>"
    using run by (auto elim!: flush_cases)
  note t' = build_transition_okD[OF t]
  define d where "d = snd (live n)"
  let ?v = "transition_view S scr scr_hash d s" and ?V = "script_vm base (transition_view S scr scr_hash d s)"
  note raw = signed_transition_parts(1)[OF rt t s]
  have out: "rt_outputs_data (tx_raw s) = [state_encode (tr_next_state t)]" by (simp add: raw t'(6))
  have live: "script_passes X S base scr scr_hash d s \<and>
      live n' = (\<lparr>op_tx_hash = h, op_index = 0\<rparr>, state_encode (tr_next_state t))"
    using accepted[OF sent] built_moves_cell[OF t raw] step by (simp add: in_step_with_def d_def out)
  have V: "game_runs_on ?V ?v" by (rule transition_vm_runs) (simp add: out)
  have ok: "game_verify X ?V = Ok ()" using live by (simp add: script_passes_def)
  have batch: "batch_of ?v = Some (encode_batch (go_mempool op))"
    using signed_transition_parts(2)[OF rt t s] by (auto simp: batch_of_def transition_view_fields)
  obtain ys where ys: "decode_batch (encode_batch (go_mempool op)) = Ok ys"
    and legal: "legal_step X ?V (s_args scr) d ys (state_encode (tr_next_state t))"
    using game_verify_refines[OF X V] ok by (auto simp: game_accepts_def transition_view_fields batch out)
  have queue: "ys = go_mempool op" "wf_batch (go_mempool op)"
    using decoded_is_queue[OF _ ys] step by (simp_all add: in_step_with_def)
  have tip: "state_decode d = Ok (gt_state (go_tip op))" using step by (simp add: in_step_with_def d_def)
  obtain q z where "apply_intents (gt_state (go_tip op)) (go_mempool op) = (Ok (), q)" "tr_next_state t = q\<lparr>gs_seq := z\<rparr>"
    using t'(1) by (rule apply_batch_okE)
  then have "list_all wf_entry (gs_players (tr_next_state t))"
    using apply_intents_wf[of "gt_state (go_tip op)" "go_mempool op" q] decoded_wf[OF tip] queue(2)
    by (simp add: wf_state_def wf_batch_def)
  then have decoded: "state_decode (state_encode (tr_next_state t)) = Ok (tr_next_state t)"
    using legal decoded_is_next[of "tr_next_state t"] by (auto simp: legal_step_def)
  have "game_history X (s_args scr) (state_encode (tr_next_state t)) ((log @ fresh) @ go_mempool op)"
    by (rule advanced[where V = ?V and v = ?v])
       (use step ok V batch ys queue in \<open>simp_all add: in_step_with_def transition_view_fields out d_def\<close>)
  moreover have "list_all (intent_signed X base (s_args scr)) (go_mempool op)"
    using legal by (simp add: legal_step_def queue(1))
  ultimately show ?thesis
    using step live decoded by (simp add: in_step_with_def op')
qed

lemma flush_or_shed_in_step:
  assumes X: "hex_is_text X" and rt: "witness_roundtrip X S"
    and step: "in_step_with X base (s_args scr) live log op n fresh"
    and run: "flush_or_shed X send (sign_sighash_all X S sk) op n = (r, op', n')"
  shows "\<exists>fresh'. in_step_with X base (s_args scr) live log op' n' fresh'"
proof -
  obtain r1 o1 n1 where f: "flush X send (sign_sighash_all X S sk) op n = (r1, o1, n1)" by (metis prod_cases3)
  obtain fresh' where s: "in_step_with X base (s_args scr) live log o1 n1 fresh'"
  proof (cases r1)
    case (Inl e)
    then have "o1 = op" "live n1 = live n" using flush_failure_live[of _ op n e o1 n1] f by blast+
    then show thesis using that[of fresh] step by (simp add: in_step_with_def)
  next
    case (Inr h)
    show thesis by (rule that[OF flush_success[OF X rt step f[unfolded Inr]]])
  qed
  have "n' = n1 \<and> (op' = o1 \<or> op' = drop_pending o1)"
    using run unfolding flush_or_shed_def f Let_def prod.case by (auto split: sum.splits fault.splits operator_error.splits)
  then show ?thesis using s by (auto simp: in_step_with_def drop_pending_def)
qed

lemma serve_in_step:
  assumes X: "hex_is_text X" and rt: "witness_roundtrip X S"
    and step: "in_step_with X base (s_args scr) live log (sv_operator sv) (sv_node sv) fresh"
    and sv: "serve X C send (sign_sighash_all X S sk) now writable sv mthd url body_read = (r, sv')"
  shows "\<exists>fresh'. in_step_with X base (s_args scr) live log (sv_operator sv') (sv_node sv') fresh'"
  using sv
proof (cases rule: serve_cases)
  case (2 body evs)
  from 2(1) show ?thesis
  proof (cases rule: handle_intent_cases)
    case 1
    then show ?thesis using step by auto
  next
    case 2
    then show ?thesis using submit_in_step[OF step] by auto
  next
    case 3
    then show ?thesis using flush_or_shed_in_step[OF X rt submit_in_step[OF step 3(2,1)]] by blast
  qed
next
  case 3
  obtain r1 where "flush_or_shed X send (sign_sighash_all X S sk) (sv_operator sv) (sv_node sv) = (r1, sv_operator sv', sv_node sv')"
    using 3(1) by (auto simp: handle_flush_def split: prod.splits sum.splits)
  then show ?thesis by (rule flush_or_shed_in_step[OF X rt step])
qed (use step in auto)

lemma server_run_in_step:
  assumes "server_run X C send (sign_sighash_all X S sk) sv0 sv" and "hex_is_text X" and "witness_roundtrip X S"
    and "in_step_with X base (s_args scr) live log (sv_operator sv0) (sv_node sv0) fresh"
  shows "\<exists>fresh'. in_step_with X base (s_args scr) live log (sv_operator sv) (sv_node sv) fresh'"
  using assms
proof induction
  case served_none
  then show ?case by blast
next
  case (served sv now writable mthd url body_read r sv')
  then show ?case using serve_in_step by blast
qed

end

section \<open>A single move\<close>

lemma history_id_length:
  assumes "hex_is_text X" and "game_history X g d log"
  shows "length g = GAME_ID_LEN"
  using assms(2,1) by (cases rule: game_historyE) (auto simp: game_verify_refines game_accepts_def)

lemma apply_batch_single:
  assumes "apply_intent s i = (Ok (), t)" and "unat (gs_seq s) + 1 < 2 ^ 64"
  shows "apply_batch s [i] = (Ok (), t\<lparr>gs_seq := gs_seq t + 1\<rparr>)"
proof -
  have "gs_seq t = gs_seq s" using apply_intent_seq[of s i] assms(1) by simp
  then show ?thesis using assms by (simp add: apply_batch_def checked_add_def)
qed

lemma sign_succeeds:
  assumes "witness_roundtrip X S" and "build_transition X op = Ok t"
  shows "\<exists>tx. sign_sighash_all X S sk (tr_tx t) = Inr tx"
  using assms(1) build_transition_okD(7)[OF assms(2)]
  by (simp add: sign_sighash_all_def witness_roundtrip_def Let_def split: prod.splits)

context responsive_chain
begin

lemma single_move:
  assumes X: "hex_is_text X" and rt: "witness_roundtrip X S" and scr: "scr = game_type_script code ht g"
    and step: "in_step_with X base g live log op n fresh" and fee: "go_fee op \<le> co_capacity (gt_output (go_tip op))"
    and sq: "unat (gs_seq (gt_state (go_tip op))) + 1 < 2 ^ 64"
    and small: "length (gs_players (gt_state (go_tip op))) + 1 < 2 ^ 32"
    and i: "wf_intent i" "apply_intent (gt_state (go_tip op)) i = (Ok (), t)" and q: "go_mempool op = [i]"
  shows "\<exists>r op' n'. flush_or_shed X send (sign_sighash_all X S sk) op n = (r, op', n') \<and> go_mempool op' = [] \<and>
     (if intent_signed X base g i then is_ok r \<and> gt_state (go_tip op') = t\<lparr>gs_seq := gs_seq t + 1\<rparr>
      else (\<exists>e. r = Err (OpRpc e)) \<and> go_tip op' = go_tip op)"
proof -
  obtain tr where tr: "build_transition X op = Ok tr" "tr_next_state tr = t\<lparr>gs_seq := gs_seq t + 1\<rparr>"
    using apply_batch_single[OF i(2) sq] fee by (simp add: build_transition_def q Let_def checked_sub_def)
  obtain s where s: "sign_sighash_all X S sk (tr_tx tr) = Inr s" using sign_succeeds[OF rt tr(1)] by blast
  note raw = signed_transition_parts(1)[OF rt tr(1) s]
  have "length (rt_outputs_data (tx_raw s)) = 1" by (simp add: raw build_transition_okD(6)[OF tr(1)])
  note V = transition_vm_runs[OF this, where base = base and S = S and scr = scr and sh = scr_hash and d = "snd (live n)"]
  have id: "go_game_id op = g" "length g = GAME_ID_LEN"
    using step history_id_length[OF X] by (auto simp: in_step_with_def)
  have judged: "script_passes X S base scr scr_hash (snd (live n)) s \<longleftrightarrow> intent_signed X base g i"
    using transition_judged[OF X rt tr(1) s, where d = "snd (live n)" and code = code and ht = ht and h = scr_hash] V step i(1) small id
    by (simp add: script_passes_def scr in_step_with_def q wf_batch_def)
  have moves: "moves_cell s (fst (live n))" using built_moves_cell[OF tr(1) raw] step by (simp add: in_step_with_def)
  obtain r n' where sent: "send s n = (r, n')" by fastforce
  show ?thesis
  proof (cases "intent_signed X base g i")
    case True
    then obtain h where "r = Ok h" using responsive[OF moves] judged sent by (auto simp: is_ok_iff)
    then show ?thesis using True tr s sent by (simp add: flush_or_shed_def flush_def)
  next
    case False
    then have "\<not> is_ok r" using accepted[of s n _ n'] moves judged sent by (auto simp: is_ok_iff)
    then obtain e where "r = Err e" using refused sent by (cases r) (auto, metis fault.exhaust)
    then show ?thesis using False tr s sent by (simp add: flush_or_shed_def flush_def drop_pending_def)
  qed
qed

end

section \<open>A chain with one game\<close>

text \<open>The node whose whole state is the live game cell, and which runs the type script to judge a transaction.\<close>

definition ledger_send ::
  "externals \<Rightarrow> sighash_crates \<Rightarrow> vm \<Rightarrow> script \<Rightarrow> bytes \<Rightarrow> (out_point \<times> bytes) send" where
  "ledger_send X S base scr scr_hash tx cell =
     (if moves_cell tx (fst cell) \<and> script_passes X S base scr scr_hash (snd cell) tx
      then (Ok (calc_tx_hash X (tx_raw tx)),
            (\<lparr>op_tx_hash = calc_tx_hash X (tx_raw tx), op_index = 0\<rparr>, hd (rt_outputs_data (tx_raw tx))))
      else (Err (NodeError ''send_transaction'' JNull), cell))"

interpretation ledger: responsive_chain X "ledger_send X S base scr scr_hash" S base scr scr_hash "\<lambda>cell. cell"
  for X S base scr scr_hash
  by unfold_locales (auto simp: ledger_send_def is_ok_iff split: if_splits)

section \<open>Properties\<close>

definition serving :: "game_operator \<Rightarrow> 'n \<Rightarrow> string list \<Rightarrow> 'n server" where
  "serving op n lines = \<lparr>sv_operator = op, sv_node = n, sv_relay = relay_new, sv_log = lines\<rparr>"

lemma starts_in_step:
  assumes "game_history X g d log" and "live n = (gt_out_point tip, d)" and "state_decode d = Ok (gt_state tip)"
  shows "in_step_with X base g live log (with_fee (operator_new g deps tip) fee) n []"
  using assms by (simp add: in_step_with_def with_fee_def operator_new_def)

lemma s_args_game_type_script [simp]: "s_args (game_type_script code ht g) = g"
  by (simp add: game_type_script_def)

lemma served_in_step:
  assumes "game_chain X send S base (game_type_script code ht g) sh live"
    and "hex_is_text X" and "witness_roundtrip X S"
    and "game_history X g d log" and "live n = (gt_out_point tip, d)" and "state_decode d = Ok (gt_state tip)"
    and "server_run X C send (sign_sighash_all X S sk) (serving (with_fee (operator_new g deps tip) fee) n lines) sv"
  shows "\<exists>fresh. in_step_with X base g live log (sv_operator sv) (sv_node sv) fresh"
  using game_chain.server_run_in_step[OF assms(1,7,2,3), of log "[]"] starts_in_step[where live = live and n = n, OF assms(4-6)]
  by (simp add: serving_def)

text \<open>
  Whatever requests the operator's server answers, in whatever order, on a chain that runs the
  type script its tip is the live game cell and its board is that cell's: the cell's life from its
  creation continues with moves each signed by its player, and the board is what the specification
  says of exactly those moves.
\<close>

theorem server_tracks_chain:
  assumes "game_chain X send S base (game_type_script code ht g) sh live"
    and "hex_is_text X" and "witness_roundtrip X S"
    and "game_history X g d log" and "live n = (gt_out_point tip, d)" and "state_decode d = Ok (gt_state tip)"
    and "server_run X C send (sign_sighash_all X S sk) (serving (with_fee (operator_new g deps tip) fee) n lines) sv"
  shows "\<exists>fresh. live (sv_node sv) = (gt_out_point (go_tip (sv_operator sv)), snd (live (sv_node sv))) \<and>
     state_decode (snd (live (sv_node sv))) = Ok (gt_state (go_tip (sv_operator sv))) \<and>
     game_history X g (snd (live (sv_node sv))) (log @ fresh) \<and> list_all (intent_signed X base g) fresh \<and>
     spec_run (\<lambda>_. None) (log @ fresh) = Some (board_of (gt_state (go_tip (sv_operator sv))))"
proof -
  obtain fresh where "in_step_with X base g live log (sv_operator sv) (sv_node sv) fresh"
    using served_in_step[OF assms] by blast
  moreover from this have "spec_run (\<lambda>_. None) (log @ fresh) = Some (board_of (gt_state (go_tip (sv_operator sv))))"
    using history_invariant[OF assms(2), of g "snd (live (sv_node sv))" "log @ fresh"] by (auto simp: in_step_with_def)
  ultimately show ?thesis by (intro exI[of _ fresh]) (simp add: in_step_with_def prod_eq_iff)
qed

definition posting_crates :: server_crates where
  "posting_crates =
     \<lparr>parse_json = (\<lambda>s. Inr (JObj [(''intent'', JStr s)])), show_json = (\<lambda>j. []),
      decode_hex_text = (\<lambda>s. Inr (intent_encode signed_intent)), debug_operator_error = (\<lambda>e. [])\<rparr>"

abbreviation sample_ledger :: "(out_point \<times> bytes) send" where
  "sample_ledger \<equiv> ledger_send operator_externals sample_sighash (vm_of registered_view) game_script (replicate 32 3)"

definition posted_server :: "(out_point \<times> bytes) server" where
  "posted_server = snd (serve operator_externals posting_crates sample_ledger
     (sign_sighash_all operator_externals sample_sighash [1]) 7 False
     (serving sample_operator (gt_out_point sample_tip, []) []) MPost ''/intent'' (Some ''x''))"

lemma posted_run:
  "server_run operator_externals posting_crates sample_ledger (sign_sighash_all operator_externals sample_sighash [1])
     (serving sample_operator (gt_out_point sample_tip, []) []) posted_server"
  unfolding posted_server_def by (rule served[OF served_none prod.collapse[symmetric]])

lemma sample_creation: "game_history operator_externals (replicate 32 6) [] []"
proof (rule created[where V = "game_vm create_view" and v = create_view])
  show "game_verify operator_externals (game_vm create_view) = Ok ()"
    using game_verify_refines[OF operator_externals_text sample_game_runs(1)] create_accepts
    by (simp add: game_accepts_def create_view_def)
  show "game_id_of create_view = replicate 32 6" by simp
qed (use sample_game_runs in \<open>simp_all add: create_view_def\<close>)

lemma operator_sample_types:
  "game_type_script (replicate 32 4) 1 (replicate 32 6) = game_script"
  by (simp add: game_type_script_def game_script_def)

lemma server_tracks_chain_witness:
  "\<exists>fresh. game_history operator_externals (replicate 32 6) (snd (sv_node posted_server)) fresh \<and>
     spec_run (\<lambda>_. None) fresh = Some (board_of (gt_state (go_tip (sv_operator posted_server))))"
  using server_tracks_chain[OF ledger.game_chain_axioms[where scr = "game_type_script (replicate 32 4) 1 (replicate 32 6)"]
      operator_externals_text sample_witness_roundtrip sample_creation _ _
      posted_run[unfolded sample_operator_def, folded operator_sample_types]]
  by (auto simp: sample_tip_def state_decode_def)





end
