(* ===== verification/Deployment.thy ===== *)
theory Deployment
  imports Chain_Properties
begin

text \<open>
  From the configuration to the chain: what \<open>main\<close> of bin/game-operator.rs starts with when it is
  configured for a node, and the server's life on the chain that node indexes.
\<close>

section \<open>Starting on a node\<close>








section \<open>On the chain the node indexes\<close>











end
