(* ===== verification/Account_Properties.thy ===== *)
theory Account_Properties
  imports Sdk_Properties Relay_Properties "HOL-Library.Multiset"
begin

text \<open>
  The account over time and in company: what any number of session transactions can do to the cells
  of an account, and what the lock makes of a session transaction that the relay sponsored.
\<close>

section \<open>Runs of session transactions\<close>

text \<open>
  The account's cells are a multiset: the lock admits one account input per transaction, a
  transaction may leave several account outputs, and which cell is spent next is up to the session.
\<close>

definition total_capacity :: "cell multiset \<Rightarrow> nat" where
  "total_capacity M = (\<Sum>c \<in># M. unat (co_capacity (fst c)))"

definition returned :: "lock_view \<Rightarrow> cell list" where
  "returned v = filter (\<lambda>c. co_lock (fst c) = lv_script v) (lv_outputs v)"

inductive session_run :: "externals \<Rightarrow> script \<Rightarrow> cell multiset \<Rightarrow> cell multiset \<Rightarrow> nat \<Rightarrow> bool" for X s M where
  idle: "session_run X s M M 0"
| spent: "session_run X s M N k \<Longrightarrow> lock_runs_on V v \<Longrightarrow> lv_script v = s \<Longrightarrow> lv_group v = [c] \<Longrightarrow> c \<in># N \<Longrightarrow>
    session_witness v rest \<Longrightarrow> auth X V = Ok () \<Longrightarrow> session_run X s M (N - {#c#} + mset (returned v)) (Suc k)"

inductive_cases session_run_noneE: "session_run X s M N 0"

lemma total_capacity_simps [simp]:
  "total_capacity {#} = 0" "total_capacity (M + N) = total_capacity M + total_capacity N"
  "total_capacity (add_mset c M) = unat (co_capacity (fst c)) + total_capacity M"
  by (simp_all add: total_capacity_def)

lemma total_capacity_mset [simp]: "total_capacity (mset cs) = capacity_sum cs"
  by (induction cs) (simp_all add: total_capacity_def)

lemma total_capacity_remove: "c \<in># M \<Longrightarrow> total_capacity M = unat (co_capacity (fst c)) + total_capacity (M - {#c#})"
  by (metis insert_DiffM total_capacity_simps(3))

lemma returned_kept:
  assumes "hex_is_text X" and "lock_runs_on V v" and "session_witness v rest" and "auth X V = Ok ()"
    and "lv_group v = [c]" and "d \<in> set (returned v)"
  shows "co_lock (fst d) = lv_script v" "snd d = snd c"
  using account_kept_by_session[OF assms(1-4), of d] assms(5,6)
  by (auto simp: returned_def same_code_def account_data_def)

lemma step_outflow:
  assumes "hex_is_text X" and "lock_runs_on V v" and "session_witness v rest" and "auth X V = Ok ()"
    and "lv_group v = [c]" and "length (s_args (lv_script v)) = ARGS_LEN"
    and "spend_cap (params_of (drop 20 (s_args (lv_script v)))) \<noteq> SPEND_CAP_UNLIMITED"
  shows "unat (co_capacity (fst c)) \<le> unat (spend_cap (params_of (drop 20 (s_args (lv_script v))))) + capacity_sum (returned v)"
  using outflow_bounded[OF assms(1-4,6,7)] by (simp add: assms(5) returned_def)

text \<open>
  C8: whatever the session keys of an account sign, however often and in whatever order, every
  account cell they leave still carries the account's lock and the data of one of the cells they
  started from, so no session can change the owner, the parameters or the revocation epoch; and a
  registered session with a finite cap takes at most the cap per transaction.
\<close>

theorem session_run_bounded:
  assumes "hex_is_text X" and "session_run X s M N k" and "\<forall>c \<in># M. co_lock (fst c) = s"
  shows "(\<forall>c \<in># N. co_lock (fst c) = s \<and> snd c \<in> snd ` set_mset M) \<and>
     (length (s_args s) = ARGS_LEN \<and> spend_cap (params_of (drop 20 (s_args s))) \<noteq> SPEND_CAP_UNLIMITED \<longrightarrow>
        total_capacity M \<le> total_capacity N + k * unat (spend_cap (params_of (drop 20 (s_args s)))))"
  using assms(2)
proof (induction rule: session_run.induct)
  case idle
  then show ?case using assms(3) by auto
next
  case (spent N k V v c rest)
  note kept = returned_kept[OF assms(1) spent(2,6,7,4)]
  have "\<forall>d \<in># N - {#c#} + mset (returned v). co_lock (fst d) = s \<and> snd d \<in> snd ` set_mset M"
  proof
    fix d assume "d \<in># N - {#c#} + mset (returned v)"
    then consider "d \<in># N" | "d \<in> set (returned v)" unfolding union_iff set_mset_mset by (blast dest: in_diffD)
    then show "co_lock (fst d) = s \<and> snd d \<in> snd ` set_mset M"
      using spent.IH kept[of d] spent.hyps(3,5) by cases auto
  qed
  moreover have "total_capacity M \<le> total_capacity (N - {#c#} + mset (returned v)) + Suc k * unat (spend_cap (params_of (drop 20 (s_args s))))"
    if p: "length (s_args s) = ARGS_LEN" "spend_cap (params_of (drop 20 (s_args s))) \<noteq> SPEND_CAP_UNLIMITED"
    using step_outflow[OF assms(1) spent(2,6,7,4)] spent.IH p total_capacity_remove[OF spent(5)]
    by (simp add: spent(3))
  ultimately show ?case by blast
qed

text \<open>The cells of the registered sample account, before and after its sample session transaction.\<close>

definition account_cell :: "u64 \<Rightarrow> cell" where
  "account_cell n = (\<lparr>co_capacity = n, co_lock = sample_script, co_type = None\<rparr>, u64_le 3)"

lemma registered_cells: "lv_group registered_view = [account_cell 100]" "returned registered_view = [account_cell 80]"
  by (simp_all add: registered_view_def view_with_def account_cell_def returned_def sample_outputs_def other_script_def
      sample_script_def same_code_def)

lemma one_session: "session_run sample_externals sample_script {#account_cell 100#} {#account_cell 80#} 1"
  using spent[OF idle[of sample_externals sample_script "{#account_cell 100#}"] registered_runs(1) _ registered_cells(1) _ registered_runs(3,2)]
  by (simp add: registered_cells(2))

lemma session_run_bounded_witness:
  "total_capacity {#account_cell 100#} \<le> total_capacity {#account_cell 80#} + 1 * 30"
  using session_run_bounded[OF sample_hex_is_text one_session]
  by (simp add: account_cell_def sample_script_params sample_params_of SPEND_CAP_UNLIMITED_def)

text \<open>
  The bound is reached: the cap is one of each transaction, not of the session.  The sample session,
  whose cap is 30, takes 20 out of the account in each of two transactions.
\<close>

definition spend_view :: "u64 \<Rightarrow> lock_view" where
  "spend_view n = registered_view\<lparr>lv_group := [account_cell n],
     lv_outputs := [(\<lparr>co_capacity = 20, co_lock = other_script, co_type = None\<rparr>, []), account_cell (n - 20)],
     lv_tx := sample_tx\<lparr>tx_raw := (tx_raw sample_tx)\<lparr>
       rt_outputs := [\<lparr>co_capacity = 20, co_lock = other_script, co_type = None\<rparr>, fst (account_cell (n - 20))]\<rparr>\<rparr>\<rparr>"

lemma spend_view_fields:
  "lv_script (spend_view n) = sample_script" "lv_group (spend_view n) = [account_cell n]"
  "returned (spend_view n) = [account_cell (n - 20)]" "account_data (spend_view n) = u64_le 3"
  "session_witness (spend_view n) (sample_sign (replicate 20 2) sample_message)"
  using registered_runs(3)
  by (simp_all add: spend_view_def account_cell_def returned_def other_script_def sample_script_def account_data_def session_witness_def)

lemma spend_view_runs: "lock_runs_on (vm_of (spend_view n)) (spend_view n)"
  using registered_runs(1) by (intro lock_runs_on_vm_of) (simp_all add: spend_view_def usize_limit_def registered_view_def)

lemma spend_view_accepted:
  assumes "20 \<le> n"
  shows "auth sample_externals (vm_of (spend_view n)) = Ok ()"
proof -
  let ?v = "spend_view n" and ?p = "params_of sample_params" and ?r = "sample_sign (replicate 20 2) sample_message"
  have m: "signed_message sample_externals ?v = sample_message"
    by (simp add: signed_message_def sample_message_def spend_view_def sample_tx_def sample_outputs_def)
  have "granted sample_externals (vm_of ?v) ?v ?r ?p ?r"
    by (simp add: granted_def spend_view_fields sample_script_params)
  moreover have "co_signed sample_externals (vm_of ?v) ?v ?p ?r []"
    using sample_signature_accepted[of ?v "replicate 20 2" sample_message] by (auto simp: co_signed_def sample_params_of m)
  moreover have "unexpired ?v ?p" by (simp add: unexpired_def sample_params_of spend_view_def registered_view_def)
  moreover have "in_scope sample_externals ?v ?p []" by (simp add: in_scope_def sample_params_of)
  moreover have "account_intact ?v"
    by (simp add: account_intact_def account_kept_def spend_view_fields)
       (auto simp: spend_view_def account_cell_def account_kept_def same_code_def sample_script_def other_script_def)
  moreover have "within_cap ?v ?p"
    using assms by (simp add: within_cap_def spend_view_fields)
       (simp add: spend_view_def account_cell_def sample_params_of own_cells_def same_code_def sample_script_def other_script_def
         unat_sub_if' word_le_nat_alt)
  moreover have "session_pubkey_hash ?p \<noteq> replicate 20 0" by (simp add: sample_params_of)
  ultimately have "session_unlocks sample_externals (vm_of ?v) ?v ?r" unfolding session_unlocks_def by blast
  then have "lock_accepts sample_externals (vm_of ?v) ?v"
    using spend_view_fields(1,2,5)[of n] by (auto simp: lock_accepts_def session_witness_def)
  then show ?thesis by (simp add: auth_refines[OF sample_hex_is_text spend_view_runs])
qed

theorem cap_not_cumulative:
  "session_run sample_externals sample_script {#account_cell 100#} {#account_cell 60#} 2 \<and>
   total_capacity {#account_cell 100#} = total_capacity {#account_cell 60#} + 40 \<and>
   spend_cap (params_of (drop 20 (s_args sample_script))) = 30"
proof -
  have step: "session_run sample_externals sample_script M {#account_cell (n - 20)#} (Suc k)"
    if "session_run sample_externals sample_script M {#account_cell n#} k" "20 \<le> n" for M n k
    using spent[OF that(1) spend_view_runs[of n] spend_view_fields(1,2) _ spend_view_fields(5) spend_view_accepted[OF that(2)]]
    by (simp add: spend_view_fields)
  have "session_run sample_externals sample_script {#account_cell 100#} {#account_cell (100 - 20 - 20)#} (Suc (Suc 0))"
    by (intro step idle) simp_all
  then have "session_run sample_externals sample_script {#account_cell 100#} {#account_cell 60#} (Suc (Suc 0))" by simp
  moreover have "(2 :: nat) = Suc (Suc 0)" by (rule numeral_2_eq_2)
  ultimately have "session_run sample_externals sample_script {#account_cell 100#} {#account_cell 60#} 2" by (simp only:)
  moreover have "total_capacity {#account_cell 100#} = total_capacity {#account_cell 60#} + 40" by (simp add: account_cell_def)
  ultimately show ?thesis by (simp add: sample_script_params sample_params_of)
qed

section \<open>A session transaction the relay paid for\<close>

text \<open>What a list of outputs hands back to an account.\<close>

definition paid_back :: "script \<Rightarrow> cell_output list \<Rightarrow> nat" where
  "paid_back s os = (\<Sum>c \<leftarrow> os. if co_lock c = s then unat (co_capacity c) else 0)"


lemma paid_back_simps [simp]:
  "paid_back s [] = 0" "paid_back s [c] = (if co_lock c = s then unat (co_capacity c) else 0)"
  "paid_back s (xs @ ys) = paid_back s xs + paid_back s ys"
  by (simp_all add: paid_back_def)














end
