(* ===== verification/Unit_Tests.thy ===== *)
theory Unit_Tests
  imports Sdk_Properties Operator_Properties
begin

text \<open>
  The repository's own unit tests, run on the model: the tests of game-rules, the operator, the
  lock and the SDK.  A test is the sequence of its calls and assertions; it passes when it returns,
  that is, when no \<open>unwrap\<close> and no assertion panics.  Where a test uses a hash, it is proved to pass
  for every hash the assertion can hold for.
\<close>

unbundle bit_operations_syntax

section \<open>Tests\<close>

type_synonym test = "(unit, unit) result"

fun unwrap :: "('e, 'a) result \<Rightarrow> (unit, 'a) result" where
  "unwrap (Inr x) = Ok x"
| "unwrap (Inl f) = Panicked"

fun unwrap_err :: "('e, 'a) result \<Rightarrow> (unit, 'e) result" where
  "unwrap_err (Inl (Fail e)) = Ok e"
| "unwrap_err (Inl Panic) = Panicked"
| "unwrap_err (Inr x) = Panicked"

text \<open>\<open>unwrap\<close> after a \<open>&mut self\<close> method: the state it leaves is what the test goes on with.\<close>

fun unwrap_mut :: "('e, 'a) result \<times> 's \<Rightarrow> (unit, 's) result" where
  "unwrap_mut (r, s) = andThen (unwrap r) (\<lambda>_. Ok s)"

definition holds :: "bool \<Rightarrow> test" where
  "holds b = (if b then Ok () else Panicked)"

lemma holds_simps [simp]: "holds True = Ok ()" "holds b = Ok () \<longleftrightarrow> b"
  by (simp_all add: holds_def)

lemma unwrap_Ok_iff [result_simps]: "unwrap m = Ok x \<longleftrightarrow> m = Ok x"
  by (cases m) auto

lemma unwrap_err_Ok_iff [result_simps]: "unwrap_err m = Ok e \<longleftrightarrow> m = Err e"
  by (cases m rule: unwrap_err.cases) auto

text \<open>The assertions of a test, in order.\<close>

fun all_hold :: "bool list \<Rightarrow> test" where
  "all_hold [] = Ok ()"
| "all_hold (b # bs) = andThen (holds b) (\<lambda>_. all_hold bs)"

lemma all_hold_iff [simp]: "all_hold bs = Ok () \<longleftrightarrow> list_all (\<lambda>b. b) bs"
  by (induction bs) (auto simp: result_simps)

section \<open>game-rules\<close>

definition unsigned_intent :: "bytes \<Rightarrow> u64 \<Rightarrow> u64 \<Rightarrow> intent" where
  "unsigned_intent h points nonce = \<lparr>i_hash = h, i_points = points, i_nonce = nonce, i_sig = replicate SIGNATURE_LEN 0\<rparr>"

definition state_roundtrip :: test where
  "state_roundtrip =
     andThen (unwrap_mut (apply_batch empty_state
       [unsigned_intent (replicate 20 1) 10 1, unsigned_intent (replicate 20 2) 20 1])) (\<lambda>s.
     andThen (unwrap (state_decode (state_encode s))) (\<lambda>decoded.
       all_hold [decoded = s, gs_seq decoded = 2]))"

definition empty_and_zero_length_agree :: test where
  "empty_and_zero_length_agree =
     andThen (unwrap (state_decode [])) (\<lambda>s.
     andThen (holds (s = empty_state)) (\<lambda>_.
     andThen (unwrap (state_decode (state_encode empty_state))) (\<lambda>t.
       holds (t = empty_state))))"

definition apply_batch_bumps_seq_and_accumulates :: test where
  "apply_batch_bumps_seq_and_accumulates =
     andThen (unwrap_mut (apply_batch empty_state [unsigned_intent (replicate 20 1) 10 1])) (\<lambda>s.
     andThen (unwrap_mut (apply_batch s [unsigned_intent (replicate 20 1) 5 2])) (\<lambda>s.
     andThen (holds (gs_seq s = 2)) (\<lambda>_.
     case gs_players s of
       [] \<Rightarrow> Panicked
     | p # _ \<Rightarrow> all_hold [p_score p = 15, p_nonce p = 2])))"

definition first_move_must_be_nonce_one :: test where
  "first_move_must_be_nonce_one =
     holds (fst (apply_intent empty_state (unsigned_intent (replicate 20 1) 10 2)) = Err NonceNotFresh)"

definition rejects_stale_nonce :: test where
  "rejects_stale_nonce =
     andThen (unwrap_mut (apply_batch empty_state [unsigned_intent (replicate 20 1) 10 1])) (\<lambda>s.
       holds (fst (apply_batch s [unsigned_intent (replicate 20 1) 10 1]) = Err NonceNotFresh))"

definition points_over_max_rejected :: test where
  "points_over_max_rejected =
     holds (fst (apply_intent empty_state (unsigned_intent (replicate 20 1) (MAX_POINTS_PER_MOVE + 1) 1)) = Err PointsTooHigh)"

definition batch_roundtrip :: test where
  "batch_roundtrip =
     andThen (unwrap (decode_batch (encode_batch
       [unsigned_intent (replicate 20 9) 100 1, unsigned_intent (replicate 20 8) 200 1]))) (\<lambda>back.
     andThen (holds (length back = 2)) (\<lambda>_.
       if 1 < length back then holds (i_points (back ! 1) = 200) else Panicked))"

definition equals_is_order_insensitive :: test where
  "equals_is_order_insensitive =
     (let p = \<lparr>p_hash = replicate 20 1, p_score = 10, p_nonce = 1\<rparr>;
          q = \<lparr>p_hash = replicate 20 2, p_score = 20, p_nonce = 2\<rparr>;
          a = \<lparr>gs_seq = 3, gs_players = [p, q]\<rparr>;
          b = \<lparr>gs_seq = 3, gs_players = [q, p]\<rparr>
      in all_hold [equals_unordered a b, \<not> equals_unordered a (b\<lparr>gs_seq := 4\<rparr>)])"

text \<open>What the moves of these tests do to a board.\<close>

lemma unsigned_intent_simps [simp]:
  "i_hash (unsigned_intent h p n) = h" "i_points (unsigned_intent h p n) = p" "i_nonce (unsigned_intent h p n) = n"
  "wf_intent (unsigned_intent h p n) \<longleftrightarrow> length h = 20"
  by (auto simp: unsigned_intent_def wf_intent_def)

lemmas test_board = apply_batch_def apply_intent_def empty_state_def MAX_POINTS_PER_MOVE_def checked_add_def

lemma game_rules_tests_pass:
  "state_roundtrip = Ok ()" "empty_and_zero_length_agree = Ok ()" "apply_batch_bumps_seq_and_accumulates = Ok ()"
  "first_move_must_be_nonce_one = Ok ()" "rejects_stale_nonce = Ok ()" "points_over_max_rejected = Ok ()"
  "batch_roundtrip = Ok ()" "equals_is_order_insensitive = Ok ()"
proof -
  show "state_roundtrip = Ok ()"
    by (simp add: state_roundtrip_def test_board state_decode_encode wf_state_def wf_entry_def)
  show "empty_and_zero_length_agree = Ok ()"
    by (simp add: empty_and_zero_length_agree_def state_decode_encode wf_state_def empty_state_def)
       (simp add: state_decode_def empty_state_def)
  show "batch_roundtrip = Ok ()"
    by (simp add: batch_roundtrip_def decode_batch_encode wf_batch_def)
qed (simp_all add: apply_batch_bumps_seq_and_accumulates_def first_move_must_be_nonce_one_def
    rejects_stale_nonce_def points_over_max_rejected_def equals_is_order_insensitive_def equals_unordered_def test_board)

section \<open>The operator\<close>

text \<open>The tests' node only counts what it is sent: \<open>mock_send\<close>, started at zero.\<close>

definition default_script :: script where
  "default_script = \<lparr>s_code_hash = replicate 32 0, s_hash_type = 0, s_args = []\<rparr>"

definition tip_at :: "out_point \<Rightarrow> game_state \<Rightarrow> game_tip" where
  "tip_at out_point state =
     \<lparr>gt_out_point = out_point,
      gt_output = \<lparr>co_capacity = 1000, co_lock = default_script, co_type = Some default_script\<rparr>,
      gt_state = state\<rparr>"

definition test_operator :: game_operator where
  "test_operator = operator_new (replicate 32 5) [] (tip_at \<lparr>op_tx_hash = replicate 32 0, op_index = 0\<rparr> empty_state)"

text \<open>\<open>flush\<close> with the identity as finalize step; the result, the operator and the node's counter.\<close>

fun unwrap_flush :: "('e, 'a) result \<times> 's \<times> 'n \<Rightarrow> (unit, 'a \<times> 's \<times> 'n) result" where
  "unwrap_flush (r, s, n) = andThen (unwrap r) (\<lambda>x. Ok (x, s, n))"

definition build_transition_applies_and_bumps_seq :: "externals \<Rightarrow> test" where
  "build_transition_applies_and_bumps_seq X =
     andThen (unwrap_mut (submit test_operator (unsigned_intent (replicate 20 1) 10 1))) (\<lambda>op.
     andThen (unwrap_mut (submit op (unsigned_intent (replicate 20 2) 20 1))) (\<lambda>op.
     andThen (unwrap (build_transition X op)) (\<lambda>t.
       all_hold
         [tr_applied t = 2, gs_seq (tr_next_state t) = 2, length (rt_outputs (tx_raw (tr_tx t))) = 1,
          rt_outputs_data (tx_raw (tr_tx t)) ! 0 = state_encode (tr_next_state t), pending op = 2])))"

definition empty_mempool_cannot_flush :: "externals \<Rightarrow> test" where
  "empty_mempool_cannot_flush X =
     (let (r, op, sent) = flush X (mock_send X) Inr test_operator 0 in
      all_hold [r = Err OpEmpty, sent = 0])"

definition stale_intent_rejected_at_submit :: test where
  "stale_intent_rejected_at_submit =
     (let (r, op) = submit test_operator (unsigned_intent (replicate 20 1) 10 2) in
      andThen (unwrap_err r) (\<lambda>err. all_hold [err = OpGame NonceNotFresh, pending op = 0]))"

definition bad_intent_does_not_poison_the_queue :: test where
  "bad_intent_does_not_poison_the_queue =
     (let (r, op) = submit test_operator (unsigned_intent (replicate 20 1) 10 2) in
      andThen (holds (\<not> is_ok r)) (\<lambda>_.
      andThen (unwrap_mut (submit op (unsigned_intent (replicate 20 2) 20 1))) (\<lambda>op.
        holds (pending op = 1))))"

definition flush_broadcasts_and_advances_tip :: "externals \<Rightarrow> test" where
  "flush_broadcasts_and_advances_tip X =
     andThen (unwrap_mut (submit test_operator (unsigned_intent (replicate 20 1) 10 1))) (\<lambda>op.
     andThen (unwrap_flush (flush X (mock_send X) Inr op 0)) (\<lambda>(hash, op, sent).
     andThen (all_hold
       [sent = 1, op_tx_hash (gt_out_point (go_tip op)) = hash, gs_seq (gt_state (go_tip op)) = 1,
        p_score (gs_players (gt_state (go_tip op)) ! 0) = 10, pending op = 0]) (\<lambda>_.
     andThen (unwrap_mut (submit op (unsigned_intent (replicate 20 1) 5 2))) (\<lambda>op.
     andThen (unwrap_flush (flush X (mock_send X) Inr op sent)) (\<lambda>(hash, op, sent).
       all_hold [gs_seq (gt_state (go_tip op)) = 2, p_score (gs_players (gt_state (go_tip op)) ! 0) = 15])))))"

definition fee_shrinks_the_game_cell_each_transition :: "externals \<Rightarrow> test" where
  "fee_shrinks_the_game_cell_each_transition X =
     andThen (unwrap_mut (submit (with_fee test_operator 3) (unsigned_intent (replicate 20 1) 10 1))) (\<lambda>op.
     andThen (unwrap_flush (flush X (mock_send X) Inr op 0)) (\<lambda>(_, op, sent).
     andThen (holds (co_capacity (gt_output (go_tip op)) = 997)) (\<lambda>_.
     andThen (unwrap_mut (submit op (unsigned_intent (replicate 20 1) 5 2))) (\<lambda>op.
     andThen (unwrap_flush (flush X (mock_send X) Inr op sent)) (\<lambda>(_, op, sent).
       holds (co_capacity (gt_output (go_tip op)) = 994))))))"

definition fee_larger_than_capacity_is_an_error :: "externals \<Rightarrow> test" where
  "fee_larger_than_capacity_is_an_error X =
     andThen (unwrap_mut (submit (with_fee test_operator 5000) (unsigned_intent (replicate 20 1) 10 1))) (\<lambda>op.
       holds (case build_transition X op of Err (OpFinalize _) \<Rightarrow> True | _ \<Rightarrow> False))"

definition failed_finalize_does_not_advance :: "externals \<Rightarrow> test" where
  "failed_finalize_does_not_advance X =
     andThen (unwrap_mut (submit test_operator (unsigned_intent (replicate 20 1) 10 1))) (\<lambda>op.
     let (r, op, sent) = flush X (mock_send X) (\<lambda>_. Inl ''no fee cell'') op 0 in
     andThen (unwrap_err r) (\<lambda>err.
       all_hold [case err of OpFinalize _ \<Rightarrow> True | _ \<Rightarrow> False, sent = 0, gs_seq (gt_state (go_tip op)) = 0, pending op = 1]))"

lemmas test_run = test_operator_def operator_new_def tip_at_def submit_def with_fee_def pending_def
  build_transition_def flush_def mock_send_def checked_sub_def

lemma operator_tests_pass:
  "build_transition_applies_and_bumps_seq X = Ok ()" "empty_mempool_cannot_flush X = Ok ()"
  "stale_intent_rejected_at_submit = Ok ()" "bad_intent_does_not_poison_the_queue = Ok ()"
  "flush_broadcasts_and_advances_tip X = Ok ()" "fee_shrinks_the_game_cell_each_transition X = Ok ()"
  "fee_larger_than_capacity_is_an_error X = Ok ()" "failed_finalize_does_not_advance X = Ok ()"
  by (simp_all add: build_transition_applies_and_bumps_seq_def empty_mempool_cannot_flush_def
      stale_intent_rejected_at_submit_def bad_intent_does_not_poison_the_queue_def flush_broadcasts_and_advances_tip_def
      fee_shrinks_the_game_cell_each_transition_def fee_larger_than_capacity_is_an_error_def
      failed_finalize_does_not_advance_def Let_def test_run test_board)

section \<open>The lock\<close>

text \<open>The fixture: a tree of three leaves, its root, and the two siblings of the first leaf.\<close>

definition merkle_fixture :: "(bytes \<Rightarrow> bytes) \<Rightarrow> bytes \<times> bytes \<times> bytes \<times> bytes" where
  "merkle_fixture H =
     (let l0 = replicate 32 1; l1 = replicate 32 2; l2 = replicate 32 3; zero = replicate 32 0;
          n0 = hash_pair H l0 l1; n1 = hash_pair H l2 zero; root = hash_pair H n0 n1
      in (l0, n1, root, l1))"

definition hash_pair_is_order_independent :: "(bytes \<Rightarrow> bytes) \<Rightarrow> test" where
  "hash_pair_is_order_independent H =
     (let a = replicate 32 7; b = replicate 32 9 in holds (hash_pair H a b = hash_pair H b a))"

definition verifies_valid_proof :: "(bytes \<Rightarrow> bytes) \<Rightarrow> test" where
  "verifies_valid_proof H =
     (let (l0, n1, root, l1) = merkle_fixture H in
      andThen (copy_from_slice (replicate 64 0) 0 32 l1) (\<lambda>prf.
      andThen (copy_from_slice prf 32 64 n1) (\<lambda>prf.
        holds (merkle_verify H root l0 prf))))"

definition rejects_corrupted_proof :: "(bytes \<Rightarrow> bytes) \<Rightarrow> test" where
  "rejects_corrupted_proof H =
     (let (l0, n1, root, l1) = merkle_fixture H in
      andThen (copy_from_slice (replicate 64 0) 0 32 (replicate 32 0xAA)) (\<lambda>prf.
      andThen (copy_from_slice prf 32 64 n1) (\<lambda>prf.
        holds (\<not> merkle_verify H root l0 prf))))"

definition lock_single_leaf_root_is_leaf :: "(bytes \<Rightarrow> bytes) \<Rightarrow> test" where
  "lock_single_leaf_root_is_leaf H =
     (let leaf = replicate 32 5 in holds (merkle_verify H leaf leaf []))"

definition rejects_misaligned_proof :: "(bytes \<Rightarrow> bytes) \<Rightarrow> test" where
  "rejects_misaligned_proof H =
     (let leaf = replicate 32 5 in holds (\<not> merkle_verify H leaf leaf (replicate 31 0)))"

definition sample_params_block :: "(unit, bytes) result" where
  "sample_params_block =
     andThen (copy_from_slice (replicate SESSION_PARAMS_LEN 0) 0 20 (replicate 20 0xAB)) (\<lambda>b.
     andThen (copy_from_slice b 20 28 (u64_le 1700000000)) (\<lambda>b.
     andThen (copy_from_slice b 28 60 (replicate 32 0xCD)) (\<lambda>b.
     andThen (copy_from_slice b 60 76 (u128_le 123456789)) (\<lambda>b.
       copy_from_slice b 76 96 (replicate 20 0xEF)))))"

definition parses_params :: test where
  "parses_params =
     andThen sample_params_block (\<lambda>b.
     andThen (unwrap (parse_session_params b)) (\<lambda>p.
       all_hold
         [session_pubkey_hash p = replicate 20 0xAB, expires_at p = 1700000000, policies_root p = replicate 32 0xCD,
          spend_cap p = 123456789, guardian_pubkey_hash p = replicate 20 0xEF]))"

definition registered_args_tail_equals_params_block :: test where
  "registered_args_tail_equals_params_block =
     andThen sample_params_block (\<lambda>pb.
     andThen (copy_from_slice (replicate ARGS_LEN 0) 0 20 (replicate 20 0x11)) (\<lambda>args.
     andThen (copy_from_slice args OWNER_ONLY_ARGS_LEN ARGS_LEN pb) (\<lambda>args.
     andThen (slice args OWNER_ONLY_ARGS_LEN ARGS_LEN) (\<lambda>tail.
     andThen (unwrap (parse_session_params tail)) (\<lambda>a.
     andThen (unwrap (parse_session_params pb)) (\<lambda>b.
       all_hold
         [session_pubkey_hash a = session_pubkey_hash b, expires_at a = expires_at b,
          policies_root a = policies_root b, spend_cap a = spend_cap b]))))))"

definition auth_message_deterministic_and_bound :: "externals \<Rightarrow> test" where
  "auth_message_deterministic_and_bound X =
     (let sh = replicate 32 0x22; sh2 = replicate 32 0x33 in
      andThen sample_params_block (\<lambda>b1.
      andThen (index_at b1 60) (\<lambda>c.
      let b2 = b1[60 := c XOR 1] in
      andThen (unwrap (session_auth_message X sh 0 b1)) (\<lambda>m.
      andThen (unwrap (session_auth_message X sh 0 b1)) (\<lambda>again.
      andThen (unwrap (session_auth_message X sh 0 b2)) (\<lambda>other_cap.
      andThen (unwrap (session_auth_message X sh2 0 b1)) (\<lambda>other_account.
      andThen (unwrap (session_auth_message X sh 1 b1)) (\<lambda>other_epoch.
        all_hold [m = again, m \<noteq> other_cap, m \<noteq> other_account, m \<noteq> other_epoch]))))))))"

text \<open>The fixed bytes of the session tests are the SDK's block for the same fields.\<close>

definition test_params :: bytes where
  "test_params = sdk_session_params (replicate 20 0xAB) 1700000000 (replicate 32 0xCD) 123456789 (replicate 20 0xEF)"

lemma length_test_params [simp]: "length test_params = 96"
  by (simp add: test_params_def sdk_session_params_def)

lemma sample_params_block_eq: "sample_params_block = Ok test_params"
  by (simp add: sample_params_block_def test_params_def sdk_session_params_def copy_from_slice_def lock_lens)

lemma xor_one_differs: "c XOR 1 \<noteq> (c :: byte)"
proof
  assume "c XOR 1 = c"
  then have "c XOR (c XOR 1) = 0" by simp
  then show False by (simp flip: xor.assoc)
qed

lemma pair_string_cancel:
  assumes "length a = length c" "length b = length c"
  shows "pair_string a c = pair_string b c \<longleftrightarrow> a = b" "pair_string c a = pair_string c b \<longleftrightarrow> a = b"
  using assms by (auto simp: pair_string_def append_eq_append_conv)

text \<open>The strings whose digests the two negative tests compare.\<close>

definition corrupted_strings :: "(bytes \<Rightarrow> bytes) \<Rightarrow> bytes set" where
  "corrupted_strings H =
     (let l0 = replicate 32 1; l1 = replicate 32 2; n1 = pair H (replicate 32 3) ZERO_NODE; bad = replicate 32 0xAA in
      {pair_string l0 l1, pair_string l0 bad, pair_string (pair H l0 l1) n1, pair_string (pair H l0 bad) n1})"

definition auth_test_strings :: "bytes set" where
  "auth_test_strings =
     {session_auth_preimage (replicate 32 0x22) 0 test_params,
      session_auth_preimage (replicate 32 0x22) 0 (test_params[60 := test_params ! 60 XOR 1]),
      session_auth_preimage (replicate 32 0x33) 0 test_params, session_auth_preimage (replicate 32 0x22) 1 test_params}"

lemma verifies_valid_proof_passes:
  assumes "\<And>b. length (H b) = 32"
  shows "verifies_valid_proof H = Ok ()"
proof -
  have n: "length (hash_pair H a b) = 32" for a b using assms by (rule length_hash_pair)
  show ?thesis
    using merkle_verify_concat[of "[replicate 32 2, hash_pair H (replicate 32 3) (replicate 32 0)]" H]
    by (simp add: verifies_valid_proof_def merkle_fixture_def Let_def copy_from_slice_def n)
qed

lemma rejects_corrupted_proof_passes:
  assumes H: "\<And>b. length (H b) = 32" and inj: "inj_on H (corrupted_strings H)"
  shows "rejects_corrupted_proof H = Ok ()"
proof -
  let ?l = "replicate 32 (1 :: byte)" and ?b = "replicate 32 (0xAA :: byte)" and ?n = "pair H (replicate 32 3) ZERO_NODE"
  have n: "length (pair H a b) = 32" for a b using H by (simp add: pair_def)
  have "pair_string ?l (replicate 32 2) \<noteq> pair_string ?l ?b" by (simp add: pair_string_cancel(2))
  then have "pair H ?l (replicate 32 2) \<noteq> pair H ?l ?b"
    using inj by (auto simp: pair_def[of H ?l] corrupted_strings_def Let_def dest: inj_onD)
  then have "pair_string (pair H ?l (replicate 32 2)) ?n \<noteq> pair_string (pair H ?l ?b) ?n"
    by (simp add: pair_string_cancel n)
  then have "pair H (pair H ?l (replicate 32 2)) ?n \<noteq> pair H (pair H ?l ?b) ?n"
    using inj by (auto simp: pair_def[of H "pair H a b" for a b] corrupted_strings_def Let_def dest: inj_onD)
  then show ?thesis
    using merkle_verify_concat[of "[?b, ?n]" H] n
    by (simp add: rejects_corrupted_proof_def merkle_fixture_def Let_def copy_from_slice_def ZERO_NODE_def flip: pair_hash_pair)
qed

lemma auth_message_test_passes:
  assumes "inj_on (blake2b_256 X) auth_test_strings"
  shows "auth_message_deterministic_and_bound X = Ok ()"
proof -
  have "test_params[60 := test_params ! 60 XOR 1] \<noteq> test_params"
  proof
    assume "test_params[60 := test_params ! 60 XOR 1] = test_params"
    then have "test_params[60 := test_params ! 60 XOR 1] ! 60 = test_params ! 60" by (simp only:)
    moreover have "60 < length test_params" by simp
    ultimately show False using xor_one_differs[of "test_params ! 60"] by (simp only: nth_list_update_eq)
  qed
  then show ?thesis
    using assms
    by (simp add: auth_message_deterministic_and_bound_def sample_params_block_eq session_auth_message_eq lock_lens
        auth_test_strings_def inj_on_def session_auth_preimage_inj)
qed

lemma lock_tests_pass:
  "hash_pair_is_order_independent H = Ok ()" "lock_single_leaf_root_is_leaf H = Ok ()"
  "rejects_misaligned_proof H = Ok ()" "parses_params = Ok ()" "registered_args_tail_equals_params_block = Ok ()"
  using merkle_verify_concat[of "[]" H]
  by (simp_all add: hash_pair_is_order_independent_def hash_pair_commute lock_single_leaf_root_is_leaf_def
      rejects_misaligned_proof_def merkle_verify_def parses_params_def sample_params_block_eq parse_session_params_eq lock_lens
      registered_args_tail_equals_params_block_def copy_from_slice_def)
     (simp_all add: params_of_def test_params_def sdk_session_params_def)

end
