(* ===== verification/Account_Tests.thy ===== *)
theory Account_Tests
  imports Unit_Tests Channel_Properties
begin

text \<open>The unit tests of the SDK and of its payment channels, run on the model.\<close>

section \<open>Loops in tests\<close>

fun for_each :: "('a \<Rightarrow> test) \<Rightarrow> 'a list \<Rightarrow> test" where
  "for_each f [] = Ok ()"
| "for_each f (x # xs) = andThen (f x) (\<lambda>_. for_each f xs)"

lemma for_each_passes: "(\<And>x. x \<in> set xs \<Longrightarrow> f x = Ok ()) \<Longrightarrow> for_each f xs = Ok ()"
  by (induction xs) auto

section \<open>sdk/src/lib.rs\<close>

definition params_length :: test where
  "params_length =
     (let p = sdk_session_params (replicate 20 1) 42 WILDCARD_ROOT 7 (replicate 20 0)
      in all_hold [length p = SESSION_PARAMS_LEN, length (registered_args (replicate 20 9) p) = ARGS_LEN])"

definition merkle_roundtrip_various_sizes :: "(bytes \<Rightarrow> bytes) \<Rightarrow> test" where
  "merkle_roundtrip_various_sizes H =
     for_each (\<lambda>n.
       let leaves = map (\<lambda>i. replicate 32 (of_nat i)) [0..<n] in
       andThen (merkle_root H leaves) (\<lambda>root.
       for_each (\<lambda>(i, leaf).
         andThen (merkle_proof H leaves i) (\<lambda>prf. holds (sdk_merkle_verify H root leaf prf)))
         (enumerate 0 leaves))) [1..<9]"

definition single_leaf_root_is_leaf :: "(bytes \<Rightarrow> bytes) \<Rightarrow> test" where
  "single_leaf_root_is_leaf H =
     (let leaf = replicate 32 5 in
      andThen (merkle_root H [leaf]) (\<lambda>root.
        all_hold [root = leaf, sdk_merkle_verify H leaf leaf []]))"

definition auth_message_epoch_sensitive :: "externals \<Rightarrow> test" where
  "auth_message_epoch_sensitive X =
     (let sh = replicate 32 2;
          p = sdk_session_params (replicate 20 1) 1 WILDCARD_ROOT SPEND_CAP_UNLIMITED (replicate 20 0)
      in holds (sdk_session_auth_message X sh 0 p \<noteq> sdk_session_auth_message X sh 1 p))"

lemma merkle_roundtrip_passes: "merkle_roundtrip_various_sizes H = Ok ()"
  unfolding merkle_roundtrip_various_sizes_def Let_def
proof (rule for_each_passes)
  fix n assume "n \<in> set [1..<9]"
  define leaves where "leaves = map (\<lambda>i. replicate 32 (of_nat i :: byte)) [0..<n]"
  have "leaves \<noteq> []" using \<open>n \<in> set [1..<9]\<close> by (simp add: leaves_def)
  then obtain root where root: "merkle_root H leaves = Ok root"
    using merkle_root_complete[of 0 leaves H] by auto
  have "for_each (\<lambda>(i, leaf). andThen (merkle_proof H leaves i) (\<lambda>prf. holds (sdk_merkle_verify H root leaf prf)))
      (enumerate 0 leaves) = Ok ()"
  proof (rule for_each_passes)
    fix x assume "x \<in> set (enumerate 0 leaves)"
    then have "x = (fst x, leaves ! fst x)" "fst x < length leaves" by (auto simp: in_set_enumerate_eq prod_eq_iff)
    then obtain i where "x = (i, leaves ! i)" "i < length leaves" by blast
    then show "(case x of (i, leaf) \<Rightarrow> andThen (merkle_proof H leaves i) (\<lambda>prf. holds (sdk_merkle_verify H root leaf prf))) = Ok ()"
      using merkle_root_complete[of i leaves H] root by (auto simp: sdk_merkle_verify_def)
  qed
  then show "andThen (merkle_root H (map (\<lambda>i. replicate 32 (of_nat i)) [0..<n]))
      (\<lambda>root. for_each (\<lambda>(i, leaf). andThen (merkle_proof H (map (\<lambda>i. replicate 32 (of_nat i)) [0..<n]) i)
         (\<lambda>prf. holds (sdk_merkle_verify H root leaf prf))) (enumerate 0 (map (\<lambda>i. replicate 32 (of_nat i)) [0..<n]))) = Ok ()"
    using root unfolding leaves_def by simp
qed

text \<open>The two messages differ unless their strings are a collision of the hash.\<close>

lemma epoch_test_passes:
  fixes X :: externals
  defines "p \<equiv> sdk_session_params (replicate 20 1) 1 WILDCARD_ROOT SPEND_CAP_UNLIMITED (replicate 20 0)"
  assumes "\<not> collision (blake2b_256 X) (session_auth_preimage (replicate 32 2) 0 p) (session_auth_preimage (replicate 32 2) 1 p)"
  shows "auth_message_epoch_sensitive X = Ok ()"
  using assms
  by (auto simp: auth_message_epoch_sensitive_def Let_def sdk_session_auth_message_def collision_def session_auth_preimage_inj)
     (simp add: session_auth_preimage_def)

lemma sdk_tests_pass: "params_length = Ok ()" "single_leaf_root_is_leaf H = Ok ()"
  by (simp_all add: params_length_def sdk_session_params_def registered_args_def WILDCARD_ROOT_def lock_lens Let_def
      single_leaf_root_is_leaf_def merkle_root_def merkle_loop.simps[of H "[x]" for x] sdk_merkle_verify_def)

section \<open>sdk/src/channel.rs\<close>

definition test_funding_lock :: script where
  "test_funding_lock = \<lparr>s_code_hash = replicate 32 0xAB, s_hash_type = 0, s_args = ascii ''fiber-funding-lock''\<rparr>"

definition test_cfg :: channel_config where
  "test_cfg =
     \<lparr>cc_account_lock = \<lparr>s_code_hash = replicate 32 0, s_hash_type = 0, s_args = ascii ''acct''\<rparr>,
      cc_account_input = \<lparr>op_tx_hash = replicate 32 7, op_index = 0\<rparr>, cc_account_capacity = 1000,
      cc_funding_lock = test_funding_lock, cc_cell_deps = [], cc_header_dep = replicate 32 9\<rparr>"

definition new_session :: "(mock_rail, u64) channel_session" where
  "new_session = channel_new test_cfg mock_rail_new"

text \<open>The value of a \<open>&mut self\<close> method and the session after it.\<close>

fun unwrap_both :: "('e, 'a) result \<times> 's \<Rightarrow> (unit, 'a \<times> 's) result" where
  "unwrap_both (r, s) = andThen (unwrap r) (\<lambda>x. Ok (x, s))"

fun pay_times :: "nat \<Rightarrow> u128 \<Rightarrow> (mock_rail, u64) channel_session \<Rightarrow> (unit, (mock_rail, u64) channel_session) result" where
  "pay_times 0 amount s = Ok s"
| "pay_times (Suc n) amount s = andThen (unwrap_mut (channel_pay mock_ops s amount)) (pay_times n amount)"

definition full_loop_open_pay_close :: "externals \<Rightarrow> test" where
  "full_loop_open_pay_close X =
     andThen (unwrap_both (channel_open X mock_ops new_session (peer_from_str ''game-node'') 500)) (\<lambda>(open_tx, s).
     andThen (index_at (rt_outputs (tx_raw (ct_tx open_tx))) 1) (\<lambda>cap.
     andThen (holds (co_capacity cap = 500)) (\<lambda>_.
     andThen (index_at (rt_outputs (tx_raw (ct_tx open_tx))) 0) (\<lambda>change.
     andThen (all_hold [co_capacity change = 500, channel_is_open s]) (\<lambda>_.
     andThen (pay_times 30 10 s) (\<lambda>s.
     andThen (holds (channel_spent s = 300)) (\<lambda>_.
     andThen (channel_remaining s) (\<lambda>remaining.
     andThen (holds (remaining = 200)) (\<lambda>_.
     andThen (unwrap (fst (channel_close mock_ops s))) (\<lambda>(settlement, _).
       all_hold [st_local settlement = 200, st_remote settlement = 300]))))))))))"

definition pay_over_budget_is_rejected_before_rail :: "externals \<Rightarrow> test" where
  "pay_over_budget_is_rejected_before_rail X =
     andThen (unwrap_mut (channel_open X mock_ops new_session (peer_from_str ''peer'') 100)) (\<lambda>s.
     andThen (unwrap_mut (channel_pay mock_ops s 80)) (\<lambda>s.
     let (r, s) = channel_pay mock_ops s 50 in
     andThen (case r of Err (OverBudget remaining requested) \<Rightarrow> all_hold [remaining = 20, requested = 50] | _ \<Rightarrow> Panicked) (\<lambda>_.
       holds (channel_spent s = 80))))"

definition pay_before_open_is_not_open :: test where
  "pay_before_open_is_not_open = holds (fst (channel_pay mock_ops new_session 1) = Err NotOpen)"

definition double_open_rejected :: "externals \<Rightarrow> test" where
  "double_open_rejected X =
     andThen (unwrap_mut (channel_open X mock_ops new_session (peer_from_str ''peer'') 100)) (\<lambda>s.
       holds (fst (channel_open X mock_ops s (peer_from_str ''peer'') 100) = Err AlreadyOpen))"

definition channel_session_args_have_funding_lock_root_and_budget_cap :: "externals \<Rightarrow> test" where
  "channel_session_args_have_funding_lock_root_and_budget_cap X =
     (let params = channel_session_params X (replicate 20 1) 42 test_funding_lock 500 (replicate 20 0) in
      andThen (slice params 28 60) (\<lambda>root.
      andThen (holds (root = policy_leaf_for_script X test_funding_lock)) (\<lambda>_.
      andThen (slice params 60 76) (\<lambda>cap.
        all_hold [from_le cap = (500 :: u128), length (registered_args (replicate 20 2) params) = ARGS_LEN]))))"

definition funding_outpoint_is_stable_before_signing :: "externals \<Rightarrow> test" where
  "funding_outpoint_is_stable_before_signing X =
     (let open_tx = build_funding_tx test_cfg 500; p = channel_outpoint X open_tx
      in all_hold [op_index p = 1, op_tx_hash p = calc_tx_hash X (tx_raw (ct_tx open_tx))])"

lemma pay_times_numeral:
  "pay_times (numeral k) amount s = andThen (unwrap_mut (channel_pay mock_ops s amount)) (pay_times (pred_numeral k) amount)"
  by (simp add: numeral_eq_Suc)

lemmas channel_run = new_session_def channel_new_def test_cfg_def mock_rail_new_def channel_open_def build_funding_tx_def
  account_change_def channel_build_def channel_outpoint_def mock_ops_def mock_open_def channel_pay_def mock_pay_def
  mock_get_mut_def channel_close_def mock_close_def channel_remaining_def channel_spent_def channel_is_open_def checked_sub_def checked_add_def
  saturating_sub_def

lemma channel_tests_pass:
  "pay_over_budget_is_rejected_before_rail X = Ok ()" "pay_before_open_is_not_open = Ok ()" "double_open_rejected X = Ok ()"
  "funding_outpoint_is_stable_before_signing X = Ok ()"
  by (simp_all add: pay_over_budget_is_rejected_before_rail_def pay_before_open_is_not_open_def double_open_rejected_def
      funding_outpoint_is_stable_before_signing_def Let_def channel_run)

lemma full_loop_passes: "full_loop_open_pay_close X = Ok ()"
  by (simp add: full_loop_open_pay_close_def Let_def channel_run pay_times_numeral)

lemma channel_args_test_passes:
  assumes "digests_32 X"
  shows "channel_session_args_have_funding_lock_root_and_budget_cap X = Ok ()"
proof -
  have "length (policy_leaf_for_script X test_funding_lock) = 32"
    using assms by (simp add: policy_leaf_for_script_def policy_leaf_def digests_32_def)
  then show ?thesis
    by (simp add: channel_session_args_have_funding_lock_root_and_budget_cap_def channel_session_params_def Let_def
        sdk_session_params_def registered_args_def lock_lens)
qed

end
