(* ===== verification/Relay_Tests.thy ===== *)
theory Relay_Tests
  imports Unit_Tests Wasm_Properties
begin

text \<open>
  The unit tests of the paymaster, its biscuit gate, the sponsor service and the operator's
  signature, run on the model.  The signature scheme and the biscuit crate stay parameters: a test
  is proved to pass for every instance with the documented behaviour.
\<close>

section \<open>paymaster/src/authz.rs\<close>

definition authz_fixture :: "ed25519 \<Rightarrow> (unit, bytes \<times> bytes \<times> capability) result" where
  "authz_fixture E =
     (let authority = replicate 32 7 in
      andThen (unwrap (ed25519_gate_new E (ed_public E authority))) (\<lambda>gate.
        Ok (authority, gate,
            \<lparr>cap_scope = ascii ''ckb-controller-sponsor'', cap_subject = ascii ''player-1'', cap_not_after = 2000000000\<rparr>)))"

definition valid_token_authorizes :: "ed25519 \<Rightarrow> test" where
  "valid_token_authorizes E =
     andThen (authz_fixture E) (\<lambda>(authority, gate, cap).
     let token = ed25519_issue E authority cap in
     andThen (unwrap (ed25519_authorize E gate token 1700000000 (ascii ''ckb-controller-sponsor''))) (\<lambda>got.
       holds (got = cap)))"

definition expired_token_rejected :: "ed25519 \<Rightarrow> test" where
  "expired_token_rejected E =
     andThen (authz_fixture E) (\<lambda>(authority, gate, cap).
     let token = ed25519_issue E authority cap in
     andThen (unwrap (ok_or (checked_add (cap_not_after cap) 1) ())) (\<lambda>late.
       holds (ed25519_authorize E gate token late (ascii ''ckb-controller-sponsor'') = Err Expired)))"

definition wrong_scope_rejected :: "ed25519 \<Rightarrow> test" where
  "wrong_scope_rejected E =
     andThen (authz_fixture E) (\<lambda>(authority, gate, cap).
     let token = ed25519_issue E authority cap in
       holds (ed25519_authorize E gate token 1700000000 (ascii ''some-other-scope'') = Err WrongScope))"

definition wrong_authority_rejected :: "ed25519 \<Rightarrow> test" where
  "wrong_authority_rejected E =
     andThen (authz_fixture E) (\<lambda>(authority, _, cap).
     let token = ed25519_issue E authority cap in
     andThen (unwrap (ed25519_gate_new E (ed_public E (replicate 32 9)))) (\<lambda>attacker_gate.
       holds (ed25519_authorize E attacker_gate token 1700000000 (ascii ''ckb-controller-sponsor'') = Err BadSignature)))"

definition tampered_token_rejected :: "ed25519 \<Rightarrow> test" where
  "tampered_token_rejected E =
     andThen (authz_fixture E) (\<lambda>(authority, gate, cap).
     let token = ed25519_issue E authority cap in
     andThen (index_at token 0) (\<lambda>b.
     let r = ed25519_authorize E gate (token[0 := b XOR 1]) 1700000000 (ascii ''ckb-controller-sponsor'') in
       holds (r = Err BadSignature \<or> r = Err Malformed)))"

definition authz_cap :: capability where
  "authz_cap = \<lparr>cap_scope = ascii ''ckb-controller-sponsor'', cap_subject = ascii ''player-1'', cap_not_after = 2000000000\<rparr>"

lemma authz_cap_simps [simp]:
  "cap_scope authz_cap = ascii ''ckb-controller-sponsor''" "cap_not_after authz_cap = 2000000000" "wf_capability authz_cap"
  by (simp_all add: authz_cap_def wf_capability_def ascii_def)

lemma authz_fixture_eq: "ed_correct E \<Longrightarrow> authz_fixture E = Ok (replicate 32 7, ed_public E (replicate 32 7), authz_cap)"
  by (simp add: authz_fixture_def Let_def ed25519_gate_new_def ed_correct_def authz_cap_def)

text \<open>What the gate says of an issued token, case by case.\<close>

lemma authorize_issued:
  assumes "ed_correct E" and "wf_capability c"
  shows "ed25519_authorize E pk (ed25519_issue E seed c) now scope =
    (if \<not> ed_verify E pk (canonical c) (ed_sign E seed (canonical c)) then Err BadSignature
     else if cap_scope c \<noteq> scope then Err WrongScope else if now > cap_not_after c then Err Expired else Ok c)"
proof -
  let ?s = "ed_sign E seed (canonical c)"
  have p: "capability_parse (canonical c @ ?s) = Ok (c, length (canonical c))"
    using assms(2) by (auto simp: capability_parse_iff)
  have "length ?s = TOKEN_SIG_LEN" using assms(1) by (simp add: ed_correct_def)
  then show ?thesis by (simp add: ed25519_authorize_def issued_token_parts p)
qed

lemma own_signature: "ed_correct E \<Longrightarrow> ed_verify E (ed_public E seed) m (ed_sign E seed m)"
  by (simp add: ed_correct_def)

text \<open>
  The flipped bit makes the scope one byte longer, so the length of the subject is read one byte late
  and is far beyond the end of the token.
\<close>

lemma string_field_head:
  assumes "string_field s @ r = a # b # t" and "length s < 2 ^ 16"
  shows "length s = unat (from_le [a, b] :: u16)"
proof -
  have "length (to_le 2 (of_nat (length s) :: u16)) = 2" by simp
  then obtain x y where xy: "to_le 2 (of_nat (length s) :: u16) = [x, y]"
    by (metis (no_types, lifting) One_nat_def Suc_1 length_0_conv length_Suc_conv)
  then have "[x, y] = [a, b]" using assms(1) by (simp add: string_field_def)
  then have "from_le (to_le 2 (of_nat (length s) :: u16)) = (from_le [a, b] :: u16)" by (simp only: xy)
  then have "(of_nat (length s) :: u16) = from_le [a, b]" by (simp add: from_to_le)
  then show ?thesis using assms(2) unat_of_nat_small[of "length s", where 'a = 16] by simp
qed

lemma parse_string_inl: "parse_string token i = Inl f \<Longrightarrow> f = Fail Malformed"
  by (auto simp: parse_string_def andThen_fault_iff read_u16_def parse_take_def from_utf8_def index_at_def slice_def split: if_splits)

lemma capability_parse_inl: "capability_parse token = Inl f \<Longrightarrow> f = Fail Malformed"
  by (auto simp: capability_parse_def andThen_fault_iff slice_def dest: parse_string_inl split: if_splits)

lemma short_lengths: "to_le 2 (22 :: u16) = [0x16, 0]" "to_le 2 (8 :: u16) = [8, 0]"
proof -
  have two: "nat_to_le 2 n = [of_nat (n mod 256), of_nat (n div 256 mod 256)]" for n
    by (simp add: numeral_2_eq_2)
  show "to_le 2 (22 :: u16) = [0x16, 0]" "to_le 2 (8 :: u16) = [8, 0]" by (simp_all add: to_le_def two)
qed

lemma tampered_malformed:
  assumes "length sg = 64"
  shows "capability_parse ((canonical authz_cap @ sg)[0 := 0x17]) = Err Malformed"
proof (cases "capability_parse ((canonical authz_cap @ sg)[0 := 0x17])")
  case (Inl f)
  then show ?thesis using capability_parse_inl by blast
next
  case (Inr cn)
  let ?tail = "u64_le 2000000000 @ sg" and ?t = "(canonical authz_cap @ sg)[0 := 0x17]"
  have t: "?t = 0x17 # 0 # ascii ''ckb-controller-sponsor'' @ 8 # 0 # ascii ''player-1'' @ ?tail"
    by (simp add: canonical_def authz_cap_def short_lengths)
  obtain s i u j where s: "parse_string ?t 0 = Ok (s, i)" and u: "parse_string ?t i = Ok (u, j)"
    using Inr by (auto simp: capability_parse_def result_simps)
  from s obtain r where "string_field s @ r = 0x17 # 0 # ascii ''ckb-controller-sponsor'' @ 8 # 0 # ascii ''player-1'' @ ?tail"
      "length s < 2 ^ 16" "i = 2 + length s"
    by (auto simp: parse_string_iff t)
  then have i: "i = 25" using string_field_head[where s = s and a = 23 and b = 0] by (simp add: from_le_def)
  have d: "drop 25 ?t = 0 # 112 # drop 1 (ascii ''player-1'') @ ?tail" unfolding t by (simp add: ascii_def)
  from u obtain r' where u': "string_field u @ r' = 0 # 112 # drop 1 (ascii ''player-1'') @ ?tail" "length u < 2 ^ 16"
    by (auto simp: parse_string_iff i d)
  then have "length u = 28672" using string_field_head[where s = u and a = 0 and b = 112] by (simp add: from_le_def)
  moreover have "length (string_field u @ r') = 81" unfolding u'(1) using assms by simp
  ultimately show ?thesis by simp
qed

lemma authz_tests_pass:
  assumes "ed_correct E"
  shows "valid_token_authorizes E = Ok ()" "expired_token_rejected E = Ok ()" "wrong_scope_rejected E = Ok ()"
    "tampered_token_rejected E = Ok ()"
proof -
  show "valid_token_authorizes E = Ok ()" "expired_token_rejected E = Ok ()" "wrong_scope_rejected E = Ok ()"
    using assms
    by (simp_all add: valid_token_authorizes_def expired_token_rejected_def wrong_scope_rejected_def authz_fixture_eq Let_def
        authorize_issued own_signature checked_add_def ascii_def)
  have sg: "length (ed_sign E s m) = 64" for s m using assms by (simp add: ed_correct_def TOKEN_SIG_LEN_def)
  have t: "ed25519_issue E (replicate 32 7) authz_cap = canonical authz_cap @ ed_sign E (replicate 32 7) (canonical authz_cap)"
    by (rule issued_token_parts)
  have b: "(canonical authz_cap @ r) ! 0 = 0x16" for r
    by (simp add: canonical_def authz_cap_def short_lengths)
  show "tampered_token_rejected E = Ok ()"
    using tampered_malformed[OF sg]
    by (simp add: tampered_token_rejected_def authz_fixture_eq[OF assms] Let_def t index_at_def b ed25519_authorize_def)
       (simp add: canonical_def authz_cap_def ascii_def)
qed

text \<open>The attacker's key does not verify the authority's signature on this token.\<close>

lemma wrong_authority_test_passes:
  assumes "ed_correct E"
    and "\<not> ed_verify E (ed_public E (replicate 32 9)) (canonical authz_cap) (ed_sign E (replicate 32 7) (canonical authz_cap))"
  shows "wrong_authority_rejected E = Ok ()"
  using assms
  by (simp add: wrong_authority_rejected_def authz_fixture_eq Let_def ed25519_gate_new_def authorize_issued)
     (simp add: ed_correct_def)

section \<open>paymaster/src/biscuit\_gate.rs\<close>

definition SCOPE :: bytes where "SCOPE = ascii ''ckb-controller-sponsor''"
definition NOW :: u64 where "NOW = 1700000000"
definition FAR_FUTURE :: u64 where "FAR_FUTURE = 2000000000"

definition test_cap :: "u64 \<Rightarrow> capability" where
  "test_cap not_after = \<lparr>cap_scope = SCOPE, cap_subject = ascii ''player-1'', cap_not_after = not_after\<rparr>"

definition biscuit_fixture :: "('k, 'p, 'b, 't, 'z, 'a) biscuit \<Rightarrow> (unit, 'k \<times> 'p biscuit_gate) result" where
  "biscuit_fixture B =
     andThen (unwrap (biscuit_authority B (replicate 32 7))) (\<lambda>authority.
     andThen (unwrap (biscuit_gate_new B (biscuit_public_key B authority))) (\<lambda>gate. Ok (authority, gate)))"

definition biscuit_valid_token_authorizes :: "('k, 'p, 'b, 't, 'z, 'a) biscuit \<Rightarrow> test" where
  "biscuit_valid_token_authorizes B =
     andThen (biscuit_fixture B) (\<lambda>(authority, gate).
     andThen (unwrap (biscuit_issue B authority (test_cap FAR_FUTURE))) (\<lambda>token.
     andThen (unwrap (biscuit_authorize B gate token NOW SCOPE)) (\<lambda>got.
       holds (got = test_cap FAR_FUTURE))))"

definition expired_token_denied :: "('k, 'p, 'b, 't, 'z, 'a) biscuit \<Rightarrow> test" where
  "expired_token_denied B =
     andThen (biscuit_fixture B) (\<lambda>(authority, gate).
     andThen (unwrap (biscuit_issue B authority (test_cap (NOW - 1)))) (\<lambda>token.
       holds (biscuit_authorize B gate token NOW SCOPE = Err Denied)))"

definition wrong_scope_denied :: "('k, 'p, 'b, 't, 'z, 'a) biscuit \<Rightarrow> test" where
  "wrong_scope_denied B =
     andThen (biscuit_fixture B) (\<lambda>(authority, gate).
     andThen (unwrap (biscuit_issue B authority (test_cap FAR_FUTURE))) (\<lambda>token.
       holds (biscuit_authorize B gate token NOW (ascii ''some-other-scope'') = Err Denied)))"

definition biscuit_wrong_authority_rejected :: "('k, 'p, 'b, 't, 'z, 'a) biscuit \<Rightarrow> test" where
  "biscuit_wrong_authority_rejected B =
     andThen (biscuit_fixture B) (\<lambda>(authority, _).
     andThen (unwrap (biscuit_issue B authority (test_cap FAR_FUTURE))) (\<lambda>token.
     andThen (unwrap (biscuit_authority B (replicate 32 9))) (\<lambda>attacker.
     andThen (unwrap (biscuit_gate_new B (biscuit_public_key B attacker))) (\<lambda>attacker_gate.
       holds (biscuit_authorize B attacker_gate token NOW SCOPE = Err BadSignature)))))"

definition biscuit_tampered_token_rejected :: "('k, 'p, 'b, 't, 'z, 'a) biscuit \<Rightarrow> test" where
  "biscuit_tampered_token_rejected B =
     andThen (biscuit_fixture B) (\<lambda>(authority, gate).
     andThen (unwrap (biscuit_issue B authority (test_cap FAR_FUTURE))) (\<lambda>token.
     let mid = length token div 2 in
     andThen (index_at token mid) (\<lambda>b.
     let r = biscuit_authorize B gate (token[mid := b XOR 1]) NOW SCOPE in
       holds (r = Err BadSignature \<or> r = Err Malformed))))"

text \<open>\<open>format!("{b:02x}")\<close> of every byte.\<close>

definition test_hex_encode :: "bytes \<Rightarrow> string" where
  "test_hex_encode b = concat (map (\<lambda>x. [hex_digit (unat x div 16), hex_digit (unat x mod 16)]) b)"

definition revoked_token_denied :: "('k, 'p, 'b, 't, 'z, 'a) biscuit \<Rightarrow> test" where
  "revoked_token_denied B =
     andThen (biscuit_fixture B) (\<lambda>(authority, gate).
     andThen (unwrap (biscuit_issue B authority (test_cap FAR_FUTURE))) (\<lambda>token.
     andThen (holds (is_ok (biscuit_authorize B gate token NOW SCOPE))) (\<lambda>_.
     andThen (unwrap (ok_or (bi_from_base64 B token (bg_root gate)) ())) (\<lambda>biscuit.
     andThen (index_at (bi_revocation_ids B biscuit) 0) (\<lambda>i.
     andThen (unwrap_mut (revoke_hex gate (test_hex_encode i))) (\<lambda>gate.
       holds (biscuit_authorize B gate token NOW SCOPE = Err Denied)))))))"

text \<open>
  The crate the tests run against: seed 7 is a key whose text is read back, and the tokens minted
  with it carry their facts and are decided as documented.
\<close>

definition biscuit_crate :: "('k, 'p, 'b, 't, 'z, 'a) biscuit \<Rightarrow> 'k \<Rightarrow> bool" where
  "biscuit_crate B k \<longleftrightarrow>
     bi_keypair B (replicate 32 7) = Some k \<and> bi_key_from_text B (biscuit_public_key B k) = Some (bi_public B k) \<and>
     (\<forall>cap. unat (cap_not_after cap) < 2 ^ 63 \<longrightarrow>
        (\<exists>t text. mints B k (capability_facts cap) ''check if expires($e), time($t), $t <= $e'' t text \<and>
           decides B t (capability_facts cap) \<and> bi_revocation_ids B t \<noteq> []))"

lemma test_times [simp]:
  "unat NOW < 2 ^ 63" "unat FAR_FUTURE < 2 ^ 63" "unat (NOW - 1) < 2 ^ 63" "NOW \<le> FAR_FUTURE" "\<not> NOW \<le> NOW - 1"
  "cap_scope (test_cap e) = SCOPE" "cap_not_after (test_cap e) = e" "SCOPE \<noteq> ascii ''some-other-scope''"
  by (simp_all add: NOW_def FAR_FUTURE_def test_cap_def SCOPE_def ascii_def)

lemma test_times_small [simp]:
  "unat NOW < 9223372036854775808" "unat FAR_FUTURE < 9223372036854775808" "unat (NOW - 1) < 9223372036854775808"
  by (simp_all add: NOW_def FAR_FUTURE_def)

lemma biscuit_fixture_eq:
  "biscuit_crate B k \<Longrightarrow> biscuit_fixture B = Ok (k, \<lparr>bg_root = bi_public B k, bg_revoked = {}\<rparr>)"
  by (simp add: biscuit_crate_def biscuit_fixture_def biscuit_authority_def biscuit_gate_new_def)

lemma biscuit_token:
  assumes "biscuit_crate B k" and "unat e < 2 ^ 63"
  obtains t tk where "biscuit_issue B k (test_cap e) = Ok tk" "utf8_valid tk" "bi_from_base64 B tk (bi_public B k) = Some t"
    "bi_revocation_ids B t \<noteq> []"
    "\<And>R now scope. unat now < 2 ^ 63 \<Longrightarrow> biscuit_authorize B \<lparr>bg_root = bi_public B k, bg_revoked = R\<rparr> tk now scope =
      (if R \<inter> set (bi_revocation_ids B t) = {} \<and> scope = SCOPE \<and> now \<le> e then Ok (test_cap e) else Err Denied)"
proof -
  obtain t tk where m: "mints B k (capability_facts (test_cap e)) ''check if expires($e), time($t), $t <= $e'' t tk"
    and d: "decides B t (capability_facts (test_cap e))" and r: "bi_revocation_ids B t \<noteq> []"
    using assms by (auto simp: biscuit_crate_def dest: spec[of _ "test_cap e"])
  have tk: "utf8_valid tk" "bi_from_base64 B tk (bi_public B k) = Some t" using m by (simp_all add: mints_def)
  show ?thesis
    using that[OF issue_eq[OF m] tk r] authorize_eq[OF tk(1) _ d] tk(2) assms(2) by simp
qed

lemma biscuit_tests_pass:
  assumes "biscuit_crate B k"
  shows "biscuit_valid_token_authorizes B = Ok ()" "expired_token_denied B = Ok ()" "wrong_scope_denied B = Ok ()"
proof -
  note fixture = biscuit_fixture_eq[OF assms]
  obtain t tk where tk: "biscuit_issue B k (test_cap FAR_FUTURE) = Ok tk"
    "\<And>R now scope. unat now < 2 ^ 63 \<Longrightarrow> biscuit_authorize B \<lparr>bg_root = bi_public B k, bg_revoked = R\<rparr> tk now scope =
      (if R \<inter> set (bi_revocation_ids B t) = {} \<and> scope = SCOPE \<and> now \<le> FAR_FUTURE then Ok (test_cap FAR_FUTURE) else Err Denied)"
    by (rule biscuit_token[OF assms test_times(2)]) blast
  show "biscuit_valid_token_authorizes B = Ok ()" "wrong_scope_denied B = Ok ()"
    using tk by (simp_all add: biscuit_valid_token_authorizes_def wrong_scope_denied_def fixture not_sym[OF test_times(8)])
  obtain t' tk' where tk': "biscuit_issue B k (test_cap (NOW - 1)) = Ok tk'"
    "\<And>R now scope. unat now < 2 ^ 63 \<Longrightarrow> biscuit_authorize B \<lparr>bg_root = bi_public B k, bg_revoked = R\<rparr> tk' now scope =
      (if R \<inter> set (bi_revocation_ids B t') = {} \<and> scope = SCOPE \<and> now \<le> NOW - 1 then Ok (test_cap (NOW - 1)) else Err Denied)"
    by (rule biscuit_token[OF assms test_times(3)]) blast
  then show "expired_token_denied B = Ok ()" by (simp add: expired_token_denied_def fixture)
qed

text \<open>A revoked identifier, printed and read back.\<close>

lemma test_hex_encode_eq: "test_hex_encode = sample_hex"
  by (simp add: fun_eq_iff test_hex_encode_def sample_hex_def)

lemma revoked_test_passes:
  assumes "biscuit_crate B k"
  shows "revoked_token_denied B = Ok ()"
proof -
  obtain t tk where tk: "biscuit_issue B k (test_cap FAR_FUTURE) = Ok tk" "bi_from_base64 B tk (bi_public B k) = Some t"
    "bi_revocation_ids B t \<noteq> []"
    "\<And>R now scope. unat now < 2 ^ 63 \<Longrightarrow> biscuit_authorize B \<lparr>bg_root = bi_public B k, bg_revoked = R\<rparr> tk now scope =
      (if R \<inter> set (bi_revocation_ids B t) = {} \<and> scope = SCOPE \<and> now \<le> FAR_FUTURE then Ok (test_cap FAR_FUTURE) else Err Denied)"
    by (rule biscuit_token[OF assms test_times(2)]) blast
  obtain i ids where ids: "bi_revocation_ids B t = i # ids" using tk(3) by (cases "bi_revocation_ids B t") auto
  have "revoke_hex \<lparr>bg_root = bi_public B k, bg_revoked = {}\<rparr> (test_hex_encode i) =
      (Ok (), \<lparr>bg_root = bi_public B k, bg_revoked = {i}\<rparr>)"
    using trim_hex_bare[OF sample_hex_digits, of i] by (simp add: revoke_hex_def test_hex_encode_eq decode_sample_hex)
  then show ?thesis
    using tk(1,2,4) ids by (simp add: revoked_token_denied_def biscuit_fixture_eq[OF assms] index_at_def)
qed

text \<open>
  The two rejections of a token that is not the authority's: under another key, or changed in one
  byte, the crate does not read it.
\<close>

lemma foreign_token_tests_pass:
  assumes "biscuit_crate B k" and "biscuit_issue B k (test_cap FAR_FUTURE) = Ok tk" and "tk \<noteq> []"
  shows "bi_keypair B (replicate 32 9) = Some k' \<Longrightarrow> bi_key_from_text B (biscuit_public_key B k') = Some (bi_public B k') \<Longrightarrow>
      bi_from_base64 B tk (bi_public B k') = None \<Longrightarrow> biscuit_wrong_authority_rejected B = Ok ()"
    and "bi_from_base64 B (tk[length tk div 2 := tk ! (length tk div 2) XOR 1]) (bi_public B k) = None \<Longrightarrow>
      biscuit_tampered_token_rejected B = Ok ()"
proof -
  have tk: "utf8_valid tk" using biscuit_token[OF assms(1) test_times(2)] assms(2) by (metis Inr_inject)
  note fixture = biscuit_fixture_eq[OF assms(1)]
  show "biscuit_wrong_authority_rejected B = Ok ()"
    if "bi_keypair B (replicate 32 9) = Some k'" "bi_key_from_text B (biscuit_public_key B k') = Some (bi_public B k')"
      "bi_from_base64 B tk (bi_public B k') = None"
    using that tk assms(2) by (simp add: biscuit_wrong_authority_rejected_def fixture biscuit_authority_def biscuit_gate_new_def
        biscuit_authorize_def from_utf8_def)
  have "length tk div 2 < length tk" using assms(3) by simp
  then show "biscuit_tampered_token_rejected B = Ok ()"
    if "bi_from_base64 B (tk[length tk div 2 := tk ! (length tk div 2) XOR 1]) (bi_public B k) = None"
    using that assms(2)
    by (simp add: biscuit_tampered_token_rejected_def fixture Let_def index_at_def biscuit_authorize_def from_utf8_def)
qed

section \<open>paymaster/src/assemble.rs\<close>

text \<open>\<open>TransactionBuilder::default().build()\<close>, and the outputs the tests give it.\<close>

definition empty_tx :: transaction where
  "empty_tx =
     \<lparr>tx_raw = \<lparr>rt_version = 0, rt_cell_deps = [], rt_header_deps = [], rt_inputs = [], rt_outputs = [], rt_outputs_data = []\<rparr>,
      tx_witnesses = []\<rparr>"

definition with_output :: "u64 \<Rightarrow> bytes \<Rightarrow> transaction \<Rightarrow> transaction" where
  "with_output capacity data tx = tx\<lparr>tx_raw := (tx_raw tx)\<lparr>
     rt_outputs := rt_outputs (tx_raw tx) @ [\<lparr>co_capacity = capacity, co_lock = default_script, co_type = None\<rparr>],
     rt_outputs_data := rt_outputs_data (tx_raw tx) @ [data]\<rparr>\<rparr>"

definition null_point :: "u32 \<Rightarrow> out_point" where
  "null_point i = \<lparr>op_tx_hash = replicate 32 0, op_index = i\<rparr>"

definition with_input :: "out_point \<Rightarrow> transaction \<Rightarrow> transaction" where
  "with_input p tx = tx\<lparr>tx_raw := (tx_raw tx)\<lparr>
     rt_inputs := rt_inputs (tx_raw tx) @ [\<lparr>ci_previous_output = p, ci_since = 0\<rparr>]\<rparr>\<rparr>"

definition balance_appends_fee_input_and_change :: test where
  "balance_appends_fee_input_and_change =
     (let partial = with_output 1000 [] empty_tx in
      andThen (unwrap (balance partial (null_point 0) 1000 100 default_script [])) (\<lambda>balanced.
      andThen (all_hold [length (rt_inputs (tx_raw balanced)) = 1, length (rt_outputs (tx_raw balanced)) = 2]) (\<lambda>_.
      andThen (index_at (rt_outputs (tx_raw balanced)) 1) (\<lambda>change. holds (co_capacity change = 900)))))"

definition insufficient_fee_cell_rejected :: test where
  "insufficient_fee_cell_rejected =
     holds (balance empty_tx (null_point 0) 50 100 default_script [] = Err InsufficientFee)"

lemma assemble_tests_pass: "balance_appends_fee_input_and_change = Ok ()" "insufficient_fee_cell_rejected = Ok ()"
  by (simp_all add: balance_appends_fee_input_and_change_def insufficient_fee_cell_rejected_def Let_def balance_def
      checked_sub_def with_output_def empty_tx_def)

section \<open>paymaster-service/src/lib.rs\<close>

definition TEST_CKB :: u64 where "TEST_CKB = 100000000"

text \<open>
  The tests' node hands out its one fee cell when it covers what is asked for.  That it also records
  having been sent something is left out: no test reads the flag.
\<close>

definition test_rpc :: "externals \<Rightarrow> fee_cell option \<Rightarrow> ckb_rpc" where
  "test_rpc X cell =
     \<lparr>rpc_tip_header_hash = Ok (replicate 32 0),
      rpc_collect_fee_cell = (\<lambda>_ least. Ok (case cell of Some c \<Rightarrow> if fc_capacity c \<ge> least then Some c else None | None \<Rightarrow> None)),
      rpc_send_transaction = (\<lambda>tx. Ok (calc_tx_hash X (tx_raw tx)))\<rparr>"

definition test_fee_cell :: "u64 \<Rightarrow> fee_cell" where
  "test_fee_cell cap = \<lparr>fc_out_point = null_point 7, fc_capacity = cap\<rparr>"

definition test_partial :: transaction where
  "test_partial = with_output (1000 * TEST_CKB) [] (with_input (null_point 0) empty_tx)"

definition test_service ::
  "externals \<Rightarrow> ('k, 'p, 'b, 't, 'z, 'a) biscuit \<Rightarrow> fee_cell option \<Rightarrow> (unit, sponsor_service) result" where
  "test_service X B cell =
     andThen (unwrap (biscuit_authority B (replicate 32 7))) (\<lambda>authority.
     andThen (unwrap (biscuit_gate_new B (biscuit_public_key B authority))) (\<lambda>gate.
       Ok (service_new (biscuit_authorize B gate) (test_rpc X cell) default_script [] 1000 SCOPE)))"

definition test_token :: "('k, 'p, 'b, 't, 'z, 'a) biscuit \<Rightarrow> u64 \<Rightarrow> (unit, bytes) result" where
  "test_token B not_after =
     andThen (unwrap (biscuit_authority B (replicate 32 7))) (\<lambda>authority.
       unwrap (biscuit_issue B authority (test_cap not_after)))"

definition sponsor_balances_authorized_request ::
  "externals \<Rightarrow> (cell_output \<Rightarrow> u64 option) \<Rightarrow> ('k, 'p, 'b, 't, 'z, 'a) biscuit \<Rightarrow> test" where
  "sponsor_balances_authorized_request X occupied B =
     andThen (test_service X B (Some (test_fee_cell (1000 * TEST_CKB)))) (\<lambda>svc.
     andThen (test_token B FAR_FUTURE) (\<lambda>token.
     andThen (unwrap (service_sponsor X occupied svc token test_partial NOW)) (\<lambda>out.
     andThen (all_hold
       [length (rt_inputs (tx_raw (sp_tx out))) = 2, length (rt_outputs (tx_raw (sp_tx out))) = 2,
        sp_subject out = ascii ''player-1'', sp_fee out \<ge> MIN_FEE_SHANNONS]) (\<lambda>_.
     andThen (index_at (rt_outputs (tx_raw (sp_tx out))) 1) (\<lambda>change.
     andThen (ok_or (checked_sub (1000 * TEST_CKB) (sp_fee out)) ()) (\<lambda>rest.
       holds (co_capacity change = rest)))))))"

definition sponsor_rejects_expired_token ::
  "externals \<Rightarrow> (cell_output \<Rightarrow> u64 option) \<Rightarrow> ('k, 'p, 'b, 't, 'z, 'a) biscuit \<Rightarrow> test" where
  "sponsor_rejects_expired_token X occupied B =
     andThen (test_service X B (Some (test_fee_cell (1000 * TEST_CKB)))) (\<lambda>svc.
     andThen (test_token B (NOW - 1)) (\<lambda>token.
     andThen (unwrap_err (service_sponsor X occupied svc token test_partial NOW)) (\<lambda>err.
       holds (case err of ServiceUnauthorized _ \<Rightarrow> True | _ \<Rightarrow> False))))"

definition sponsor_reports_no_fee_cell ::
  "externals \<Rightarrow> (cell_output \<Rightarrow> u64 option) \<Rightarrow> ('k, 'p, 'b, 't, 'z, 'a) biscuit \<Rightarrow> test" where
  "sponsor_reports_no_fee_cell X occupied B =
     andThen (test_service X B (Some (test_fee_cell 10))) (\<lambda>svc.
     andThen (test_token B FAR_FUTURE) (\<lambda>token.
     andThen (unwrap_err (service_sponsor X occupied svc token test_partial NOW)) (\<lambda>err.
       holds (err = NoFeeCell))))"

definition broadcast_forwards_to_node :: "externals \<Rightarrow> ('k, 'p, 'b, 't, 'z, 'a) biscuit \<Rightarrow> test" where
  "broadcast_forwards_to_node X B =
     andThen (test_service X B None) (\<lambda>svc.
     andThen (unwrap (service_broadcast svc test_partial)) (\<lambda>hash.
       holds (hash = calc_tx_hash X (tx_raw test_partial))))"

definition the_service :: "externals \<Rightarrow> ('k, 'p, 'b, 't, 'z, 'a) biscuit \<Rightarrow> 'k \<Rightarrow> fee_cell option \<Rightarrow> sponsor_service" where
  "the_service X B k cell =
     \<lparr>ss_gate = biscuit_authorize B \<lparr>bg_root = bi_public B k, bg_revoked = {}\<rparr>, ss_rpc = test_rpc X cell,
      ss_fee_lock = default_script, ss_fee_cell_deps = [], ss_fee_rate = 1000, ss_scope = SCOPE\<rparr>"

lemma test_service_eq: "biscuit_crate B k \<Longrightarrow> test_service X B cell = Ok (the_service X B k cell)"
  by (simp add: test_service_def service_new_def the_service_def biscuit_crate_def biscuit_authority_def biscuit_gate_new_def)

lemma test_token_eq: "biscuit_crate B k \<Longrightarrow> test_token B e = unwrap (biscuit_issue B k (test_cap e))"
  by (simp add: test_token_def biscuit_crate_def biscuit_authority_def)

lemma the_service_simps [simp]:
  "ss_gate (the_service X B k cell) = biscuit_authorize B \<lparr>bg_root = bi_public B k, bg_revoked = {}\<rparr>"
  "ss_rpc (the_service X B k cell) = test_rpc X cell" "ss_fee_lock (the_service X B k cell) = default_script"
  "ss_fee_cell_deps (the_service X B k cell) = []" "ss_fee_rate (the_service X B k cell) = 1000"
  "ss_scope (the_service X B k cell) = SCOPE"
  by (simp_all add: the_service_def)

text \<open>What balancing makes of the tests' transaction; the size molecule gives it is a parameter.\<close>

lemma balance_test_partial:
  "fee \<le> cap \<Longrightarrow> \<exists>tx. balance test_partial fi cap fee default_script [] = Ok tx \<and>
     length (rt_inputs (tx_raw tx)) = 2 \<and>
     rt_outputs (tx_raw tx) = [\<lparr>co_capacity = 1000 * TEST_CKB, co_lock = default_script, co_type = None\<rparr>,
       \<lparr>co_capacity = cap - fee, co_lock = default_script, co_type = None\<rparr>]"
  by (simp add: balance_def checked_sub_def Let_def test_partial_def with_output_def with_input_def empty_tx_def)

lemma small_transaction_fee:
  assumes "length (molecule_transaction X tx) \<le> 1000"
  shows "max (min_fee X tx 1000) MIN_FEE_SHANNONS = 1000"
proof -
  let ?n = "length (molecule_transaction X tx)"
  have "unat (of_nat ?n :: u64) = ?n" using assms by (intro unat_of_nat_small) simp
  then have "unat (min_fee X tx 1000) = (min (?n * 1000) (2 ^ 64 - 1) + 999) div 1000"
    by (simp only: min_fee_ceiling) simp
  also have "\<dots> \<le> 1000" using assms by simp
  finally have "min_fee X tx 1000 \<le> 1000" by (simp add: word_le_nat_alt)
  then show ?thesis by (simp add: MIN_FEE_SHANNONS_def max_def)
qed

lemma sponsor_run:
  assumes B: "biscuit_authorize B \<lparr>bg_root = bi_public B k, bg_revoked = {}\<rparr> tk NOW SCOPE = Ok (test_cap e)"
    and occ: "occupied \<lparr>co_capacity = 0, co_lock = default_script, co_type = None\<rparr> = Some (41 * TEST_CKB)"
    and size: "\<And>dry. dry_balance (the_service X B k cell) test_partial = Ok dry \<Longrightarrow> length (molecule_transaction X dry) \<le> 1000"
  shows "service_sponsor X occupied (the_service X B k cell) tk test_partial NOW =
    (case cell of
       Some c \<Rightarrow> if 41 * TEST_CKB + 1000 \<le> fc_capacity c
         then andThen (map_err ServiceAssemble (balance test_partial (fc_out_point c) (fc_capacity c) 1000 default_script []))
           (\<lambda>tx. Ok \<lparr>sp_tx = tx, sp_fee = 1000, sp_fee_input = fc_out_point c, sp_subject = ascii ''player-1''\<rparr>)
         else Err NoFeeCell
     | None \<Rightarrow> Err NoFeeCell)"
proof -
  obtain dry where dry: "dry_balance (the_service X B k cell) test_partial = Ok dry"
    using balance_test_partial[of 0 "(- 1) div 2"] by (auto simp: dry_balance_def)
  note fee = small_transaction_fee[OF size[OF dry]]
  have needed: "checked_add 1000 (41 * TEST_CKB) = Some (41 * TEST_CKB + 1000)" by (simp add: checked_add_def TEST_CKB_def)
  show ?thesis
    unfolding service_sponsor_def the_service_simps B dry andThen.simps map_err.simps Let_def fee
    by (simp add: min_change_def occ needed test_rpc_def test_cap_def split: option.splits)
qed

lemma service_tests_pass:
  assumes "biscuit_crate B k"
    and "occupied \<lparr>co_capacity = 0, co_lock = default_script, co_type = None\<rparr> = Some (41 * TEST_CKB)"
    and "\<And>cell dry. dry_balance (the_service X B k cell) test_partial = Ok dry \<Longrightarrow> length (molecule_transaction X dry) \<le> 1000"
  shows "sponsor_balances_authorized_request X occupied B = Ok ()" "sponsor_rejects_expired_token X occupied B = Ok ()"
    "sponsor_reports_no_fee_cell X occupied B = Ok ()" "broadcast_forwards_to_node X B = Ok ()"
proof -
  note service = test_service_eq[OF assms(1)] and token = test_token_eq[OF assms(1)]
  obtain t tk where tk: "biscuit_issue B k (test_cap FAR_FUTURE) = Ok tk"
    "\<And>R now scope. unat now < 2 ^ 63 \<Longrightarrow> biscuit_authorize B \<lparr>bg_root = bi_public B k, bg_revoked = R\<rparr> tk now scope =
      (if R \<inter> set (bi_revocation_ids B t) = {} \<and> scope = SCOPE \<and> now \<le> FAR_FUTURE then Ok (test_cap FAR_FUTURE) else Err Denied)"
    by (rule biscuit_token[OF assms(1) test_times(2)]) blast
  then have granted: "biscuit_authorize B \<lparr>bg_root = bi_public B k, bg_revoked = {}\<rparr> tk NOW SCOPE = Ok (test_cap FAR_FUTURE)"
    by simp
  have run: "service_sponsor X occupied (the_service X B k (Some (test_fee_cell cap))) tk test_partial NOW =
      (if 41 * TEST_CKB + 1000 \<le> cap
       then andThen (map_err ServiceAssemble (balance test_partial (null_point 7) cap 1000 default_script []))
         (\<lambda>tx. Ok \<lparr>sp_tx = tx, sp_fee = 1000, sp_fee_input = null_point 7, sp_subject = ascii ''player-1''\<rparr>)
       else Err NoFeeCell)" for cap
    using sponsor_run[where cell = "Some (test_fee_cell cap)" and X = X and B = B and k = k and tk = tk and occupied = occupied
        and e = FAR_FUTURE, OF granted assms(2)] assms(3)
    by (simp add: test_fee_cell_def)
  have enough: "41 * TEST_CKB + 1000 \<le> 1000 * TEST_CKB" "\<not> 41 * TEST_CKB + 1000 \<le> 10" "1000 \<le> 1000 * TEST_CKB" by (simp_all add: TEST_CKB_def)
  obtain tx where tx: "balance test_partial (null_point 7) (1000 * TEST_CKB) 1000 default_script [] = Ok tx"
    "length (rt_inputs (tx_raw tx)) = 2" "rt_outputs (tx_raw tx) = [\<lparr>co_capacity = 1000 * TEST_CKB, co_lock = default_script, co_type = None\<rparr>,
       \<lparr>co_capacity = 1000 * TEST_CKB - 1000, co_lock = default_script, co_type = None\<rparr>]"
    using balance_test_partial[OF enough(3)] by blast
  show "sponsor_balances_authorized_request X occupied B = Ok ()"
    using tx by (simp add: sponsor_balances_authorized_request_def service token tk(1) run enough index_at_def
        MIN_FEE_SHANNONS_def checked_sub_def)
  show "sponsor_reports_no_fee_cell X occupied B = Ok ()"
    by (simp add: sponsor_reports_no_fee_cell_def service token tk(1) run enough)
  show "broadcast_forwards_to_node X B = Ok ()"
    by (simp add: broadcast_forwards_to_node_def service service_broadcast_def test_rpc_def)
  obtain t' tk' where tk': "biscuit_issue B k (test_cap (NOW - 1)) = Ok tk'"
    "\<And>R now scope. unat now < 2 ^ 63 \<Longrightarrow> biscuit_authorize B \<lparr>bg_root = bi_public B k, bg_revoked = R\<rparr> tk' now scope =
      (if R \<inter> set (bi_revocation_ids B t') = {} \<and> scope = SCOPE \<and> now \<le> NOW - 1 then Ok (test_cap (NOW - 1)) else Err Denied)"
    by (rule biscuit_token[OF assms(1) test_times(3)]) blast
  then have "service_sponsor X occupied (the_service X B k cell) tk' test_partial NOW = Err (ServiceUnauthorized Denied)" for cell
    by (simp add: service_sponsor_def)
  then show "sponsor_rejects_expired_token X occupied B = Ok ()"
    by (simp add: sponsor_rejects_expired_token_def service token tk'(1))
qed

section \<open>paymaster-service/src/sighash.rs\<close>

fun unwrap_text :: "string + 'a \<Rightarrow> (unit, 'a) result" where
  "unwrap_text (Inl e) = Panicked"
| "unwrap_text (Inr x) = Ok x"

definition dummy_tx :: "externals \<Rightarrow> transaction" where
  "dummy_tx X =
     (let witness = molecule_witness_args X \<lparr>wa_lock = None, wa_input_type = Some (replicate 55 7), wa_output_type = None\<rparr>;
          tx = with_output 500 [1, 2, 3] (with_input (null_point 0) empty_tx)
      in tx\<lparr>tx_witnesses := [witness]\<rparr>)"

text \<open>\<open>recover_ecdsa\<close> and \<open>PublicKey::from_secret_key\<close> of secp256k1 are the last two arguments.\<close>

definition signature_recovers_to_the_signer_and_preserves_batch ::
  "externals \<Rightarrow> sighash_crates \<Rightarrow> (bytes \<Rightarrow> bytes \<times> byte \<Rightarrow> 'pk option) \<Rightarrow> (bytes \<Rightarrow> 'pk) \<Rightarrow> test" where
  "signature_recovers_to_the_signer_and_preserves_batch X S recover public =
     (let sk = replicate 32 0x11; tx = dummy_tx X in
      andThen (unwrap_text (sign_sighash_all X S sk tx)) (\<lambda>signed_tx.
      andThen (holds (calc_tx_hash X (tx_raw signed_tx) = calc_tx_hash X (tx_raw tx))) (\<lambda>_.
      andThen (index_at (tx_witnesses signed_tx) 0) (\<lambda>w.
      andThen (unwrap_text (wa_from_slice S w)) (\<lambda>args.
      andThen (unwrap (ok_or (wa_input_type args) ())) (\<lambda>batch.
      andThen (holds (batch = replicate 55 7)) (\<lambda>_.
      andThen (unwrap (ok_or (wa_lock args) ())) (\<lambda>sg.
      andThen (index_at (tx_witnesses tx) 0) (\<lambda>w0.
      andThen (unwrap_text (wa_from_slice S w0)) (\<lambda>orig.
      let msg = blake2b_256 X (calc_tx_hash X (tx_raw signed_tx) @ hash_witness (zeroed_lock_witness X orig)) in
      andThen (slice sg 0 64) (\<lambda>compact.
      andThen (index_at sg 64) (\<lambda>rec_id.
      andThen (unwrap (ok_or (recover msg (compact, rec_id)) ())) (\<lambda>pk.
        holds (pk = public sk))))))))))))))"

text \<open>Documented of secp256k1: a recoverable signature has 64 bytes and an id, and yields its signer.\<close>

lemma sighash_test_passes:
  assumes "witness_roundtrip X S" and "\<And>m. length (fst (sign_recoverable S m (replicate 32 0x11))) = 64"
    and "\<And>m. recover m (sign_recoverable S m (replicate 32 0x11)) = Some (public (replicate 32 0x11))"
  shows "signature_recovers_to_the_signer_and_preserves_batch X S recover public = Ok ()"
proof -
  define orig where "orig = \<lparr>wa_lock = None, wa_input_type = Some (replicate 55 (7 :: byte)), wa_output_type = None\<rparr>"
  define m where "m = sighash_message X (dummy_tx X) orig"
  obtain compact rec_id where sig: "sign_recoverable S m (replicate 32 0x11) = (compact, rec_id)" by fastforce
  then have l: "length compact = 64" and r: "recover m (compact, rec_id) = Some (public (replicate 32 0x11))"
    using assms(2)[of m] assms(3)[of m] by simp_all
  have rt: "wa_from_slice S (molecule_witness_args X w) = Inr w" for w using assms(1) by (simp add: witness_roundtrip_def)
  have tx: "tx_witnesses (dummy_tx X) = [molecule_witness_args X orig]"
    by (simp add: dummy_tx_def orig_def Let_def)
  have m': "m = blake2b_256 X (calc_tx_hash X (tx_raw (dummy_tx X)) @ hash_witness (zeroed_lock_witness X orig))"
    by (simp add: m_def sighash_message_def tx) (simp add: dummy_tx_def Let_def with_output_def with_input_def empty_tx_def)
  have s: "sign_sighash_all X S (replicate 32 0x11) (dummy_tx X) =
      Inr ((dummy_tx X)\<lparr>tx_witnesses := [molecule_witness_args X (orig\<lparr>wa_lock := Some (compact @ [rec_id])\<rparr>)]\<rparr>)"
    by (simp add: sign_sighash_all_def tx rt sig flip: m_def)
  have fields: "wa_input_type (orig\<lparr>wa_lock := l\<rparr>) = Some (replicate 55 7)" for l by (simp add: orig_def)
  show ?thesis
    unfolding signature_recovers_to_the_signer_and_preserves_batch_def Let_def s
    using l r by (simp add: rt tx fields index_at_def nth_append flip: m')
qed

end
