(* ===== verification/Browser_Tests.thy ===== *)
theory Browser_Tests
  imports Account_Tests Relay_Tests "HOL-Library.Sublist"
begin

text \<open>
  The unit tests of the browser surface, run on the model.  They speak hex, so they are proved for
  every instance of the crates whose hex is the lower-case text that reads back and whose molecule
  parsers invert the serialisers.
\<close>

section \<open>The crates\<close>

definition browser_crates :: "externals \<Rightarrow> wasm_crates \<Rightarrow> bool" where
  "browser_crates X W \<longleftrightarrow>
     hex_encode X = test_hex_encode \<and> (\<forall>b. wc_hex_decode W (test_hex_encode b) = Inr b) \<and>
     (\<exists>e. wc_hex_decode W ''nothex'' = Inl e) \<and> (\<forall>s. script_from_slice W (script_slice W s) = Inr s) \<and>
     (\<forall>tx. transaction_from_slice W (molecule_transaction X tx) = Inr tx) \<and>
     (\<forall>hrp p. \<exists>s. bech32m_encode W hrp p = Inr (hrp @ ''1'' @ s)) \<and> digests_32 X"

definition Z32 :: string where
  "Z32 = ''0x'' @ replicate 64 CHR ''0''"

definition starts_with :: "string \<Rightarrow> string \<Rightarrow> bool" where
  "starts_with s p \<longleftrightarrow> prefix p s"

definition contains :: "string \<Rightarrow> string \<Rightarrow> bool" where
  "contains s t \<longleftrightarrow> sublist t s"

section \<open>The tests\<close>

definition args_roundtrip_matches_sdk :: "externals \<Rightarrow> wasm_crates \<Rightarrow> test" where
  "args_roundtrip_matches_sdk X W =
     andThen (unwrap (wasm_session_params X W (hexout X (replicate 20 1)) 42 (wildcard_root X) ''7''
       (hexout X (replicate 20 0)))) (\<lambda>params.
     andThen (unwrap (wasm_registered_args X W (hexout X (replicate 20 9)) params)) (\<lambda>args.
     let direct = registered_args (replicate 20 9)
           (sdk_session_params (replicate 20 1) 42 WILDCARD_ROOT 7 (replicate 20 0))
     in all_hold [length args = 2 + ARGS_LEN * 2, args = hexout X direct]))"

definition bad_hex_is_rejected :: "externals \<Rightarrow> wasm_crates \<Rightarrow> test" where
  "bad_hex_is_rejected X W =
     all_hold
       [\<not> is_ok (wasm_session_params X W ''nothex'' 1 (wildcard_root X) ''1'' (hexout X (replicate 20 0))),
        \<not> is_ok (wasm_registered_args X W (hexout X (replicate 5 1)) ''0x00'')]"

definition address_is_bech32m :: "wasm_crates \<Rightarrow> test" where
  "address_is_bech32m W =
     andThen (unwrap (controller_address W Z32 0x04 ''0x1234'' True)) (\<lambda>testnet.
     andThen (holds (starts_with testnet ''ckt1'')) (\<lambda>_.
     andThen (unwrap (controller_address W Z32 0x04 ''0x1234'' False)) (\<lambda>mainnet.
       holds (starts_with mainnet ''ckb1''))))"

definition tx_message_matches_sdk :: "externals \<Rightarrow> wasm_crates \<Rightarrow> test" where
  "tx_message_matches_sdk X W =
     (let tx = with_output 1000 [] empty_tx; mol = hexout X (molecule_transaction X tx) in
      andThen (unwrap (wasm_tx_message X W mol)) (\<lambda>m. holds (m = hexout X (sdk_tx_message X tx))))"

definition merkle_root_proof_verify :: "externals \<Rightarrow> wasm_crates \<Rightarrow> test" where
  "merkle_root_proof_verify X W =
     (let leaves = map (\<lambda>i. hexout X (replicate 32 (of_nat i))) [0..<4] in
      andThen (unwrap (wasm_merkle_root X W leaves)) (\<lambda>root.
      andThen (unwrap (wasm_merkle_proof X W leaves 2)) (\<lambda>prf.
      andThen (unwrap (wasm_merkle_verify X W root (leaves ! 2) prf)) holds)))"

definition full_channel_loop_in_wasm_surface :: "externals \<Rightarrow> wasm_crates \<Rightarrow> test" where
  "full_channel_loop_in_wasm_surface X W =
     andThen (unwrap (wasm_script X W Z32 0x00 ''0x6669626572'')) (\<lambda>funding.
     andThen (unwrap (wasm_script X W Z32 0x04 ''0x6163636f756e74'')) (\<lambda>account.
     andThen (unwrap (wasm_session_new W account (Z32 @ '':0'') 100000000000 funding Z32)) (\<lambda>s.
     andThen (unwrap_both (wasm_open X W s ''game-node'' 50000000000)) (\<lambda>(open_tx, s).
     andThen (all_hold [starts_with (wt_tx open_tx) ''0x'', length (wt_message open_tx) = 66, wasm_is_open s]) (\<lambda>_.
     andThen (unwrap_mut (wasm_pay s 1000000000)) (\<lambda>s.
     andThen (unwrap_mut (wasm_pay s 1000000000)) (\<lambda>s.
     andThen (unwrap_mut (wasm_pay s 1000000000)) (\<lambda>s.
     andThen (unwrap_mut (wasm_pay s 1000000000)) (\<lambda>s.
     andThen (unwrap_mut (wasm_pay s 1000000000)) (\<lambda>s.
     andThen (holds (wasm_spent s = ''5000000000'')) (\<lambda>_.
     andThen (unwrap (wasm_remaining s)) (\<lambda>remaining.
     andThen (holds (remaining = ''45000000000'')) (\<lambda>_.
     andThen (unwrap_both (wasm_close X W s)) (\<lambda>(close, s).
       all_hold
         [cr_local close = ''45000000000'', cr_remote close = ''5000000000'',
          starts_with (wt_tx (cr_settle close)) ''0x'', \<not> wasm_is_open s]))))))))))))))"

definition game_intent_message_matches_sdk :: "externals \<Rightarrow> wasm_crates \<Rightarrow> test" where
  "game_intent_message_matches_sdk X W =
     andThen (unwrap (wasm_game_intent_message X W (hexout X (replicate 32 7)) (hexout X (replicate 20 3)) 42 5)) (\<lambda>msg.
       holds (msg = hexout X (intent_message (blake2b_256 X) (replicate 32 7) (replicate 20 3) 42 5)))"

definition game_encode_intent_is_101_bytes :: "externals \<Rightarrow> wasm_crates \<Rightarrow> test" where
  "game_encode_intent_is_101_bytes X W =
     andThen (unwrap (game_encode_intent X W (hexout X (replicate 20 3)) 10 1 (hexout X (replicate 65 0)))) (\<lambda>intent.
       all_hold
         [length intent = 2 + INTENT_LEN * 2,
          \<not> is_ok (game_encode_intent X W (hexout X (replicate 20 3)) 10 1 (hexout X (replicate 10 0)))])"

definition game_apply_and_batch_match_sdk :: "externals \<Rightarrow> wasm_crates \<Rightarrow> test" where
  "game_apply_and_batch_match_sdk X W =
     andThen (unwrap (game_encode_intent X W (hexout X (replicate 20 1)) 10 1 (hexout X (replicate 65 0)))) (\<lambda>i1.
     andThen (unwrap (game_encode_intent X W (hexout X (replicate 20 2)) 20 1 (hexout X (replicate 65 0)))) (\<lambda>i2.
     andThen (unwrap (game_encode_batch X W [i1, i2])) (\<lambda>batch.
     andThen (unwrap (game_apply X W ''0x'' batch)) (\<lambda>next_state.
     andThen (unwrap_mut (apply_batch empty_state
       [unsigned_intent (replicate 20 1) 10 1, unsigned_intent (replicate 20 2) 20 1])) (\<lambda>s.
     andThen (holds (next_state = hexout X (state_encode s))) (\<lambda>_.
     andThen (unwrap (game_decode_state X W next_state)) (\<lambda>json.
       holds (contains json (quoted ''seq'' @ '':2'')))))))))"

definition game_decode_state_renders_board :: "externals \<Rightarrow> wasm_crates \<Rightarrow> test" where
  "game_decode_state_renders_board X W =
     andThen (unwrap_mut (apply_batch empty_state [unsigned_intent (replicate 20 9) 30 1])) (\<lambda>s.
     andThen (unwrap (game_decode_state X W (hexout X (state_encode s)))) (\<lambda>json.
       all_hold
         [contains json (quoted ''seq'' @ '':1''), contains json (quoted ''score'' @ '':30''),
          contains json (hexout X (replicate 20 9))]))"

definition pay_over_budget_errors :: "externals \<Rightarrow> wasm_crates \<Rightarrow> test" where
  "pay_over_budget_errors X W =
     andThen (unwrap (wasm_script X W Z32 0x00 ''0x00'')) (\<lambda>funding.
     andThen (unwrap (wasm_script X W Z32 0x04 ''0x00'')) (\<lambda>account.
     andThen (unwrap (wasm_session_new W account (Z32 @ '':0'') 1000 funding Z32)) (\<lambda>s.
     andThen (unwrap_mut (wasm_open X W s ''peer'' 100)) (\<lambda>s.
       holds (\<not> is_ok (fst (wasm_pay s 1000)))))))"

section \<open>They pass\<close>

lemma crates_hex: "browser_crates X W \<Longrightarrow> hex_reads X (\<lambda>s. right_opt (wc_hex_decode W s))"
  using sample_hex_digits by (simp add: browser_crates_def hex_reads_def hex_digits_def test_hex_encode_eq)

lemma length_hexout: "browser_crates X W \<Longrightarrow> length (hexout X b) = 2 + 2 * length b"
  by (simp add: browser_crates_def hexout_def test_hex_encode_eq length_sample_hex)

text \<open>Text written out in the tests, as bytes.\<close>

lemma zero_text: "concat (replicate n [CHR ''0'', CHR ''0'']) = replicate (2 * n) CHR ''0''"
  by (induction n) simp_all

lemma test_texts:
  assumes "browser_crates X W"
  shows "Z32 = hexout X (replicate 32 0)" "''0x1234'' = hexout X [0x12, 0x34]" "''0x'' = hexout X []" "''0x00'' = hexout X [0]"
    "''0x6669626572'' = hexout X (ascii ''fiber'')" "''0x6163636f756e74'' = hexout X (ascii ''account'')"
proof -
  have X: "hexout X b = ''0x'' @ concat (map (\<lambda>x. [hex_digit (unat x div 16), hex_digit (unat x mod 16)]) b)" for b
    using assms by (simp add: browser_crates_def hexout_def test_hex_encode_def)
  show "Z32 = hexout X (replicate 32 0)" unfolding X Z32_def by (simp add: hex_digit_def zero_text)
  show "''0x1234'' = hexout X [0x12, 0x34]" "''0x'' = hexout X []" "''0x00'' = hexout X [0]"
    "''0x6669626572'' = hexout X (ascii ''fiber'')" "''0x6163636f756e74'' = hexout X (ascii ''account'')"
    unfolding X by (simp_all add: hex_digit_def ascii_def)
qed

lemma reads:
  assumes "browser_crates X W"
  shows "hx W (hexout X b) = Ok b" "arr20 W (hexout X b) = sized 20 ''expected 20 bytes'' b"
    "arr32 W (hexout X b) = sized 32 ''expected 32 bytes'' b" "hexout X b = hexout X b' \<longleftrightarrow> b = b'"
proof -
  note h = hx_hexout[OF crates_hex[OF assms]]
  show "hx W (hexout X b) = Ok b" by (rule h)
  show "arr20 W (hexout X b) = sized 20 ''expected 20 bytes'' b" "arr32 W (hexout X b) = sized 32 ''expected 32 bytes'' b"
    by (simp_all add: arr20_def arr32_def h)
  show "hexout X b = hexout X b' \<longleftrightarrow> b = b'" by (metis h sum.inject(2))
qed

lemma no_digits_rejected: "browser_crates X W \<Longrightarrow> \<not> is_ok (hx W ''nothex'')"
  by (auto simp: browser_crates_def hx_def)

lemma args_roundtrip_passes:
  assumes "browser_crates X W"
  shows "args_roundtrip_matches_sdk X W = Ok ()"
proof -
  have length_wildcard: "length WILDCARD_ROOT = 32" by (simp add: WILDCARD_ROOT_def)
  have seven: "parse_u128 W ''7'' = Ok 7" by (simp add: parse_u128_def parse_unsigned_def)
  show ?thesis
    using length_hexout[OF assms]
    by (simp add: args_roundtrip_matches_sdk_def wasm_session_params_def wasm_registered_args_def wildcard_root_def
        reads[OF assms] sized_def seven Let_def length_wildcard) (simp add: registered_args_def sdk_session_params_def lock_lens length_wildcard)
qed

lemma bad_hex_passes:
  assumes "browser_crates X W"
  shows "bad_hex_is_rejected X W = Ok ()"
proof -
  have "\<not> is_ok (arr20 W ''nothex'')"
    using no_digits_rejected[OF assms] by (cases "hx W ''nothex''") (auto simp: arr20_def)
  then have "\<not> is_ok (wasm_session_params X W ''nothex'' 1 (wildcard_root X) ''1'' (hexout X (replicate 20 0)))"
    by (cases "arr20 W ''nothex''") (auto simp: wasm_session_params_def)
  then show ?thesis by (simp add: bad_hex_is_rejected_def wasm_registered_args_def reads[OF assms] sized_def)
qed

lemma address_passes:
  assumes "browser_crates X W"
  shows "address_is_bech32m W = Ok ()"
proof -
  have b: "\<exists>s. bech32m_encode W hrp p = Inr (hrp @ ''1'' @ s)" for hrp p
    using assms by (simp add: browser_crates_def)
  obtain s where s: "bech32m_encode W ''ckt'' ([0] @ replicate 32 0 @ [0x04] @ [0x12, 0x34]) = Inr (''ckt'' @ ''1'' @ s)" using b by blast
  obtain t where t: "bech32m_encode W ''ckb'' ([0] @ replicate 32 0 @ [0x04] @ [0x12, 0x34]) = Inr (''ckb'' @ ''1'' @ t)" using b by blast
  show ?thesis
    unfolding address_is_bech32m_def controller_address_def test_texts(1,2)[OF assms] reads[OF assms]
    using s t by (simp add: sized_def starts_with_def)
qed

lemma message_tests_pass:
  assumes "browser_crates X W"
  shows "tx_message_matches_sdk X W = Ok ()" "game_intent_message_matches_sdk X W = Ok ()"
    "game_encode_intent_is_101_bytes X W = Ok ()"
proof -
  have "transaction_from_slice W (molecule_transaction X tx) = Inr tx" for tx using assms by (simp add: browser_crates_def)
  then show "tx_message_matches_sdk X W = Ok ()"
    by (simp add: tx_message_matches_sdk_def Let_def wasm_tx_message_def reads[OF assms])
  show "game_intent_message_matches_sdk X W = Ok ()"
    by (simp add: game_intent_message_matches_sdk_def wasm_game_intent_message_def reads[OF assms] sized_def)
  show "game_encode_intent_is_101_bytes X W = Ok ()"
    using length_hexout[OF assms]
    by (simp add: game_encode_intent_is_101_bytes_def game_encode_intent_def reads[OF assms] sized_def game_lens
        intent_encode_def)
qed

lemma leaves_read:
  assumes "browser_crates X W" and "\<forall>b \<in> set bs. length b = 32"
  shows "traverse (arr32 W) (map (hexout X) bs) = Ok bs"
  using assms(2) by (induction bs) (simp_all add: reads[OF assms(1)] sized_def)

lemma merkle_test_passes:
  assumes "browser_crates X W"
  shows "merkle_root_proof_verify X W = Ok ()"
proof -
  let ?H = "blake2b_256 X" and ?ls = "map (\<lambda>i. replicate 32 (of_nat i :: byte)) [0..<4]"
  have H: "length (?H b) = 32" for b using assms by (simp add: browser_crates_def digests_32_def)
  have texts: "map (\<lambda>i. hexout X (replicate 32 (of_nat i))) [0..<4] = map (hexout X) ?ls" by simp
  have ls: "traverse (arr32 W) (map (hexout X) ?ls) = Ok ?ls" by (rule leaves_read[OF assms]) simp
  have n: "2 < length ?ls" by simp
  from merkle_root_complete[OF n, of ?H] obtain p where
    p: "merkle_proof ?H ?ls 2 = Ok p" and r: "merkle_root ?H ?ls = Ok (foldl (pair ?H) (?ls ! 2) p)" by blast
  have sib: "\<forall>s \<in> set p. length s = 32"
    using merkle_proof_siblings[OF H, where level = ?ls and i = 2 and p = p] p by (simp add: merkle_proof_def)
  have node: "length (foldl (pair ?H) l p) = 32" if "length l = 32" for l
    using that H by (induction p rule: rev_induct) (simp_all add: pair_def)
  have leaf: "map (hexout X) ?ls ! 2 = hexout X (?ls ! 2)" "length (?ls ! 2) = 32"
    by simp_all
  show ?thesis
    unfolding merkle_root_proof_verify_def Let_def texts
    by (simp only: wasm_merkle_root_def wasm_merkle_proof_def wasm_merkle_verify_def leaves_from_def ls andThen.simps r p
        no_error_def map_err.simps unwrap.simps leaves_read[OF assms sib] leaf(1) reads[OF assms] sized_def node[OF leaf(2)] leaf(2)
        if_True sdk_merkle_verify_def holds_simps unat_numeral)
       (simp add: p leaves_read[OF assms sib])
qed

lemma intent_built:
  assumes "browser_crates X W" and "length h = 20"
  shows "game_encode_intent X W (hexout X h) p n (hexout X (replicate 65 0)) = Ok (hexout X (intent_encode (unsigned_intent h p n)))"
  using assms(2) by (simp add: game_encode_intent_def reads[OF assms(1)] sized_def SIGNATURE_LEN_def unsigned_intent_def)

text \<open>A board of the tests is short, so the browser reads it as the SDK does.\<close>

lemma browser_reads_board:
  assumes "wf_state s" and "length (gs_players s) \<le> 2"
  shows "state_decode_wasm (state_encode s) = Ok s"
  using assms by (intro wasm_state_decodes state_decode_encode) (simp_all add: state_encode_length game_lens)

lemma shown_numbers:
  "show_nat (Suc 0) = ''1''" "show_nat 2 = ''2''" "show_nat 30 = ''30''" "show_nat 5000000000 = ''5000000000''"
  "show_nat 45000000000 = ''45000000000''"
  by (simp_all add: show_nat.simps char_of_def bit_0)

lemma contains_middle: "contains (a @ t @ b) t"
  by (auto simp: contains_def sublist_def)

definition two_player_board :: game_state where
  "two_player_board = \<lparr>gs_seq = 2, gs_players =
     [\<lparr>p_hash = replicate 20 1, p_score = 10, p_nonce = 1\<rparr>, \<lparr>p_hash = replicate 20 2, p_score = 20, p_nonce = 1\<rparr>]\<rparr>"

definition one_player_board :: game_state where
  "one_player_board = \<lparr>gs_seq = 1, gs_players = [\<lparr>p_hash = replicate 20 9, p_score = 30, p_nonce = 1\<rparr>]\<rparr>"

lemma test_boards:
  "apply_batch empty_state [unsigned_intent (replicate 20 1) 10 1, unsigned_intent (replicate 20 2) 20 1] = (Ok (), two_player_board)"
  "apply_batch empty_state [unsigned_intent (replicate 20 9) 30 1] = (Ok (), one_player_board)"
  "wf_state two_player_board" "wf_state one_player_board"
  "length (gs_players two_player_board) = 2" "length (gs_players one_player_board) = 1"
  by (simp_all add: test_board two_player_board_def one_player_board_def wf_state_def wf_entry_def)

lemma game_apply_test_passes:
  assumes "browser_crates X W"
  shows "game_apply_and_batch_match_sdk X W = Ok ()"
proof -
  let ?is = "[unsigned_intent (replicate 20 1) 10 1, unsigned_intent (replicate 20 2) 20 1]"
  have b: "game_encode_batch X W (map (\<lambda>i. hexout X (intent_encode i)) ?is) = Ok (hexout X (encode_batch ?is))"
    by (simp add: game_encode_batch_def reads[OF assms] intent.dec_enc)
  have d: "decode_batch (encode_batch ?is) = Ok ?is" by (rule decode_batch_encode) (simp add: wf_batch_def)
  have e: "state_decode_wasm [] = Ok empty_state" by (simp add: state_decode_wasm_def STATE_HEADER_LEN_def state_decode_def)
  have a: "game_apply X W ''0x'' (hexout X (encode_batch ?is)) = Ok (hexout X (state_encode two_player_board))"
    unfolding game_apply_def test_texts(3)[OF assms] reads[OF assms] andThen.simps e map_err.simps d test_boards(1)
    by simp
  have j: "\<exists>r. game_decode_state X W (hexout X (state_encode two_player_board)) = Ok ([CHR ''{''] @ (quoted ''seq'' @ '':2'') @ r)"
    using browser_reads_board[OF test_boards(3)] test_boards(5)
    by (simp add: game_decode_state_def reads[OF assms] show_word_def shown_numbers) (simp add: two_player_board_def shown_numbers)
  then obtain r where "game_decode_state X W (hexout X (state_encode two_player_board)) = Ok ([CHR ''{''] @ (quoted ''seq'' @ '':2'') @ r)"
    by blast
  then show ?thesis
    using b contains_middle[of "''{''" "quoted ''seq'' @ '':2''" r]
    by (simp add: game_apply_and_batch_match_sdk_def intent_built[OF assms] a test_boards(1))
qed

lemma game_render_test_passes:
  assumes "browser_crates X W"
  shows "game_decode_state_renders_board X W = Ok ()"
proof -
  let ?h = "hexout X (replicate 20 9)"
  have j: "game_decode_state X W (hexout X (state_encode one_player_board)) =
      Ok (''{'' @ (quoted ''seq'' @ '':1'') @ '','' @ quoted ''players'' @ '':[{'' @ quoted ''hash'' @ '':'' @ [CHR 0x22] @ ?h @
        [CHR 0x22] @ '','' @ (quoted ''score'' @ '':30'') @ '','' @ quoted ''nonce'' @ '':1}'' @ '']}'')"
    using browser_reads_board[OF test_boards(4)] test_boards(6)
    by (simp add: game_decode_state_def reads[OF assms] show_word_def)
       (simp add: one_player_board_def render_player_def show_word_def shown_numbers quoted_def)
  have c: "contains (a @ b @ c @ d @ e @ f @ g @ h @ i @ j @ l @ t @ k) t" for a b c d e f g h i j l t k :: string
    using contains_middle[of "a @ b @ c @ d @ e @ f @ g @ h @ i @ j @ l"] by simp
  have c': "contains (a @ b @ c @ d @ e @ f @ g @ h @ t @ k) t" for a b c d e f g h t k :: string
    using contains_middle[of "a @ b @ c @ d @ e @ f @ g @ h"] by simp
  show ?thesis
    unfolding game_decode_state_renders_board_def test_boards(2) unwrap_mut.simps unwrap.simps andThen.simps j all_hold_iff
      list.pred_inject
    by (intro conjI TrueI contains_middle c c' list.pred_inject(1))
qed

lemma wasm_script_built:
  assumes "browser_crates X W"
  shows "wasm_script X W Z32 ht (hexout X args) =
      Ok (hexout X (script_slice W \<lparr>s_code_hash = replicate 32 0, s_hash_type = ht, s_args = args\<rparr>))"
  by (simp add: wasm_script_def test_texts(1)[OF assms] reads[OF assms] sized_def)

lemma wasm_session_built:
  assumes "browser_crates X W"
  shows "wasm_session_new W (hexout X (script_slice W a)) (Z32 @ '':0'') cap (hexout X (script_slice W f)) Z32 =
      Ok \<lparr>ws_inner = Some (channel_new
        \<lparr>cc_account_lock = a, cc_account_input = null_point 0, cc_account_capacity = cap, cc_funding_lock = f,
         cc_cell_deps = [], cc_header_dep = replicate 32 0\<rparr> mock_rail_new)\<rparr>"
proof -
  have "CHR '':'' \<notin> set Z32" by (simp add: Z32_def)
  then have "split_once CHR '':'' (Z32 @ '':0'') = Some (Z32, ''0'')"
    using split_once_first[of "CHR '':''" Z32 "''0''"] by simp
  moreover have "arr32 W Z32 = Ok (replicate 32 0)" by (simp add: test_texts(1)[OF assms] reads[OF assms] sized_def)
  moreover have "parse_unsigned dec_value 10 (2 ^ 32) ''0'' = Some 0" by (simp add: parse_unsigned_def)
  ultimately have "wasm_parse_outpoint W (Z32 @ '':0'') = Ok (null_point 0)"
    by (simp add: wasm_parse_outpoint_def null_point_def)
  moreover have "script_from_slice W (script_slice W s) = Inr s" for s using assms by (simp add: browser_crates_def)
  ultimately show ?thesis
    using \<open>arr32 W Z32 = Ok (replicate 32 0)\<close> by (simp add: wasm_session_new_def reads[OF assms])
qed

lemmas wasm_channel_run = wasm_open_def wasm_pay_def wasm_close_def wasm_remaining_def wasm_spent_def channel_spent_def wasm_is_open_def
  channel_new_def mock_rail_new_def channel_open_def mock_ops_def mock_open_def channel_pay_def mock_pay_def
  mock_get_mut_def channel_close_def mock_close_def channel_remaining_def channel_is_open_def checked_sub_def checked_add_def
  no_error_def

lemma channel_loop_test_passes:
  assumes "browser_crates X W"
  shows "full_channel_loop_in_wasm_surface X W = Ok ()"
proof -
  have "length (sdk_tx_message X tx) = 32" for tx using assms by (simp add: browser_crates_def digests_32_def sdk_tx_message_def)
  then have m: "length (wt_message (wasm_channel_tx_of X W ct)) = 66" for ct
    by (simp add: wasm_channel_tx_of_def length_hexout[OF assms])
  have t: "starts_with (wt_tx (wasm_channel_tx_of X W ct)) ''0x''" for ct
    by (simp add: wasm_channel_tx_of_def hexout_def starts_with_def)
  show ?thesis
    unfolding full_channel_loop_in_wasm_surface_def test_texts(5,6)[OF assms] wasm_script_built[OF assms] unwrap.simps andThen.simps
      wasm_session_built[OF assms]
    by (simp add: wasm_channel_run Let_def m t show_word_def shown_numbers)
qed

lemma over_budget_test_passes:
  assumes "browser_crates X W"
  shows "pay_over_budget_errors X W = Ok ()"
  unfolding pay_over_budget_errors_def test_texts(4)[OF assms] wasm_script_built[OF assms] unwrap.simps andThen.simps
    wasm_session_built[OF assms]
  by (simp add: wasm_channel_run Let_def)

end
