(* ===== verification/Browser_Account.thy ===== *)
theory Browser_Account
  imports Wasm_Properties Sdk_Properties
begin

text \<open>
  An account made and used in the browser: the args, the policy tree, the message and the witness all
  pass through the hex text of the exported functions, and the lock accepts the result.
\<close>

section \<open>What the texts stand for\<close>

lemma hexout_inj:
  fixes W :: wasm_crates
  assumes "hex_reads X (\<lambda>s. right_opt (wc_hex_decode W s))"
  shows "hexout X a = hexout X b \<longleftrightarrow> a = b"
proof
  assume "hexout X a = hexout X b"
  then have "hx W (hexout X a) = hx W (hexout X b)" by (simp only:)
  then show "a = b" by (simp only: hx_hexout[OF assms] sum.inject)
qed simp

lemma arr_Ok: "arr20 W s = Ok b \<longleftrightarrow> hx W s = Ok b \<and> length b = 20" "arr32 W s = Ok b \<longleftrightarrow> hx W s = Ok b \<and> length b = 32"
  by (auto simp: arr20_def arr32_def sized_def result_simps split: if_splits)

text \<open>The args of an account whose owner and session were entered in the browser.\<close>

lemma browser_args:
  assumes W: "hex_reads X (\<lambda>s. right_opt (wc_hex_decode W s))"
    and p: "wasm_session_params X W sh_hex ex root_hex cap_text g_hex = Ok params_hex"
    and a: "wasm_registered_args X W owner_hex params_hex = Ok (hexout X args)"
    and "hx W sh_hex = Ok sh" "hx W g_hex = Ok g" "hx W root_hex = Ok root"
  obtains owner cap where "args = registered_args owner (sdk_session_params sh ex root cap g)"
    "length owner = 20" "length sh = 20" "length root = 32" "length g = 20"
proof -
  from p assms(4-6) obtain cap where cap: "params_hex = hexout X (sdk_session_params sh ex root cap g)"
    and l: "length sh = 20" "length root = 32" "length g = 20"
    by (auto simp: wasm_session_params_def result_simps arr_Ok)
  from a obtain owner where "length owner = 20" "hexout X args = hexout X (registered_args owner (sdk_session_params sh ex root cap g))"
    by (auto simp: wasm_registered_args_def result_simps arr_Ok cap hx_hexout[OF W])
  then show ?thesis using that l by (simp add: hexout_inj[OF W])
qed

text \<open>The policies of the browser: the leaves of the listed scripts, their root and their proofs.\<close>

lemma browser_leaves:
  assumes W: "hex_reads X (\<lambda>s. right_opt (wc_hex_decode W s))"
    and "traverse (wasm_policy_leaf X W) (map (hexout X) hashes) = Ok leaf_texts"
  shows "leaf_texts = map (\<lambda>h. hexout X (policy_leaf X h)) hashes"
  using assms(2)
  by (induction hashes arbitrary: leaf_texts) (auto simp: result_simps wasm_policy_leaf_def arr_Ok hx_hexout[OF W])

lemma browser_reads_leaves:
  assumes W: "hex_reads X (\<lambda>s. right_opt (wc_hex_decode W s))" and "digests_32 X"
  shows "leaves_from W (map (\<lambda>h. hexout X (policy_leaf X h)) hashes) = Ok (map (policy_leaf X) hashes)"
  unfolding leaves_from_def
  using assms(2)
  by (induction hashes) (simp_all add: arr_hexout[OF W] policy_leaf_def digests_32_def)

lemma browser_root:
  assumes W: "hex_reads X (\<lambda>s. right_opt (wc_hex_decode W s))" and X: "digests_32 X"
    and "wasm_merkle_root X W (map (\<lambda>h. hexout X (policy_leaf X h)) hashes) = Ok root_hex"
  obtains root where "merkle_root (blake2b_256 X) (map (policy_leaf X) hashes) = Ok root" "root_hex = hexout X root"
  using assms(3)
  by (auto simp: wasm_merkle_root_def browser_reads_leaves[OF W X] no_error_def result_simps)

text \<open>
  The entry of one foreign output: a proof the browser computed for an index of the list, at which
  the hash of the output's lock or of its type script stands.
\<close>

definition browser_entry :: "externals \<Rightarrow> wasm_crates \<Rightarrow> bytes list \<Rightarrow> string list \<Rightarrow> byte \<times> bytes list \<Rightarrow> cell \<Rightarrow> bool" where
  "browser_entry X W hashes leaf_texts e c \<longleftrightarrow>
     (\<exists>i. unat i < length hashes \<and> wasm_merkle_proof X W leaf_texts i = Ok (map (hexout X) (snd e)) \<and>
        (fst e = POLICY_KIND_TYPE \<and> (\<exists>t. co_type (fst c) = Some t \<and> hashes ! unat i = calc_script_hash X t) \<or>
         fst e = POLICY_KIND_LOCK \<and> hashes ! unat i = calc_script_hash X (co_lock (fst c))))"

lemma map_hexout_inj:
  fixes W :: wasm_crates
  assumes "hex_reads X (\<lambda>s. right_opt (wc_hex_decode W s))"
  shows "map (hexout X) xs = map (hexout X) ys \<longleftrightarrow> xs = ys"
proof -
  have "inj (hexout X)" by (intro injI) (simp add: hexout_inj[OF assms])
  then show ?thesis by (simp add: inj_map_eq_map)
qed

lemma browser_entry_policy:
  assumes W: "hex_reads X (\<lambda>s. right_opt (wc_hex_decode W s))" and X: "digests_32 X"
    and e: "browser_entry X W hashes (map (\<lambda>h. hexout X (policy_leaf X h)) hashes) e c"
  shows "policy_entry X hashes e c"
proof -
  from e obtain i where i: "unat i < length hashes"
    and p: "wasm_merkle_proof X W (map (\<lambda>h. hexout X (policy_leaf X h)) hashes) i = Ok (map (hexout X) (snd e))"
    and k: "fst e = POLICY_KIND_TYPE \<and> (\<exists>t. co_type (fst c) = Some t \<and> hashes ! unat i = calc_script_hash X t) \<or>
         fst e = POLICY_KIND_LOCK \<and> hashes ! unat i = calc_script_hash X (co_lock (fst c))"
    by (auto simp: browser_entry_def)
  from p have "merkle_proof (blake2b_256 X) (map (policy_leaf X) hashes) (unat i) = Ok (snd e)"
    by (auto simp: wasm_merkle_proof_def browser_reads_leaves[OF W X] no_error_def result_simps map_hexout_inj[OF W])
  with i k show ?thesis unfolding policy_entry_def by blast
qed

text \<open>The witness of the browser, as the molecule bytes the lock reads back.\<close>

lemma browser_witness:
  assumes W: "hex_reads X (\<lambda>s. right_opt (wc_hex_decode W s))"
    and w: "wasm_session_witness_registered X W ss_hex gs_hex region_hex = Ok (hexout X bytes)"
    and "hx W ss_hex = Ok ss" "hx W gs_hex = Ok gs" "hx W region_hex = Ok region"
  shows "bytes = molecule_witness_args X
    \<lparr>wa_lock = Some (MODE_SESSION # ss @ gs @ region), wa_input_type = None, wa_output_type = None\<rparr>"
  using w assms(3-5)
  by (auto simp: wasm_session_witness_registered_def result_simps hexout_inj[OF W] session_witness_registered_def wrap_lock_def
      optional_guardian_def opt_bytes_def)

section \<open>The account opens\<close>

text \<open>
  C5: an account whose args the browser built is opened by the session the browser built: when the
  policies, their root, the parameters, the args, the message, the proofs and the witness were all
  computed by the exported functions from each other's text, the signatures over the shown message
  verify, and the transaction is in time, keeps the account and stays within the cap, the lock
  accepts it.
\<close>

theorem browser_session_accepted:
  assumes "hex_reads X (\<lambda>s. right_opt (wc_hex_decode W s))" and "hex_is_text X" and "digests_32 X"
    and "lock_runs_on V v" and "length (lv_group v) = 1" and "length hashes \<le> 2 ^ 255"
    and "traverse (wasm_policy_leaf X W) (map (hexout X) hashes) = Ok leaf_texts"
    and "wasm_merkle_root X W leaf_texts = Ok root_hex" and "hx W sh_hex = Ok sh" and "hx W g_hex = Ok g"
    and "wasm_session_params X W sh_hex ex root_hex cap_text g_hex = Ok params_hex"
    and "wasm_registered_args X W owner_hex params_hex = Ok (hexout X (s_args (lv_script v)))"
    and "hx W tx_hex = Ok t" and "transaction_from_slice W t = Inr (lv_tx v)" and "wasm_tx_message X W tx_hex = Ok (hexout X m)"
    and "hx W ss_hex = Ok ss" and "sh \<noteq> replicate 20 0" and "signed_by X V sh m ss"
    and "hx W gs_hex = Ok gs" and "if gs = [] then g = replicate 20 0 else g \<noteq> replicate 20 0 \<and> signed_by X V g m gs"
    and "list_all2 (browser_entry X W hashes leaf_texts) es (foreign_cells (lv_script v) (lv_outputs v))"
    and "hx W region_hex = Ok (proof_region es)"
    and "wasm_session_witness_registered X W ss_hex gs_hex region_hex = Ok (hexout X w)"
    and "\<forall>l. rd (molecule_witness_args X \<lparr>wa_lock = Some l, wa_input_type = None, wa_output_type = None\<rparr>) =
           Inr \<lparr>wa_lock = Some l, wa_input_type = None, wa_output_type = None\<rparr>" and "lv_witness v = rd w"
    and "unexpired v (params_of (drop 20 (s_args (lv_script v))))" and "account_intact v"
    and "within_cap v (params_of (drop 20 (s_args (lv_script v))))"
  shows "auth X V = Ok ()"
proof -
  note W = assms(1)
  have leaves: "leaf_texts = map (\<lambda>h. hexout X (policy_leaf X h)) hashes" by (rule browser_leaves[OF W assms(7)])
  obtain root where root: "merkle_root (blake2b_256 X) (map (policy_leaf X) hashes) = Ok root" "root_hex = hexout X root"
    by (rule browser_root[OF W assms(3) assms(8)[unfolded leaves]])
  have rh: "hx W root_hex = Ok root" by (simp add: root(2) hx_hexout[OF W])
  obtain owner cap where args: "s_args (lv_script v) = registered_args owner (sdk_session_params sh ex root cap g)"
    "length owner = 20" "length sh = 20" "length root = 32" "length g = 20"
    by (rule browser_args[OF W assms(11,12,9,10) rh])
  have m: "m = sdk_tx_message X (lv_tx v)"
    using assms(13-15) hexout_inj[OF W] by (simp add: wasm_tx_message_def)
  have es: "list_all2 (policy_entry X hashes) es (foreign_cells (lv_script v) (lv_outputs v))"
    by (rule list_all2_mono[OF assms(21)]) (rule browser_entry_policy[OF W assms(3)], simp add: leaves)
  have wit: "lv_witness v = Inr \<lparr>wa_lock = Some (MODE_SESSION # ss @ opt_bytes (optional_guardian gs) @ proof_region es),
      wa_input_type = None, wa_output_type = None\<rparr>"
    using browser_witness[OF W assms(23,16,19,22)] assms(24,25) by (simp add: opt_bytes_def optional_guardian_def)
  have params: "drop 20 (s_args (lv_script v)) = sdk_session_params sh ex root cap g"
    using args(1,2) by (simp add: registered_args_def)
  have pol: "root = WILDCARD_ROOT \<or> length hashes \<le> 2 ^ 255 \<and>
      merkle_root (blake2b_256 X) (map (policy_leaf X) hashes) = Ok root \<and>
      list_all2 (policy_entry X hashes) es (foreign_cells (lv_script v) (lv_outputs v))"
    by (intro disjI2 conjI assms(6) root(1) es)
  have co: "case optional_guardian gs of None \<Rightarrow> g = replicate 20 0
      | Some s \<Rightarrow> g \<noteq> replicate 20 0 \<and> signed_by X V g (sdk_tx_message X (lv_tx v)) s"
    using assms(20) by (simp add: optional_guardian_def m[symmetric])
  show ?thesis
    by (rule built_session_accepted[OF assms(2-5) args(2-5) args(1) wit _ assms(17) assms(18)[unfolded m] co pol
          assms(26)[unfolded params] assms(27) assms(28)[unfolded params]]) simp
qed

text \<open>The scoped sample account, made and used in the browser.\<close>

definition scoped_wasm :: wasm_crates where
  "scoped_wasm = sample_wasm\<lparr>transaction_from_slice := (\<lambda>_. Inr sample_tx)\<rparr>"

abbreviation sample_hexout :: "bytes \<Rightarrow> string" where
  "sample_hexout \<equiv> hexout sample_externals"

lemma scoped_wasm_hex: "hex_reads sample_externals (\<lambda>s. right_opt (wc_hex_decode scoped_wasm s))"
  using sample_hex_reads by (simp add: scoped_wasm_def)

lemmas browser_texts = hx_hexout[OF scoped_wasm_hex] arr_hexout[OF scoped_wasm_hex]

lemma browser_scoped_params:
  "wasm_session_params sample_externals scoped_wasm (sample_hexout (replicate 20 2)) NO_EXPIRY (sample_hexout other_leaf)
     ''30'' (sample_hexout (replicate 20 7)) = Ok (sample_hexout scoped_params)"
proof -
  have "parse_u128 scoped_wasm ''30'' = Ok 30"
    by (simp add: parse_u128_def parse_unsigned_def)
  then show ?thesis
    by (simp add: wasm_session_params_def browser_texts length_other_leaf sdk_session_params_def scoped_params_def)
qed

lemma browser_scoped_policies:
  "wasm_policy_leaf sample_externals scoped_wasm (sample_hexout (sample_hash (flat_script other_script))) = Ok (sample_hexout other_leaf)"
  "wasm_merkle_root sample_externals scoped_wasm [sample_hexout other_leaf] = Ok (sample_hexout other_leaf)"
  "wasm_merkle_proof sample_externals scoped_wasm [sample_hexout other_leaf] 0 = Ok []"
  by (simp_all add: wasm_policy_leaf_def wasm_merkle_root_def wasm_merkle_proof_def leaves_from_def browser_texts
      length_other_leaf policy_leaf_def other_leaf_def no_error_def merkle_root_def merkle_proof_def
      merkle_loop.simps[of sample_hash "[x]" for x] merkle_proof_loop.simps[of sample_hash "[x]" for x])

lemma scoped_keep:
  "within_cap scoped_view (params_of (drop 20 (s_args (lv_script scoped_view))))"
  "unexpired scoped_view (params_of (drop 20 (s_args (lv_script scoped_view))))"
  using scoped_outputs(1)
  by (simp_all add: within_cap_def unexpired_def scoped_view_def view_with_def scoped_args lock_lens scoped_params_of)

lemma browser_session_accepted_witness: "auth sample_externals (vm_of scoped_view) = Ok ()"
proof -
  let ?hs = "[sample_hash (flat_script other_script)]" and ?region = "proof_region [(POLICY_KIND_LOCK, [])]"
    and ?ss = "sample_sign (replicate 20 2) sample_message" and ?gs = "sample_sign (replicate 20 7) sample_message"
  let ?w = "MODE_SESSION # ?ss @ ?gs @ ?region"
  have leaves: "traverse (wasm_policy_leaf sample_externals scoped_wasm) (map sample_hexout ?hs) = Ok [sample_hexout other_leaf]"
    by (simp add: browser_scoped_policies)
  have args: "wasm_registered_args sample_externals scoped_wasm (sample_hexout (replicate 20 1)) (sample_hexout scoped_params) =
      Ok (sample_hexout (s_args (lv_script scoped_view)))"
    by (simp add: wasm_registered_args_def browser_texts scoped_view_def scoped_args registered_args_def)
  have m: "sdk_tx_message sample_externals sample_tx = sample_message"
    using sample_signed_message[of scoped_script MODE_SESSION scoped_rest]
    by (simp add: sdk_tx_message_def signed_message_def)
  have tx: "wasm_tx_message sample_externals scoped_wasm (sample_hexout []) = Ok (sample_hexout sample_message)"
    by (simp add: wasm_tx_message_def browser_texts m) (simp add: scoped_wasm_def m)
  have wit: "wasm_session_witness_registered sample_externals scoped_wasm (sample_hexout ?ss) (sample_hexout ?gs)
      (sample_hexout ?region) = Ok (sample_hexout ?w)"
    by (simp add: wasm_session_witness_registered_def browser_texts session_witness_registered_def wrap_lock_def
        optional_guardian_def opt_bytes_def sample_sign_def)
  have es: "list_all2 (browser_entry sample_externals scoped_wasm ?hs [sample_hexout other_leaf]) [(POLICY_KIND_LOCK, [])]
      (foreign_cells (lv_script scoped_view) (lv_outputs scoped_view))"
    using scoped_outputs(2) browser_scoped_policies(3) by (auto simp: browser_entry_def scoped_view_def intro!: exI[of _ 0])
  have keep: "account_intact scoped_view" "within_cap scoped_view (params_of (drop 20 (s_args (lv_script scoped_view))))"
      "unexpired scoped_view (params_of (drop 20 (s_args (lv_script scoped_view))))"
    using scoped_unlocks scoped_keep by (auto simp: session_unlocks_def)
  have rd: "lv_witness scoped_view = (\<lambda>b. Inr \<lparr>wa_lock = Some b, wa_input_type = None, wa_output_type = None\<rparr>) ?w"
    by (simp add: scoped_view_def scoped_rest_def proof_region_def encode_frame_def)
  have "?gs \<noteq> []" by (simp add: sample_sign_def)
  then show ?thesis
    by (intro browser_session_accepted[where rd = "\<lambda>b. Inr \<lparr>wa_lock = Some b, wa_input_type = None, wa_output_type = None\<rparr>",
          OF scoped_wasm_hex sample_hex_is_text sample_digests_32 scoped_runs(1) _ _ leaves
          browser_scoped_policies(2) browser_texts(1) browser_texts(1) browser_scoped_params args browser_texts(1) _ tx
          browser_texts(1) _ sample_signature_accepted[of scoped_view] browser_texts(1) _ es browser_texts(1) wit _ rd keep(3,1,2)])
       (simp_all add: scoped_view_def scoped_wasm_def sample_signature_accepted)
qed

end
