(* ===== verification/Build_Script.thy ===== *)
theory Build_Script
  imports Lock_Properties Game_History
begin

text \<open>
  The build scripts of the two contracts, contracts/*/build.rs: the hash of the ckb-auth binary that
  becomes the constant both scripts spawn, and the Rust source it is written to.  A contract built
  before the binary was there gets the zero hash; it fails closed.
\<close>

section \<open>The scripts\<close>

text \<open>
  Reading deps/auth yields the binary or fails; \<open>calc\<close> is \<open>CellOutput::calc_data_hash\<close>, whose
  result has 32 bytes.
\<close>

definition build_code_hash :: "(bytes \<Rightarrow> bytes) \<Rightarrow> bytes option \<Rightarrow> (unit, bytes) result" where
  "build_code_hash calc auth_file =
     (case auth_file of
        Some auth_binary \<Rightarrow> (let hash = calc auth_binary in if length hash = 32 then Ok hash else Panicked)
      | None \<Rightarrow> Ok (replicate 32 0))"

text \<open>The script of the game cell is a copy of the lock's.\<close>

definition cell_build_code_hash :: "(bytes \<Rightarrow> bytes) \<Rightarrow> bytes option \<Rightarrow> (unit, bytes) result" where
  "cell_build_code_hash calc auth_file =
     (case auth_file of
        Some auth_binary \<Rightarrow> (let hash = calc auth_binary in if length hash = 32 then Ok hash else Panicked)
      | None \<Rightarrow> Ok (replicate 32 0))"

text \<open>\<open>{:#02X?}\<close> of an array: one element a line, upper-case hex without padding.\<close>

definition upper_digit :: "nat \<Rightarrow> char" where
  "upper_digit n = ''0123456789ABCDEF'' ! n"

definition upper_hex :: "byte \<Rightarrow> string" where
  "upper_hex b =
     (if unat b < 16 then [upper_digit (unat b)] else [upper_digit (unat b div 16), upper_digit (unat b mod 16)])"

definition array_line :: "byte \<Rightarrow> string" where
  "array_line b = ''    0x'' @ upper_hex b @ '','' @ [CHR 0x0A]"

definition auth_code_hash_source :: "bytes \<Rightarrow> string" where
  "auth_code_hash_source code_hash =
     ''pub const AUTH_CODE_HASH: [u8; 32] = ['' @ [CHR 0x0A] @ concat (map array_line code_hash) @ '']'' @ '';'' @ [CHR 0x0A]"

text \<open>The crates as the contract of this build sees them.\<close>

definition built_with :: "externals \<Rightarrow> bytes \<Rightarrow> externals" where
  "built_with X code_hash = X\<lparr>auth_code_hash := code_hash\<rparr>"

section \<open>The generated constant\<close>

lemma upper_digit_inj: "m < 16 \<Longrightarrow> n < 16 \<Longrightarrow> upper_digit m = upper_digit n \<longleftrightarrow> m = n"
proof -
  have d: "distinct ''0123456789ABCDEF''" and l: "length ''0123456789ABCDEF'' = 16" by simp_all
  show "m < 16 \<Longrightarrow> n < 16 \<Longrightarrow> upper_digit m = upper_digit n \<longleftrightarrow> m = n"
    unfolding upper_digit_def using nth_eq_iff_index_eq[OF d, of m n] l by simp
qed

lemma upper_digit_no_comma: "n < 16 \<Longrightarrow> upper_digit n \<noteq> CHR '',''"
proof -
  assume "n < 16"
  then have "upper_digit n \<in> set ''0123456789ABCDEF''" unfolding upper_digit_def by (intro nth_mem) simp
  then show ?thesis by auto
qed

lemma byte_digits: "unat (b :: byte) div 16 < 16" "unat b mod 16 < 16"
  using unat_byte_less[of b] by linarith+

lemma array_line_cancel: "array_line a @ x = array_line b @ y \<longleftrightarrow> a = b \<and> x = y"
proof
  assume h: "array_line a @ x = array_line b @ y"
  note d = byte_digits[of a] byte_digits[of b]
  have n: "upper_digit (unat a div 16) \<noteq> CHR '',''" "upper_digit (unat a mod 16) \<noteq> CHR '',''"
    "upper_digit (unat b div 16) \<noteq> CHR '',''" "upper_digit (unat b mod 16) \<noteq> CHR '',''"
    using d by (simp_all add: upper_digit_no_comma)
  have "unat a = unat b \<and> x = y"
  proof (cases "unat a < 16"; cases "unat b < 16")
    assume "\<not> unat a < 16" "\<not> unat b < 16"
    with h d have "unat a div 16 = unat b div 16 \<and> unat a mod 16 = unat b mod 16 \<and> x = y"
      by (simp add: array_line_def upper_hex_def upper_digit_inj)
    then show ?thesis by (metis div_mult_mod_eq)
  qed (use h n upper_digit_inj[of "unat a" "unat b"] in \<open>auto simp: array_line_def upper_hex_def upper_digit_no_comma\<close>)
  then show "a = b \<and> x = y" by (simp add: word_unat_eq_iff)
qed simp

text \<open>Both contracts of one build spawn the same code.\<close>

lemma one_code_hash: "cell_build_code_hash = build_code_hash"
  by (simp add: fun_eq_iff cell_build_code_hash_def build_code_hash_def)

text \<open>The source text determines the hash: two binaries with different hashes give different contracts.\<close>

lemma auth_code_hash_source_inj:
  assumes "length h = length h'"
  shows "auth_code_hash_source h = auth_code_hash_source h' \<longleftrightarrow> h = h'"
proof -
  have "concat (map array_line h) @ r = concat (map array_line h') @ r \<longleftrightarrow> h = h'" for r
    using assms by (induction h h' rule: list_induct2) (simp_all add: array_line_cancel)
  then show ?thesis by (simp only: auth_code_hash_source_def same_append_eq)
qed

section \<open>Failing closed\<close>

lemma unsigned_without_binary:
  assumes "\<And>t as. \<exists>e. spawn_cell V (replicate 32 0) t as = Inl e"
  shows "\<not> ckb_auth_accepts (built_with X (replicate 32 0)) V alg sg msg pkh"
  using assms by (auto simp: ckb_auth_accepts_def built_with_def split: sum.splits) (metis Inl_Inr_False)

text \<open>
  C13: a contract built without the ckb-auth binary fails closed.  On a chain where no cell has the
  zero data hash, so that spawning it is an error, the session lock built this way accepts nothing,
  for the owner neither, and the game script accepts creations and steps without moves only.
\<close>

theorem build_fails_closed:
  assumes "build_code_hash calc None = Ok h" and "cell_build_code_hash calc None = Ok h'" and "hex_is_text X" and "lock_runs_on V v" and "game_runs_on W u"
    and "\<And>t as. \<exists>e. spawn_cell V (replicate 32 0) t as = Inl e"
    and "\<And>t as. \<exists>e. spawn_cell W (replicate 32 0) t as = Inl e"
  shows "auth (built_with X h) V \<noteq> Ok () \<and>
     (game_verify (built_with X h') W = Ok () \<longrightarrow> gv_in u = [] \<or> (\<exists>b. batch_of u = Some b \<and> decode_batch b = Ok []))"
proof -
  have h: "h = replicate 32 0" "h' = replicate 32 0" using assms(1,2) by (simp_all add: one_code_hash build_code_hash_def)
  have X: "hex_is_text (built_with X c)" for c using assms(3) by (simp add: hex_is_text_def built_with_def)
  have "\<not> lock_accepts (built_with X h) V v"
    using unsigned_without_binary[OF assms(6)]
    by (auto simp: h lock_accepts_def owner_unlocks_def session_unlocks_def co_signed_def signed_by_def)
  moreover have "xs = []" if "list_all (intent_signed (built_with X h') W g) xs" for g xs
    using that unsigned_without_binary[OF assms(7)] by (cases xs) (auto simp: h intent_signed_def)
  ultimately show ?thesis
    by (auto simp: auth_refines[OF X assms(4)] game_verify_refines[OF X assms(5)] game_accepts_def legal_step_def)
qed

text \<open>The sample account and the sample game, on a chain where no code is found.\<close>

definition no_code :: "vm \<Rightarrow> vm" where
  "no_code V = V\<lparr>spawn_cell := (\<lambda>_ _ _. Inl SysItemMissing)\<rparr>"

lemma build_fails_closed_witness:
  "auth (built_with sample_externals (replicate 32 0)) (no_code (vm_of registered_view)) \<noteq> Ok () \<and>
   game_verify (built_with sample_externals (replicate 32 0)) (no_code (game_vm step_view)) \<noteq> Ok ()"
proof -
  have c: "build_code_hash sample_hash None = Ok (replicate 32 0)" by (simp add: build_code_hash_def)
  note c' = c[folded one_code_hash]
  have l: "lock_runs_on (no_code (vm_of registered_view)) registered_view"
    using registered_runs(1) by (simp add: lock_runs_on_def serves_cells_def no_code_def)
  have g: "game_runs_on (no_code (game_vm step_view)) step_view"
    using sample_game_runs(2) by (simp add: game_runs_on_def no_code_def)
  have "gv_in step_view \<noteq> []" "batch_of step_view = Some (encode_batch [signed_intent])"
    using step_batch by (simp_all add: step_cells)
  then show ?thesis
    using build_fails_closed[OF c c' sample_hex_is_text l g] decode_batch_encode[OF wf_signed_batch] by (simp add: no_code_def)
qed

end
