(* ===== verification/Calendar.thy ===== *)
theory Calendar
  imports Operator_Server
begin

text \<open>
  The calendar of the biscuit gate's tests, paymaster/src/biscuit\_gate.rs: the date of a Unix day by
  Hinnant's algorithm and the RFC 3339 text of an instant.  The algorithm is compared with the
  calendar itself: it starts at 1970-01-01 and steps from each day to the next.
\<close>

section \<open>The algorithm\<close>

type_synonym date = "int \<times> int \<times> int"

text \<open>Division of \<open>i64\<close> rounds towards zero; the sums of the code panic outside the range.\<close>

definition quot :: "int \<Rightarrow> int \<Rightarrow> int" where
  "quot a b = (if a < 0 then - (- a div b) else a div b)"

definition i64_checked :: "int \<Rightarrow> (unit, int) result" where
  "i64_checked n = (if - (2 ^ 63) \<le> n \<and> n < 2 ^ 63 then Ok n else Panicked)"

definition year_of_era :: "int \<Rightarrow> int" where
  "year_of_era doe = (doe - doe div 1460 + doe div 36524 - doe div 146096) div 365"

definition day_of_year :: "int \<Rightarrow> int" where
  "day_of_year doe = (let yoe = year_of_era doe in doe - (365 * yoe + yoe div 4 - yoe div 100))"

definition month_and_day :: "int \<Rightarrow> int \<times> int" where
  "month_and_day doy =
     (let mp = (5 * doy + 2) div 153; d = doy - (153 * mp + 2) div 5 + 1
      in (if mp < 10 then mp + 3 else mp - 9, d))"

definition civil_from_days :: "int \<Rightarrow> (unit, date) result" where
  "civil_from_days days =
     andThen (i64_checked (days + 719468)) (\<lambda>z.
     andThen (if 0 \<le> z then Ok z else i64_checked (z - 146096)) (\<lambda>n.
       let era = quot n 146097; doe = z - era * 146097; y = year_of_era doe + era * 400;
           (m, d) = month_and_day (day_of_year doe)
       in Ok (if m \<le> 2 then y + 1 else y, m, d)))"

section \<open>The calendar\<close>

definition leap :: "int \<Rightarrow> bool" where
  "leap y \<longleftrightarrow> y mod 4 = 0 \<and> (y mod 100 \<noteq> 0 \<or> y mod 400 = 0)"

definition month_length :: "int \<Rightarrow> int \<Rightarrow> int" where
  "month_length y m = (if m = 2 then (if leap y then 29 else 28) else if m \<in> {4, 6, 9, 11} then 30 else 31)"

fun next_day :: "date \<Rightarrow> date" where
  "next_day (y, m, d) =
     (if d < month_length y m then (y, m, d + 1) else if m < 12 then (y, m + 1, 1) else (y + 1, 1, 1))"

section \<open>Years that begin in March\<close>

text \<open>
  A day of the era is the day \<open>t\<close> of the year \<open>100 c + 4 q + r\<close>; the year ends with the leap day when
  the year after it is a leap year.
\<close>

definition era_day :: "int \<Rightarrow> int \<Rightarrow> int \<Rightarrow> int \<Rightarrow> bool" where
  "era_day c q r t \<longleftrightarrow> 0 \<le> c \<and> c \<le> 3 \<and> 0 \<le> q \<and> q \<le> 24 \<and> 0 \<le> r \<and> r \<le> 3 \<and> 0 \<le> t \<and>
     (t \<le> 364 \<or> t = 365 \<and> r = 3 \<and> (q < 24 \<or> c = 3))"

lemma div_eq: "0 < b \<Longrightarrow> b * k \<le> a \<Longrightarrow> a < b * k + b \<Longrightarrow> a div b = k" for a b k :: int
  by (simp add: int_div_pos_eq[where r = "a - b * k"])

lemma era_divs:
  assumes "era_day c q r t"
  defines "doe \<equiv> 36524 * c + 1461 * q + 365 * r + t"
  shows "year_of_era doe = 100 * c + 4 * q + r" "day_of_year doe = t"
proof -
  note a = assms(1)[unfolded era_day_def]
  let ?e = "if 24 * c + q + 365 * r + t < 1460 then 0 else 1 :: int"
  have d: "doe div 1460 = 25 * c + q + ?e" using a by (intro div_eq) (auto simp: doe_def)
  have "doe div 36524 - doe div 146096 = c"
  proof (cases "doe < 146096")
    case True
    then have "doe div 36524 = c" using a by (intro div_eq) (auto simp: doe_def)
    moreover have "doe div 146096 = 0" using a True by (intro div_eq) (auto simp: doe_def)
    ultimately show ?thesis by simp
  next
    case False
    then have "doe = 146096" "c = 3" using a by (auto simp: doe_def)
    then show ?thesis by simp
  qed
  with d have s: "doe - doe div 1460 + doe div 36524 - doe div 146096 = 365 * (100 * c + 4 * q + r) + (t - ?e)"
    by (simp add: doe_def)
  have "0 \<le> t - ?e" "t - ?e < 365" using a by auto
  then show y: "year_of_era doe = 100 * c + 4 * q + r"
    unfolding year_of_era_def s by (intro div_eq) auto
  have "(100 * c + 4 * q + r) div 4 = 25 * c + q" "(100 * c + 4 * q + r) div 100 = c"
    using a by (intro div_eq; auto)+
  then show "day_of_year doe = t" unfolding day_of_year_def Let_def y by (simp add: doe_def)
qed

lemma era_day_exists:
  assumes "0 \<le> doe" and "doe < 146097"
  obtains c q r t where "era_day c q r t" "doe = 36524 * c + 1461 * q + 365 * r + t"
proof -
  define c where "c = min 3 (doe div 36524)"
  define x where "x = doe - 36524 * c"
  define q where "q = x div 1461"
  define y where "y = x - 1461 * q"
  define r where "r = min 3 (y div 365)"
  have "doe div 36524 \<le> 4" using assms by linarith
  moreover have "0 \<le> doe div 36524" using assms by simp
  moreover have "doe = 36524 * (doe div 36524) + doe mod 36524" "0 \<le> doe mod 36524" "doe mod 36524 < 36524" by simp_all
  ultimately have x: "0 \<le> c" "c \<le> 3" "0 \<le> x" "x \<le> 36524" "x = 36524 \<Longrightarrow> c = 3"
    using assms unfolding x_def c_def min_def by (auto split: if_splits)
  have "x = 1461 * q + x mod 1461" "0 \<le> x mod 1461" "x mod 1461 < 1461" "0 \<le> q" using x(3) by (simp_all add: q_def)
  then have y: "0 \<le> q" "q \<le> 24" "0 \<le> y" "y \<le> 1460" "y = x mod 1461"
    using x(4) unfolding y_def by linarith+
  have "y = 365 * (y div 365) + y mod 365" "0 \<le> y mod 365" "y mod 365 < 365" "0 \<le> y div 365" using y(3) by simp_all
  then have r: "0 \<le> r" "r \<le> 3" "0 \<le> y - 365 * r" "y - 365 * r \<le> 364 \<or> y - 365 * r = 365 \<and> r = 3"
    using y(4) unfolding r_def by (cases "3 \<le> y div 365"; simp; linarith)+
  have "y - 365 * r = 365 \<Longrightarrow> r = 3 \<Longrightarrow> q = 24 \<Longrightarrow> c = 3" using x(4,5) by (simp add: y_def)
  then have "era_day c q r (y - 365 * r)"
    using x(1,2) y(1,2) r unfolding era_day_def by linarith
  then show ?thesis by (rule that) (simp add: y_def x_def)
qed

lemma mod_eq: "0 \<le> a - b * k \<Longrightarrow> a - b * k < b \<Longrightarrow> a mod b = a - b * k" for a b k :: int
  by (simp add: int_mod_pos_eq[where q = k])

lemma leap_after:
  assumes "era_day c q r 364"
  shows "leap (400 * e + 100 * c + 4 * q + r + 1) \<longleftrightarrow> era_day c q r 365"
proof -
  let ?y = "400 * e + 100 * c + 4 * q + r + 1"
  note a = assms[unfolded era_day_def]
  show ?thesis
  proof (cases "r = 3")
    case False
    then have "?y mod 4 = r + 1" using a by (subst mod_eq[where k = "100 * e + 25 * c + q"]) auto
    then show ?thesis using False a by (simp add: leap_def era_day_def)
  next
    case True
    then have four: "?y mod 4 = 0" using a by (subst mod_eq[where k = "100 * e + 25 * c + q + 1"]) auto
    show ?thesis
    proof (cases "q = 24")
      case False
      then have "?y mod 100 = 4 * q + 4" using True a by (subst mod_eq[where k = "4 * e + c"]) auto
      then show ?thesis using four True False a by (simp add: leap_def era_day_def)
    next
      case q: True
      then have "?y mod 100 = 0" using True by (subst mod_eq[where k = "4 * e + c + 1"]) auto
      moreover have "?y mod 400 = (if c = 3 then 0 else 100 * (c + 1))"
        using True q a by (subst mod_eq[where k = "if c = 3 then e + 1 else e"]) auto
      ultimately show ?thesis using four True q a by (auto simp: leap_def era_day_def)
    qed
  qed
qed


section \<open>From one day to the next\<close>

definition civil_of :: "int \<Rightarrow> int \<Rightarrow> date" where
  "civil_of y t = (let (m, d) = month_and_day t in (if m \<le> 2 then y + 1 else y, m, d))"

definition civil :: "int \<Rightarrow> date" where
  "civil days =
     (let z = days + 719468; doe = z mod 146097 in civil_of (year_of_era doe + z div 146097 * 400) (day_of_year doe))"

lemma months:
  "0 \<le> t \<Longrightarrow> t \<le> 30 \<Longrightarrow> month_and_day t = (3, t + 1)"
  "31 \<le> t \<Longrightarrow> t \<le> 60 \<Longrightarrow> month_and_day t = (4, t - 30)"
  "61 \<le> t \<Longrightarrow> t \<le> 91 \<Longrightarrow> month_and_day t = (5, t - 60)"
  "92 \<le> t \<Longrightarrow> t \<le> 121 \<Longrightarrow> month_and_day t = (6, t - 91)"
  "122 \<le> t \<Longrightarrow> t \<le> 152 \<Longrightarrow> month_and_day t = (7, t - 121)"
  "153 \<le> t \<Longrightarrow> t \<le> 183 \<Longrightarrow> month_and_day t = (8, t - 152)"
  "184 \<le> t \<Longrightarrow> t \<le> 213 \<Longrightarrow> month_and_day t = (9, t - 183)"
  "214 \<le> t \<Longrightarrow> t \<le> 244 \<Longrightarrow> month_and_day t = (10, t - 213)"
  "245 \<le> t \<Longrightarrow> t \<le> 274 \<Longrightarrow> month_and_day t = (11, t - 244)"
  "275 \<le> t \<Longrightarrow> t \<le> 305 \<Longrightarrow> month_and_day t = (12, t - 274)"
  "306 \<le> t \<Longrightarrow> t \<le> 336 \<Longrightarrow> month_and_day t = (1, t - 305)"
  "337 \<le> t \<Longrightarrow> t \<le> 365 \<Longrightarrow> month_and_day t = (2, t - 336)"
proof -
  have at: "(5 * t + 2) div 153 = mp" if "153 * mp \<le> 5 * t + 2" "5 * t + 2 < 153 * mp + 153" for mp
    using that by (intro div_eq) auto
  show "0 \<le> t \<Longrightarrow> t \<le> 30 \<Longrightarrow> month_and_day t = (3, t + 1)" using at[of 0] by (simp add: month_and_day_def)
  show "31 \<le> t \<Longrightarrow> t \<le> 60 \<Longrightarrow> month_and_day t = (4, t - 30)" using at[of 1] by (simp add: month_and_day_def)
  show "61 \<le> t \<Longrightarrow> t \<le> 91 \<Longrightarrow> month_and_day t = (5, t - 60)" using at[of 2] by (simp add: month_and_day_def)
  show "92 \<le> t \<Longrightarrow> t \<le> 121 \<Longrightarrow> month_and_day t = (6, t - 91)" using at[of 3] by (simp add: month_and_day_def)
  show "122 \<le> t \<Longrightarrow> t \<le> 152 \<Longrightarrow> month_and_day t = (7, t - 121)" using at[of 4] by (simp add: month_and_day_def)
  show "153 \<le> t \<Longrightarrow> t \<le> 183 \<Longrightarrow> month_and_day t = (8, t - 152)" using at[of 5] by (simp add: month_and_day_def)
  show "184 \<le> t \<Longrightarrow> t \<le> 213 \<Longrightarrow> month_and_day t = (9, t - 183)" using at[of 6] by (simp add: month_and_day_def)
  show "214 \<le> t \<Longrightarrow> t \<le> 244 \<Longrightarrow> month_and_day t = (10, t - 213)" using at[of 7] by (simp add: month_and_day_def)
  show "245 \<le> t \<Longrightarrow> t \<le> 274 \<Longrightarrow> month_and_day t = (11, t - 244)" using at[of 8] by (simp add: month_and_day_def)
  show "275 \<le> t \<Longrightarrow> t \<le> 305 \<Longrightarrow> month_and_day t = (12, t - 274)" using at[of 9] by (simp add: month_and_day_def)
  show "306 \<le> t \<Longrightarrow> t \<le> 336 \<Longrightarrow> month_and_day t = (1, t - 305)" using at[of 10] by (simp add: month_and_day_def)
  show "337 \<le> t \<Longrightarrow> t \<le> 365 \<Longrightarrow> month_and_day t = (2, t - 336)" using at[of 11] by (simp add: month_and_day_def)
qed

lemma next_civil_of:
  assumes "0 \<le> t" and "t \<le> 364 \<or> t = 365 \<and> leap (y + 1)"
  shows "next_day (civil_of y t) = (if t < 364 \<or> t = 364 \<and> leap (y + 1) then civil_of y (t + 1) else civil_of (y + 1) 0)"
proof -
  have "t \<le> 365" using assms by linarith
  then consider "t \<le> 30" | "\<not> t \<le> 30" "t \<le> 60" | "\<not> t \<le> 60" "t \<le> 91" | "\<not> t \<le> 91" "t \<le> 121" | "\<not> t \<le> 121" "t \<le> 152"
    | "\<not> t \<le> 152" "t \<le> 183" | "\<not> t \<le> 183" "t \<le> 213" | "\<not> t \<le> 213" "t \<le> 244"
    | "\<not> t \<le> 244" "t \<le> 274" | "\<not> t \<le> 274" "t \<le> 305" | "\<not> t \<le> 305" "t \<le> 336" | "\<not> t \<le> 336" "t \<le> 365"
    by blast
  then show ?thesis
  proof cases
    case 12
    then consider "t < 364" | "t = 364" | "t = 365" by linarith
    then show ?thesis using 12 assms by cases (simp_all add: civil_of_def months month_length_def)
  next
    case 1
    with assms show ?thesis by (cases "t = 30") (simp_all add: civil_of_def months month_length_def)
  next
    case 2
    with assms show ?thesis by (cases "t = 60") (simp_all add: civil_of_def months month_length_def)
  next
    case 3
    with assms show ?thesis by (cases "t = 91") (simp_all add: civil_of_def months month_length_def)
  next
    case 4
    with assms show ?thesis by (cases "t = 121") (simp_all add: civil_of_def months month_length_def)
  next
    case 5
    with assms show ?thesis by (cases "t = 152") (simp_all add: civil_of_def months month_length_def)
  next
    case 6
    with assms show ?thesis by (cases "t = 183") (simp_all add: civil_of_def months month_length_def)
  next
    case 7
    with assms show ?thesis by (cases "t = 213") (simp_all add: civil_of_def months month_length_def)
  next
    case 8
    with assms show ?thesis by (cases "t = 244") (simp_all add: civil_of_def months month_length_def)
  next
    case 9
    with assms show ?thesis by (cases "t = 274") (simp_all add: civil_of_def months month_length_def)
  next
    case 10
    with assms show ?thesis by (cases "t = 305") (simp_all add: civil_of_def months month_length_def)
  next
    case 11
    with assms show ?thesis by (cases "t = 336") (simp_all add: civil_of_def months month_length_def)
  qed
qed

lemma era_day_bounds:
  assumes "era_day c q r t"
  shows "0 \<le> 36524 * c + 1461 * q + 365 * r + t" "36524 * c + 1461 * q + 365 * r + t < 146097"
  using assms unfolding era_day_def by linarith+

lemma civil_at:
  assumes "era_day c q r t" and "d + 719468 = 146097 * e + (36524 * c + 1461 * q + 365 * r + t)"
  shows "civil d = civil_of (400 * e + 100 * c + 4 * q + r) t"
proof -
  let ?doe = "36524 * c + 1461 * q + 365 * r + t"
  note b = era_day_bounds[OF assms(1)]
  have "(d + 719468) div 146097 = e" using b by (intro div_eq) (simp_all add: assms(2))
  moreover have "(d + 719468) mod 146097 = ?doe" using b by (subst mod_eq[where k = e]) (simp_all add: assms(2))
  ultimately have "civil d = civil_of (year_of_era ?doe + e * 400) (day_of_year ?doe)"
    unfolding civil_def Let_def by simp
  then show ?thesis unfolding era_divs[OF assms(1)] by (simp add: algebra_simps)
qed

lemma civil_next: "civil (d + 1) = next_day (civil d)"
proof -
  let ?z = "d + 719468"
  obtain c q r t where a: "era_day c q r t" and doe: "?z mod 146097 = 36524 * c + 1461 * q + 365 * r + t"
    by (rule era_day_exists[of "?z mod 146097"]) simp_all
  define e where "e = ?z div 146097"
  have z: "?z = 146097 * e + (36524 * c + 1461 * q + 365 * r + t)"
    unfolding e_def doe[symmetric] by simp
  let ?y = "400 * e + 100 * c + 4 * q + r"
  have era: "0 \<le> c" "c \<le> 3" "0 \<le> q" "q \<le> 24" "0 \<le> r" "r \<le> 3" "0 \<le> t"
    and t: "t \<le> 364 \<or> t = 365 \<and> r = 3 \<and> (q < 24 \<or> c = 3)" using a by (auto simp: era_day_def)
  have "era_day c q r 364" using a by (auto simp: era_day_def)
  note leap = leap_after[OF this, of e]
  have "t \<le> 364 \<or> t = 365 \<and> leap (?y + 1)" using t a leap by auto
  note step = next_civil_of[OF era(7) this, folded civil_at[OF a z]]
  show ?thesis
  proof (cases "t < 364 \<or> t = 364 \<and> leap (?y + 1)")
    case True
    then have "era_day c q r (t + 1)" using leap era by (auto simp: era_day_def)
    from civil_at[OF this, of "d + 1" e] step True z show ?thesis by simp
  next
    case False
    then have last: "t = 364 \<and> \<not> era_day c q r 365 \<or> t = 365 \<and> era_day c q r 365" using t a leap by auto
    consider "r < 3" | "r = 3" "q < 24" | "r = 3" "q = 24" "c < 3" | "r = 3" "q = 24" "c = 3" using era by linarith
    then have "civil (d + 1) = civil_of (?y + 1) 0"
    proof cases
      case 1
      then have "era_day c q (r + 1) 0" "t = 364" using era last by (auto simp: era_day_def)
      from civil_at[OF this(1), of "d + 1" e] this(2) z show ?thesis by (simp add: ac_simps)
    next
      case 2
      then have "era_day c (q + 1) 0 0" "t = 365" using era last by (auto simp: era_day_def)
      from civil_at[OF this(1), of "d + 1" e] this(2) 2 z show ?thesis by (simp add: ac_simps)
    next
      case 3
      then have "era_day (c + 1) 0 0 0" "t = 364" using era last by (auto simp: era_day_def)
      from civil_at[OF this(1), of "d + 1" e] this(2) 3 z show ?thesis by (simp add: ac_simps)
    next
      case 4
      then have "era_day 0 0 0 0" "t = 365" using era last by (auto simp: era_day_def)
      from civil_at[OF this(1), of "d + 1" "e + 1"] this(2) 4 z show ?thesis by (simp add: ac_simps)
    qed
    with step False show ?thesis by simp
  qed
qed

section \<open>The algorithm is the calendar\<close>

definition unix_epoch :: date where "unix_epoch = (1970, 1, 1)"

lemma civil_epoch: "civil 0 = unix_epoch"
proof -
  have "era_day 3 17 1 306" by (simp add: era_day_def)
  from civil_at[OF this, of 0 4] show ?thesis by (simp add: civil_of_def months unix_epoch_def)
qed

lemma civil_counts: "civil (int n) = (next_day ^^ n) unix_epoch"
proof (induction n)
  case (Suc n)
  then show ?case using civil_next[of "int n"] by (simp add: algebra_simps)
qed (simp add: civil_epoch)

lemma civil_counts_back: "(next_day ^^ n) (civil (- int n)) = unix_epoch"
proof (induction n)
  case (Suc n)
  have "(next_day ^^ Suc n) (civil (- int (Suc n))) = (next_day ^^ n) (civil (- int n))"
    using civil_next[of "- int (Suc n)"] by (simp add: funpow_Suc_right del: funpow.simps)
  then show ?case using Suc by simp
qed (simp add: civil_epoch)

lemma quot_floor: "quot (if 0 \<le> z then z else z - 146096) 146097 = z div 146097"
proof -
  have "- ((146096 - z) div 146097) = z div 146097" if "z < 0"
  proof -
    have "z = 146097 * (z div 146097) + z mod 146097" "0 \<le> z mod 146097" "z mod 146097 < 146097" by simp_all
    then have "(146096 - z) div 146097 = - (z div 146097)" by (intro div_eq) linarith+
    then show ?thesis by simp
  qed
  then show ?thesis by (simp add: quot_def)
qed

lemma civil_from_days_eq:
  assumes "- (2 ^ 63) + 146096 \<le> days + 719468" and "days + 719468 < 2 ^ 63"
  shows "civil_from_days days = Ok (civil days)"
proof -
  have "i64_checked (days + 719468) = Ok (days + 719468)" using assms by (simp add: i64_checked_def)
  moreover have "(if 0 \<le> days + 719468 then Ok (days + 719468) else i64_checked (days + 719468 - 146096)) =
      Ok (if 0 \<le> days + 719468 then days + 719468 else days + 719468 - 146096)"
    using assms by (simp add: i64_checked_def)
  moreover have "days + 719468 - (days + 719468) div 146097 * 146097 = (days + 719468) mod 146097"
    by (simp add: minus_div_mult_eq_mod)
  ultimately show ?thesis
    unfolding civil_from_days_def civil_def civil_of_def
    by (simp only: andThen.simps quot_floor Let_def case_prod_beta add.commute)
qed

end
