(* ===== verification/Attenuation.thy ===== *)
theory Attenuation
  imports Calendar Relay_Tests
begin

text \<open>
  Narrowing a biscuit offline, as the test of paymaster/src/biscuit\_gate.rs does: the holder appends
  a block with an earlier expiry, written as an RFC 3339 date, and the gate honours it.
\<close>

section \<open>The text of an instant\<close>

text \<open>The formats \<open>{:02}\<close> and \<open>{:04}\<close>: zeros after the sign up to the width.\<close>

definition zeros_to :: "nat \<Rightarrow> string \<Rightarrow> string" where
  "zeros_to w s = replicate (w - length s) CHR ''0'' @ s"

definition padded :: "nat \<Rightarrow> int \<Rightarrow> string" where
  "padded w n = (if n < 0 then CHR ''-'' # zeros_to (w - 1) (show_nat (nat (- n))) else zeros_to w (show_nat (nat n)))"

definition date_text :: "date \<Rightarrow> int \<Rightarrow> int \<Rightarrow> int \<Rightarrow> string" where
  "date_text date h m s =
     (case date of (y, mo, d) \<Rightarrow>
        padded 4 y @ ''-'' @ padded 2 mo @ ''-'' @ padded 2 d @ ''T'' @
        padded 2 h @ '':'' @ padded 2 m @ '':'' @ padded 2 s @ ''Z'')"

definition rfc3339 :: "u64 \<Rightarrow> (unit, string) result" where
  "rfc3339 unix_secs =
     (let days = unix_secs div 86400; secs_of_day = unix_secs mod 86400;
          h = secs_of_day div 3600; m = secs_of_day mod 3600 div 60; s = secs_of_day mod 60
      in andThen (civil_from_days (sint days)) (\<lambda>date. Ok (date_text date (uint h) (uint m) (uint s))))"

text \<open>The same text by the calendar: count the days, then the hours, minutes and seconds.\<close>

definition instant_text :: "nat \<Rightarrow> string" where
  "instant_text n =
     date_text ((next_day ^^ (n div 86400)) unix_epoch) (int (n mod 86400 div 3600))
       (int (n mod 86400 mod 3600 div 60)) (int (n mod 86400 mod 60))"

lemma unix_day: "sint ((e :: u64) div 86400) = int (unat e div 86400)" "int (unat e div 86400) < 300000000000000"
proof -
  have "unat e < 18446744073709551616" using unat_less_2p[of e] by simp
  then have d: "unat e div 86400 < 300000000000000" by linarith
  then show "int (unat e div 86400) < 300000000000000" by linarith
  have "uint (e div 86400) = int (unat e div 86400)" by (simp only: uint_nat unat_div) simp
  with d show "sint (e div 86400) = int (unat e div 86400)"
    unfolding sint_uint by (intro trans[OF signed_take_bit_int_eq_self]) simp_all
qed

lemma power2_63: "(2 :: int) ^ 63 = 9223372036854775808"
  by simp

lemma rfc3339_calendar: "rfc3339 e = Ok (instant_text (unat e))"
proof -
  have "civil_from_days (int (unat e div 86400)) = Ok (civil (int (unat e div 86400)))"
    using unix_day(2)[of e] power2_63 by (intro civil_from_days_eq) linarith+
  moreover have "uint (e mod 86400 div 3600) = int (unat e mod 86400 div 3600)"
    "uint (e mod 86400 mod 3600 div 60) = int (unat e mod 86400 mod 3600 div 60)"
    "uint (e mod 86400 mod 60) = int (unat e mod 86400 mod 60)"
    by (simp_all only: uint_nat unat_div unat_mod) simp_all
  ultimately show ?thesis
    by (simp only: rfc3339_def Let_def unix_day(1) instant_text_def civil_counts andThen.simps)
qed

section \<open>The holder's block\<close>

text \<open>
  The crate's block builder \<open>'d\<close>: the empty block, a check added to it, and the token with the block
  appended.
\<close>

record ('t, 'd) block_builder =
  bb_new :: 'd
  bb_check :: "'d \<Rightarrow> string \<Rightarrow> 'd option"
  bb_append :: "'t \<Rightarrow> 'd \<Rightarrow> 't option"

definition attenuate ::
  "('k, 'p, 'b, 't, 'z, 'a) biscuit \<Rightarrow> ('t, 'd) block_builder \<Rightarrow> 't \<Rightarrow> u64 \<Rightarrow> (unit, bytes) result" where
  "attenuate B D biscuit until =
     andThen (rfc3339 until) (\<lambda>date.
     andThen (unwrap (ok_or (bb_check D (bb_new D) (''check if time($t), $t <= '' @ date)) ())) (\<lambda>block.
     andThen (unwrap (ok_or (bb_append D biscuit block) ())) (\<lambda>narrowed.
       unwrap (ok_or (bi_to_base64 B narrowed) ()))))"

definition attenuated_token_honours_added_caveat ::
  "('k, 'p, 'b, 't, 'z, 'a) biscuit \<Rightarrow> ('t, 'd) block_builder \<Rightarrow> test" where
  "attenuated_token_honours_added_caveat B D =
     andThen (biscuit_fixture B) (\<lambda>(authority, gate).
     andThen (unwrap (biscuit_issue B authority (test_cap FAR_FUTURE))) (\<lambda>token.
     andThen (unwrap (ok_or (bi_from_base64 B token (bg_root gate)) ())) (\<lambda>biscuit.
     andThen (attenuate B D biscuit (NOW + 100)) (\<lambda>attenuated.
     andThen (holds (is_ok (biscuit_authorize B gate attenuated (NOW + 50) SCOPE))) (\<lambda>_.
       holds (biscuit_authorize B gate attenuated (NOW + 200) SCOPE = Err Denied))))))"

text \<open>
  What is assumed of the crate, on a token with the facts \<open>F\<close>: a block that checks the time against
  the date that the calendar gives for the second \<open>n\<close> can be appended and written, the text is read
  back under the authority's key, and the token is then decided with that bound on the time.
\<close>

definition takes_deadline ::
  "('k, 'p, 'b, 't, 'z, 'a) biscuit \<Rightarrow> ('t, 'd) block_builder \<Rightarrow> 'p \<Rightarrow> 't \<Rightarrow> fact list \<Rightarrow> nat \<Rightarrow> 't \<Rightarrow> bytes \<Rightarrow> bool" where
  "takes_deadline B D p t F n t' text \<longleftrightarrow>
     Option.bind (bb_check D (bb_new D) (''check if time($t), $t <= '' @ instant_text n)) (bb_append D t) = Some t' \<and>
     bi_to_base64 B t' = Some text \<and> utf8_valid text \<and> bi_from_base64 B text p = Some t' \<and>
     decides_with B t' F (\<lambda>time. time \<le> int n)"

lemma attenuate_eq:
  "takes_deadline B D p t F (unat until) t' text \<Longrightarrow> attenuate B D t until = Ok text"
  by (auto simp: takes_deadline_def attenuate_def rfc3339_calendar bind_eq_Some_conv)

text \<open>
  C36: a biscuit that its holder narrowed offline to a deadline is honoured for the capability it was
  minted for exactly until the earlier of the two times, in its scope and while none of its
  identifiers is revoked: the date the holder writes is the calendar's date of the deadline, for
  every \<open>u64\<close> number of seconds.
\<close>

theorem attenuated_biscuit:
  assumes "takes_deadline B D (bi_public B k) t (capability_facts cap) (unat until) t' text" and "unat now < 2 ^ 63"
  shows "rfc3339 until = Ok (instant_text (unat until)) \<and> attenuate B D t until = Ok text \<and>
     biscuit_authorize B \<lparr>bg_root = bi_public B k, bg_revoked = R\<rparr> text now scope =
       (if R \<inter> set (bi_revocation_ids B t') = {} \<and> scope = cap_scope cap \<and> now \<le> min (cap_not_after cap) until
        then Ok cap else Err Denied)"
proof -
  have "utf8_valid text" "bi_from_base64 B text (bi_public B k) = Some t'"
    "decides_with B t' (capability_facts cap) (\<lambda>time. time \<le> int (unat until))"
    using assms(1) by (simp_all add: takes_deadline_def)
  note decision = authorize_with_caveat[where g = "\<lparr>bg_root = bi_public B k, bg_revoked = R\<rparr>" and scope = scope,
      OF this(1) _ this(3) assms(2), unfolded biscuit_gate.simps, OF this(2)]
  have "uint now \<le> int (unat until) \<longleftrightarrow> now \<le> until" by (simp only: word_le_def uint_nat)
  then show ?thesis
    by (simp only: decision rfc3339_calendar attenuate_eq[OF assms(1)] min.bounded_iff simp_thms)
qed

text \<open>The sample authority's only token, narrowed to second 60 of the era.\<close>

abbreviation deadline_check :: "string" where
  "deadline_check \<equiv> ''check if time($t), $t <= '' @ instant_text 60"

definition sample_blocks :: "(fact list, string list) block_builder" where
  "sample_blocks = \<lparr>bb_new = [], bb_check = (\<lambda>d c. Some (d @ [c])), bb_append = (\<lambda>t d. Some (t @ map (\<lambda>c. (c, [])) d))\<rparr>"

definition narrowed_crate :: "(bytes, bytes, fact list, fact list, fact list \<times> bytes, fact list \<times> bytes) biscuit" where
  "narrowed_crate = sample_biscuit\<lparr>
     bi_from_base64 := (\<lambda>s p. if s = ascii ''token'' \<and> p = [7]
        then Some (capability_facts sample_capability @ [(deadline_check, [])]) else None),
     az_build := (\<lambda>(W, s) t. Some (W @ filter (\<lambda>f. snd f \<noteq> []) t, s)),
     az_authorize := (\<lambda>(W, s).
       if expiry_holds W \<and> scope_holds s W \<and> list_all (\<lambda>(p, ts). p = ''time'' \<longrightarrow> not_later ts [TermDate 60]) W
       then Some (W, s) else None)\<rparr>"

lemma narrowed_decides:
  "decides_with narrowed_crate (capability_facts sample_capability @ [(deadline_check, [])]) (capability_facts sample_capability)
     (\<lambda>time. time \<le> 60)"
proof -
  have own: "filter (\<lambda>f. snd f \<noteq> []) (capability_facts cap) = capability_facts cap"
    "list_all (\<lambda>(p, ts). p = ''time'' \<longrightarrow> not_later ts e) (capability_facts cap)" for cap e
    by (simp_all add: biscuit_facts)
  have a: "answers narrowed_crate (W, s) W" for W s
    using sample_decides
    by (auto simp: narrowed_crate_def sample_biscuit_def answers_def
        only_answer_fact[where pre = "''data($s) <- ''" and post = "''($s)''", simplified]
        only_answer_fact[where pre = "''data($e) <- ''" and post = "''($e)''", simplified])
  show ?thesis
    using a by (auto simp: decides_with_def Let_def own) (auto simp: narrowed_crate_def sample_biscuit_def own)
qed

lemma attenuated_biscuit_witness:
  "rfc3339 60 = Ok (instant_text 60) \<and>
   attenuate narrowed_crate sample_blocks (capability_facts sample_capability) 60 = Ok (ascii ''token'') \<and>
   biscuit_authorize narrowed_crate \<lparr>bg_root = [7], bg_revoked = {}\<rparr> (ascii ''token'') 60 [115] = Ok sample_capability \<and>
   biscuit_authorize narrowed_crate \<lparr>bg_root = [7], bg_revoked = {}\<rparr> (ascii ''token'') 61 [115] = Err Denied"
proof -
  have k: "bi_public narrowed_crate [7] = [7]" by (simp add: narrowed_crate_def sample_biscuit_def)
  have "takes_deadline narrowed_crate sample_blocks (bi_public narrowed_crate [7]) (capability_facts sample_capability)
      (capability_facts sample_capability) (unat (60 :: u64)) (capability_facts sample_capability @ [(deadline_check, [])]) (ascii ''token'')"
    using narrowed_decides
    by (simp add: takes_deadline_def k) (simp add: narrowed_crate_def sample_biscuit_def sample_blocks_def ascii_def)
  from attenuated_biscuit[OF this, of 60 "{}" "[115]"] attenuated_biscuit[OF this, of 61 "{}" "[115]"]
  show ?thesis by (simp add: k) (simp add: sample_capability_def)
qed

text \<open>The test of the crate.\<close>

lemma attenuated_test_passes:
  assumes "biscuit_crate B k"
    and "\<And>t tk. biscuit_issue B k (test_cap FAR_FUTURE) = Ok tk \<Longrightarrow> bi_from_base64 B tk (bi_public B k) = Some t \<Longrightarrow>
      \<exists>t' text. takes_deadline B D (bi_public B k) t (capability_facts (test_cap FAR_FUTURE)) (unat (NOW + 100)) t' text"
  shows "attenuated_token_honours_added_caveat B D = Ok ()"
proof -
  obtain t tk where tk: "biscuit_issue B k (test_cap FAR_FUTURE) = Ok tk" "bi_from_base64 B tk (bi_public B k) = Some t"
    by (rule biscuit_token[OF assms(1) test_times(2)]) blast
  obtain t' tk' where d: "takes_deadline B D (bi_public B k) t (capability_facts (test_cap FAR_FUTURE)) (unat (NOW + 100)) t' tk'"
    using assms(2)[OF tk] by blast
  then have "utf8_valid tk'" "bi_from_base64 B tk' (bi_public B k) = Some t'"
    "decides_with B t' (capability_facts (test_cap FAR_FUTURE)) (\<lambda>time. time \<le> int (unat (NOW + 100)))"
    by (simp_all add: takes_deadline_def)
  note decision = authorize_with_caveat[where g = "\<lparr>bg_root = bi_public B k, bg_revoked = {}\<rparr>",
      OF this(1) _ this(3), unfolded biscuit_gate.simps, OF this(2)]
  have "unat (NOW + 50) < 2 ^ 63" "unat (NOW + 200) < 2 ^ 63" "NOW + 50 \<le> FAR_FUTURE"
    "uint (NOW + 50) \<le> int (unat (NOW + 100))" "\<not> uint (NOW + 200) \<le> int (unat (NOW + 100))"
    by (simp_all add: NOW_def FAR_FUTURE_def)
  with decision[of "NOW + 50" SCOPE] decision[of "NOW + 200" SCOPE] show ?thesis
    by (simp only: attenuated_token_honours_added_caveat_def biscuit_fixture_eq[OF assms(1)] tk attenuate_eq[OF d]
        andThen.simps unwrap.simps ok_or.simps option.simps prod.case biscuit_gate.simps test_times Int_empty_left simp_thms if_True if_False
        is_ok_def holds_def sum.case)
qed

end
