(* ===== verification/Spec2Isabelle.thy ===== *)
theory Spec2Isabelle
  imports Lock_Properties Sdk_Witnesses Game_History Channel_Properties Relay_Properties Sponsor_Server Operator_Properties
    Server_Properties Wasm_Properties Deployment Account_Properties Browser_Tests Browser_Account Build_Script Attenuation
begin

text \<open>
  A verification library for a session-key controller on CKB: an account whose lock lets an owner
  hand out session keys with an expiry, a policy list and a spend cap; a game whose state lives in
  a cell that only signed moves may change; the off-chain code that builds, sponsors, sequences and
  relays the transactions of both; and the browser surface over them.

  \<^bold>\<open>The program and its theories.\<close>  Paths are under src/.

  \<^item> contracts/controller-session-lock: Session\_Lock has one definition per function of main.rs,
    from \<open>parse_session_params\<close> to \<open>program_entry\<close>; a loop over cells is the function
    \<open>policy_loop\<close>, \<open>account_loop\<close> or \<open>input_capacity_loop\<close>.  Lock\_Facts says when each function
    returns \<open>Ok\<close>; Lock\_Spec is a declarative reading of the transaction (\<open>lock_view\<close>,
    \<open>owner_unlocks\<close>, \<open>session_unlocks\<close>); Lock\_Properties proves that the script decides it, and what
    follows: sessions keep the account's identity and data, spend at most their cap, die with the
    revocation epoch, and the script always exits with a known code.
  \<^item> game-rules (and its re-export sdk/src/game.rs): Game\_Rules has the data, the wire formats and
    the transition function; a \<open>&mut self\<close> method returns its result with the state it leaves, also
    when it fails half way.  Game\_Board has the abstract board, a partial map from player hashes to
    natural-number scores and nonces, the refinement of every operation to it, and the invariant.
  \<^item> contracts/controller-game-cell: Game\_Cell has main.rs and the declarative \<open>game_accepts\<close>;
    Game\_Properties and Game\_History prove the rules' properties, the decision of the script, and
    what holds along every chain of accepted transactions (\<open>game_history\<close>).
    Build\_Script has the build.rs of both contracts: the code hash they compile in, and that a
    contract built before the ckb-auth binary was there accepts nothing.
  \<^item> sdk/src/lib.rs: Sdk, with Sdk\_Properties relating it to the lock: what the builder emits the
    lock accepts, and what the lock accepts the builder committed to.  Sdk\_Witnesses does the same
    for the owner's witness and for sessions granted off-chain.
  \<^item> sdk/src/channel.rs: Channel has the rail, the transaction builders and the session;
    Channel\_Properties has conservation of the budget and the lock's verdict on the transactions.
  \<^item> paymaster: Paymaster has the tokens and the Ed25519 gate (authz.rs), balancing (assemble.rs)
    and the paymaster (lib.rs); Biscuit\_Gate has the authority that mints biscuits and the gate with
    its revocation set (biscuit\_gate.rs), and proves when a minted token is honoured.  Calendar has
    the date algorithm of that file, proved to step through the Gregorian calendar day by day, and
    Attenuation the narrowing of a token to an earlier deadline.
  \<^item> paymaster-service: Service has the node client (rpc.rs) and the sponsor service (service.rs),
    with Relay\_Properties; Operator has the sequencer (operator.rs) and its signature (sighash.rs),
    with Operator\_Properties; Operator\_Server has bin/game-operator.rs, with Server\_Properties;
    Sponsor\_Server has main.rs.
  \<^item> wasm: Wasm has every exported function of lib.rs, with Wasm\_Properties following an intent from
    the browser through the operator to the type script, and Browser\_Account a session from the
    texts the browser exchanges to the lock.

  Three theories put parts together over time.  Chain\_Properties runs the game server against a chain
  that executes the type script: after any requests the server's tip is the live cell, and a legal
  move is played exactly when it is signed; Deployment starts that server from its configuration and
  the node's index.  Account\_Properties follows the cells of an account
  through any run of session transactions (\<open>session_run\<close>), and a session transaction through the
  relay that pays its fee and the lock that judges the result.

  Four theories run the repository's own unit tests on the model: Unit\_Tests (game-rules, the
  operator, the lock), Account\_Tests (the SDK and its channels), Relay\_Tests (tokens, balancing, the
  service, the signature) and Browser\_Tests (wasm).  A test is a definition with the calls and
  assertions of the Rust function, and a lemma says that it returns without a panic, for every hash,
  signature scheme or biscuit crate with the documented behaviour; the test that narrows a token is
  in Attenuation.

  Prelude, Codec and Ckb are below all of these: Rust's results, words, slices and little-endian
  integers; the interface of a wire format; the chain's data types and the two records of functions
  that stand for crates and syscalls.  Samples has the concrete instances the witnesses run on.
  This theory has what relates the lock's messages to the game's.

  \<^bold>\<open>How the parts interact.\<close>  The lock and the type script run on one transaction each and see it
  through syscalls; a game cell is spent under the operator's lock and checked by the type script.
  The SDK and the browser build args, messages and witnesses that the lock parses; the operator
  applies with the shared rules the moves the type script applies again.  The sponsor service puts
  a gate in front of balancing and pays fees from its own cells.  The operator's server holds the
  sequencer, a log of finished matches and the relay of payment invoices.

  \<^bold>\<open>Values.\<close>  Machine integers are words of their width; \<open>checked_\<close> and \<open>saturating_\<close> operations
  are those of Prelude, and every plain \<open>+\<close> of the source is a checked one that panics.  A Rust
  \<open>Result\<close> is \<open>(e, a) result\<close>, a sum whose error side is \<open>Err\<close> of the source's error or a panic, so an
  out-of-range slice, a failed assertion and a returned error are different values.  A string is its
  UTF-8 bytes.  Error enumerations that a contract returns are ordered by their exit codes.

  \<^bold>\<open>Interfaces.\<close>  \<open>codec\<close> and \<open>fixed_codec\<close> (interpreted as \<open>entry\<close>, \<open>intent\<close>, \<open>state\<close>, \<open>batch\<close>) promise
  that a format is canonical; \<open>fiber_rail\<close> (\<open>mock\<close>) that a payment rail conserves what a channel
  opened with; \<open>gate\<close> (\<open>ed25519\<close>) what an authorisation implies; \<open>fee_source\<close> (\<open>http\<close>) what a collected
  fee cell is; \<open>relay\<close>, which extends both (\<open>ed25519_http\<close>), what a sponsored transaction adds; \<open>node\<close>
  (\<open>mock_chain\<close>) what the chain does with a transition; and \<open>game_chain\<close> and \<open>responsive_chain\<close>, which
  extend it (\<open>ledger\<close>), that the chain runs the type script and takes what the script accepts.  Clients are proved inside the locale
  and the properties rest on the interpretations.

  \<^bold>\<open>Bounds and termination.\<close>  There is no fuel.  A loop over cells runs until a syscall reports
  \<open>IndexOutOfBound\<close>; its index is a \<open>usize\<close>, below \<open>usize_limit\<close> (2 to the 64), and reaching that limit
  is the overflow panic of the source, so the measure is the distance to it.  The loops of the Merkle
  tree terminate because a level of two or more nodes folds to a shorter one.  In the browser a
  \<open>usize\<close> has 32 bits, which is why \<open>state_decode_wasm\<close> differs from \<open>state_decode\<close>.

  \<^bold>\<open>Parameters and what is assumed of them.\<close>  Hashes, hex, molecule serialisation and the ckb-auth
  code hash are \<open>externals\<close>; hashes are assumed to have 32 bytes (\<open>digests_32\<close>) and hex to be text,
  never to be injective: where two inputs hash alike the conclusion names the \<open>collision\<close>.  Syscalls
  are the record \<open>vm\<close>; that a virtual machine serves a given transaction is \<open>lock_runs_on\<close> or
  \<open>game_runs_on\<close>.  The ckb-auth child process is a function of key hash, signature and message.
  Ed25519, biscuit-auth, the HTTP transport with the JSON conversions, secp256k1, serde and bech32
  are further records, with their documented behaviour as named predicates where a theorem needs it.
  Every such hypothesis is met by a concrete instance in the theorem's witness.

  \<^bold>\<open>Not modelled.\<close>  The datalog engine of biscuit-auth is a parameter; what is assumed of it, for the
  check and the policy the code writes, is stated in Biscuit\_Gate.  Sockets, response headers, console output, the clock
  and the file system are arguments of the handlers or left out; a handler is modelled from the
  request it has read to the response, state and log lines it leaves.  Requests are handled one at a
  time, as the servers do.  Of the contracts' build scripts, finding the output directory and the cargo
  messages are left out.
  The integration tests, the demos, the command-line tool and the deployment scripts exercise the program.
\<close>

section \<open>One key, two kinds of message\<close>

lemma domains_differ: "session_auth_preimage sh e pb \<noteq> intent_preimage g h p n"
proof
  assume "session_auth_preimage sh e pb = intent_preimage g h p n"
  then have "session_auth_preimage sh e pb ! 15 = intent_preimage g h p n ! 15" by simp
  then show False
    by (simp add: session_auth_preimage_def intent_preimage_def SESSION_AUTH_DOMAIN_def INTENT_DOMAIN_def ascii_def nth_append)
qed

lemma intent_preimage_inj:
  assumes "length g = 32" "length g' = 32" "length h = 20" "length h' = 20"
  shows "intent_preimage g h p n = intent_preimage g' h' p' n' \<longleftrightarrow> g = g' \<and> h = h' \<and> p = p' \<and> n = n'"
  using assms by (auto simp: intent_preimage_def append_eq_append_conv)

text \<open>
  C39: a player's session key signs moves under one domain and an owner's key authorizes sessions
  under another: the two messages never coincide, and two moves that differ in the game, the
  player, the points or the nonce have different messages, unless the two strings hashed are a
  collision of the hash.
\<close>

theorem signed_messages_separate:
  assumes "length sh = 32" and "length pb = SESSION_PARAMS_LEN" and "length g = 32" and "length g' = 32"
    and "length h = 20" and "length h' = 20"
  shows "(session_auth_message X sh e pb = Ok (intent_message (blake2b_256 X) g h p n) \<longrightarrow>
       collision (blake2b_256 X) (session_auth_preimage sh e pb) (intent_preimage g h p n)) \<and>
     (intent_message (blake2b_256 X) g h p n = intent_message (blake2b_256 X) g' h' p' n' \<longrightarrow>
       g = g' \<and> h = h' \<and> p = p' \<and> n = n' \<or>
       collision (blake2b_256 X) (intent_preimage g h p n) (intent_preimage g' h' p' n'))"
  using domains_differ[of sh e pb g h p n] intent_preimage_inj[OF assms(3-6), of p n p' n']
  by (auto simp: session_auth_message_eq[OF assms(1,2)] intent_message_def collision_def)

lemma signed_messages_separate_witness:
  "collision sample_hash (intent_preimage (replicate 32 6) (replicate 20 1) 5 1) (intent_preimage (replicate 32 6) (replicate 20 1) 5 2)"
proof -
  have "intent_message (blake2b_256 sample_externals) (replicate 32 6) (replicate 20 1) 5 1 =
      intent_message (blake2b_256 sample_externals) (replicate 32 6) (replicate 20 1) 5 2"
    by (simp add: intent_message_def intent_preimage_def sample_hash_def)
  then show ?thesis
    using signed_messages_separate[of "replicate 32 1" "replicate SESSION_PARAMS_LEN 2" "replicate 32 6" "replicate 32 6"
        "replicate 20 1" "replicate 20 1" sample_externals 0 5 1 5 2]
    by simp
qed

end
